theory Spec2Isabelle
  imports Main "HOL-Library.Sublist" "HOL-Library.AList" "HOL-Library.Word"
begin

section \<open>JavaScript values\<close>

text \<open>
  A JavaScript string is a sequence of UTF-16 code units; it is modelled as the list of
  their numeric values. A string is falsy exactly when it is empty. Where the code only
  tests truthiness, \<open>undefined\<close>, \<open>null\<close> and \<open>''\<close> are all modelled by the empty list;
  where the code stores \<open>null\<close> in a field, the field is an \<open>option\<close>.
\<close>

type_synonym jsstring = "nat list"

definition js :: "string \<Rightarrow> jsstring" where
  "js s = map of_char s"

text \<open>\<open>a || b\<close> on strings.\<close>

definition or_else :: "jsstring \<Rightarrow> jsstring \<Rightarrow> jsstring" where
  "or_else a b = (if a \<noteq> [] then a else b)"

text \<open>Number to string, as template literals do for a non-negative integer.\<close>

fun decimal :: "nat \<Rightarrow> jsstring" where
  "decimal n = (if n < 10 then [48 + n] else decimal (n div 10) @ [48 + n mod 10])"

declare decimal.simps [simp del]

text \<open>\<open>s.split(' ')[0]\<close>: the part of \<open>s\<close> before its first space.\<close>

definition split_first :: "jsstring \<Rightarrow> jsstring" where
  "split_first s = takeWhile (\<lambda>c. c \<noteq> 32) s"

text \<open>\<open>s.includes(t)\<close>: \<open>t\<close> occurs in \<open>s\<close> as a contiguous substring.\<close>

fun str_includes :: "jsstring \<Rightarrow> jsstring \<Rightarrow> bool" where
  "str_includes [] t = (t = [])"
| "str_includes (c # cs) t = (prefix t (c # cs) \<or> str_includes cs t)"

section \<open>Email extractor: the thread scan\<close>

text \<open>
  The extractor only reads the host page. Each DOM node it visits is represented by the
  results of the lookups the code performs on that node, in the order of
  \<open>querySelectorAll\<close>; \<open>node\<close> is the identity of the node.
\<close>

record attachment =
  att_id :: "jsstring option"
  name :: jsstring
  url :: "jsstring option"
  size_text :: jsstring
  isCollapsedPlaceholder :: bool
  messageIndex :: "nat option"

record thread_message =
  index :: nat
  sender :: jsstring
  date :: jsstring
  messageId :: "jsstring option"
  attachments :: "attachment list"
  expanded :: bool
  collapsedElement :: "nat option"
  attachmentCount :: "jsstring option"

text \<open>
  One element matched by the attachment selectors of \<open>getAllThreadAttachments\<close>:
  \<^item> \<open>messageContainer\<close>: \<open>closest('.gs') || closest('[data-message-id]') || closest('.h7')
    || closest('.gE')\<close>, \<open>None\<close> when there is none (the key \<open>'global'\<close>);
  \<^item> \<open>nameElText\<close>: \<open>nameEl?.textContent?.trim()\<close>;
  \<^item> \<open>dataTooltip\<close>: \<open>container.getAttribute('data-tooltip')\<close>;
  \<^item> \<open>ariaLabel\<close>: \<open>container.querySelector('[aria-label]')?.getAttribute('aria-label')\<close>;
  \<^item> \<open>downloadHref\<close>: \<open>downloadLink?.href\<close>;
  \<^item> \<open>sizeElText\<close>: \<open>sizeEl?.textContent?.trim()\<close>.
\<close>

record att_container =
  node :: nat
  messageContainer :: "nat option"
  nameElText :: jsstring
  dataTooltip :: jsstring
  ariaLabel :: jsstring
  downloadHref :: jsstring
  sizeElText :: jsstring

text \<open>
  One element matched by \<open>'.kv, .kQ, .h7:not(.gs)'\<close>:
  \<^item> \<open>countBadge\<close>: \<open>Some\<close> of the badge's trimmed text when a badge element is found;
  \<^item> \<open>hasClipIcon\<close>: the paperclip test;
  \<^item> \<open>senderFromCollapsed\<close>, \<open>dateFromCollapsed\<close>: the results of
    \<open>getSenderFromCollapsed(row)\<close> and \<open>getDateFromCollapsed(row)\<close>.
\<close>

record collapsed_row =
  rowNode :: nat
  countBadge :: "jsstring option"
  hasClipIcon :: bool
  senderFromCollapsed :: jsstring
  dateFromCollapsed :: jsstring

text \<open>
  The page as the thread scan sees it. \<open>senderFromMessage\<close>, \<open>dateFromMessage\<close> and
  \<open>messageIdFromMessage\<close> give the results of \<open>getSenderFromMessage\<close>,
  \<open>getDateFromMessage\<close> and \<open>getMessageIdFromMessage\<close> on a message container;
  \<open>i18nCollapsed\<close> is \<open>window.i18n.t('collapsedAttachments')\<close> when \<open>window.i18n\<close> is set.
\<close>

record thread_dom =
  attachmentContainers :: "att_container list"
  collapsedRows :: "collapsed_row list"
  senderFromMessage :: "nat \<Rightarrow> jsstring"
  dateFromMessage :: "nat \<Rightarrow> jsstring"
  messageIdFromMessage :: "nat \<Rightarrow> jsstring"
  i18nCollapsed :: "jsstring option"

type_synonym by_message = "(nat option \<times> attachment list) list"

text \<open>
  Strategy 1, the body of \<open>allAttachmentContainers.forEach\<close>. The \<open>Map\<close> keeps its
  keys in insertion order, as the association list does.
\<close>

definition group_of :: "by_message \<Rightarrow> nat option \<Rightarrow> attachment list" where
  "group_of byMsg key = (case map_of byMsg key of None \<Rightarrow> [] | Some atts \<Rightarrow> atts)"

definition scanContainer :: "by_message \<times> nat list \<Rightarrow> att_container \<Rightarrow> by_message \<times> nat list" where
  "scanContainer st c =
     (let byMsg = fst st; processedContainers = snd st in
      if node c \<in> set processedContainers then st
      else
        let messageKey = messageContainer c;
            byMsg1 = (if map_of byMsg messageKey = None
                      then AList.update messageKey [] byMsg else byMsg);
            nm = or_else (or_else (nameElText c) (dataTooltip c)) (ariaLabel c)
        in if nm = [] then (byMsg1, processedContainers)
           else
             let existingAtts = group_of byMsg1 messageKey in
             if find (\<lambda>a. name a = nm) existingAtts \<noteq> None then (byMsg1, processedContainers)
             else
               (AList.update messageKey
                  (existingAtts @
                    [\<lparr>att_id = None, name = nm, url = Some (downloadHref c),
                      size_text = sizeElText c, isCollapsedPlaceholder = False,
                      messageIndex = None\<rparr>]) byMsg1,
                processedContainers @ [node c]))"

definition groupAttachments :: "att_container list \<Rightarrow> by_message" where
  "groupAttachments cs = fst (foldl scanContainer ([], []) cs)"

definition global_sender :: jsstring where
  "global_sender = js ''Pi'' @ [232] @ js ''ces jointes''"

definition collapsed_sender :: jsstring where
  "collapsed_sender = js ''Message repli'' @ [233]"

definition default_placeholder :: jsstring where
  "default_placeholder =
     js ''D'' @ [233] @ js ''pliez ce message pour voir les pi'' @ [232] @ js ''ces jointes''"

text \<open>The body of \<open>attachmentsByMessage.forEach\<close>.\<close>

definition number_attachments :: "nat \<Rightarrow> attachment list \<Rightarrow> attachment list" where
  "number_attachments globalIndex atts =
     map (\<lambda>(attIndex, att).
            att\<lparr>att_id := Some (js ''msg'' @ decimal globalIndex @ js ''-att'' @ decimal attIndex),
                messageIndex := Some globalIndex\<rparr>)
         (enumerate 0 atts)"

definition convertGroup ::
  "thread_dom \<Rightarrow> thread_message list \<times> nat \<Rightarrow> nat option \<times> attachment list
     \<Rightarrow> thread_message list \<times> nat" where
  "convertGroup d st g =
     (let messages = fst st; globalIndex = snd st; atts = snd g in
      if atts = [] then st
      else
        (messages @
          [\<lparr>index = globalIndex,
            sender = (case fst g of Some c \<Rightarrow> senderFromMessage d c | None \<Rightarrow> global_sender),
            date = (case fst g of Some c \<Rightarrow> dateFromMessage d c | None \<Rightarrow> []),
            messageId = (case fst g of Some c \<Rightarrow> Some (messageIdFromMessage d c) | None \<Rightarrow> None),
            attachments = number_attachments globalIndex atts,
            expanded = True,
            collapsedElement = None,
            attachmentCount = None\<rparr>],
         globalIndex + 1))"

text \<open>Strategy 2, the body of \<open>collapsedRows.forEach\<close>.\<close>

definition placeholder_text :: "thread_dom \<Rightarrow> jsstring" where
  "placeholder_text d = (case i18nCollapsed d of Some t \<Rightarrow> t | None \<Rightarrow> default_placeholder)"

definition count_hint :: "collapsed_row \<Rightarrow> jsstring" where
  "count_hint row = (case countBadge row of Some t \<Rightarrow> or_else t (js ''?'') | None \<Rightarrow> js ''?'')"

definition placeholder :: "thread_dom \<Rightarrow> nat \<Rightarrow> collapsed_row \<Rightarrow> attachment" where
  "placeholder d globalIndex row =
     \<lparr>att_id = Some (js ''msg'' @ decimal globalIndex @ js ''-collapsed''),
      name = placeholder_text d @ js '' ('' @ count_hint row @ js '')'',
      url = None,
      size_text = [],
      isCollapsedPlaceholder = True,
      messageIndex = Some globalIndex\<rparr>"

definition scanCollapsedRow ::
  "thread_dom \<Rightarrow> thread_message list \<times> nat \<Rightarrow> collapsed_row \<Rightarrow> thread_message list \<times> nat" where
  "scanCollapsedRow d st row =
     (let messages = fst st; globalIndex = snd st in
      if countBadge row \<noteq> None \<or> hasClipIcon row then
        if find (\<lambda>m. sender m \<noteq> [] \<and>
                      str_includes (senderFromCollapsed row) (split_first (sender m)))
             messages \<noteq> None
        then st
        else
          (messages @
            [\<lparr>index = globalIndex,
              sender = or_else (senderFromCollapsed row) collapsed_sender,
              date = dateFromCollapsed row,
              messageId = None,
              attachments = [placeholder d globalIndex row],
              expanded = False,
              collapsedElement = Some (rowNode row),
              attachmentCount = Some (count_hint row)\<rparr>],
           globalIndex + 1)
      else st)"

definition getAllThreadAttachments :: "thread_dom \<Rightarrow> thread_message list" where
  "getAllThreadAttachments d =
     fst (foldl (scanCollapsedRow d)
            (foldl (convertGroup d) ([], 0) (groupAttachments (attachmentContainers d)))
            (collapsedRows d))"


text \<open>A thread with two expanded messages and one collapsed row.\<close>

definition example_thread :: thread_dom where
  "example_thread =
     \<lparr>attachmentContainers =
        [\<lparr>node = 1, messageContainer = Some 7, nameElText = js ''a.pdf'', dataTooltip = [],
          ariaLabel = [], downloadHref = js ''https://mail.google.com/a'', sizeElText = js ''1 KB''\<rparr>,
         \<lparr>node = 2, messageContainer = Some 7, nameElText = js ''a.pdf'', dataTooltip = [],
          ariaLabel = [], downloadHref = js ''https://mail.google.com/b'', sizeElText = []\<rparr>,
         \<lparr>node = 3, messageContainer = Some 8, nameElText = js ''a.pdf'', dataTooltip = [],
          ariaLabel = [], downloadHref = [], sizeElText = []\<rparr>],
      collapsedRows =
        [\<lparr>rowNode = 20, countBadge = Some (js ''3''), hasClipIcon = False,
          senderFromCollapsed = js ''Bob'', dateFromCollapsed = js ''Mon''\<rparr>],
      senderFromMessage = (\<lambda>n. if n = 7 then js ''Ann <ann@x.com>'' else js ''Cy''),
      dateFromMessage = (\<lambda>n. []),
      messageIdFromMessage = (\<lambda>n. decimal n),
      i18nCollapsed = Some (js ''Expand'')\<rparr>"

definition example_placeholder :: attachment where
  "example_placeholder =
     \<lparr>att_id = Some (js ''msg2-collapsed''), name = js ''Expand (3)'', url = None,
      size_text = [], isCollapsedPlaceholder = True, messageIndex = Some 2\<rparr>"

definition example_collapsed :: thread_message where
  "example_collapsed =
     \<lparr>index = 2, sender = js ''Bob'', date = js ''Mon'', messageId = None,
      attachments = [example_placeholder], expanded = False,
      collapsedElement = Some 20, attachmentCount = Some (js ''3'')\<rparr>"

section \<open>Thread scan: notions for the proofs\<close>

text \<open>
  Real entries carry a string reference and no placeholder flag. A scanned message
  holds real entries when expanded, and otherwise the single placeholder built from
  its row.
\<close>

definition real_entries :: "attachment list \<Rightarrow> bool" where
  "real_entries atts = list_all (\<lambda>a. \<not> isCollapsedPlaceholder a \<and> url a \<noteq> None) atts"

definition groups_real :: "by_message \<Rightarrow> bool" where
  "groups_real byMsg = list_all (\<lambda>g. real_entries (snd g)) byMsg"

definition scanned :: "thread_dom \<Rightarrow> thread_message \<Rightarrow> bool" where
  "scanned d m =
     (if expanded m then real_entries (attachments m)
      else list_ex (\<lambda>row. attachments m = [placeholder d (index m) row] \<and>
                          attachmentCount m = Some (count_hint row)) (collapsedRows d))"

section \<open>Email extractor: attachments of one message and of the whole view\<close>

text \<open>
  An attachment card as \<open>getAttachments\<close> and \<open>getAttachmentsFromMessage\<close> read it:
  \<^item> \<open>cardName\<close>: \<open>nameElement?.textContent?.trim()\<close>;
  \<^item> \<open>cardHref\<close>: \<open>downloadLink?.href\<close>, \<open>None\<close> when there is no download link;
  \<^item> \<open>cardDataId\<close>: \<open>container.getAttribute('data-id') ||
    container.querySelector('[data-id]')?.getAttribute('data-id')\<close>;
  \<^item> \<open>cardSize\<close>: \<open>sizeElement?.textContent?.trim()\<close>.
\<close>

record card =
  cardName :: jsstring
  cardHref :: "jsstring option"
  cardDataId :: jsstring
  cardSize :: jsstring

definition card_name :: "card \<Rightarrow> jsstring" where
  "card_name c = or_else (cardName c) (js ''attachment'')"

definition attid_url :: "jsstring \<Rightarrow> jsstring" where
  "attid_url attachmentId =
     js ''https://mail.google.com/mail/u/0/?ui=2&ik=&attid='' @ attachmentId @ js ''&disp=safe''"

definition card_url :: "card \<Rightarrow> jsstring option" where
  "card_url c =
     (let url = cardHref c in
      if url = None \<or> url = Some []
      then (if cardDataId c \<noteq> [] then Some (attid_url (cardDataId c)) else url)
      else url)"

definition card_attachment :: "attachment list \<Rightarrow> card \<Rightarrow> attachment" where
  "card_attachment atts c =
     \<lparr>att_id = Some (js ''attachment-'' @ decimal (length atts)),
      name = card_name c,
      url = card_url c,
      size_text = cardSize c,
      isCollapsedPlaceholder = False,
      messageIndex = None\<rparr>"

text \<open>\<open>getAttachmentsFromMessage\<close>: the cards are the matches of \<open>'.aZo, .aQH, .aQw'\<close>
  inside the message container.\<close>

definition pushCardOnce :: "attachment list \<Rightarrow> card \<Rightarrow> attachment list" where
  "pushCardOnce atts c =
     (if card_name c \<noteq> [] \<and> find (\<lambda>a. name a = card_name c) atts = None
      then atts @ [card_attachment atts c] else atts)"

definition getAttachmentsFromMessage :: "card list \<Rightarrow> attachment list" where
  "getAttachmentsFromMessage cs = foldl pushCardOnce [] cs"

text \<open>
  \<open>getAttachments\<close>: \<open>cards\<close> are the matches of \<open>'.aZo, .aQH'\<close> in the document,
  \<open>inlineCards\<close> those of \<open>'.aQw'\<close>, with \<open>inlineName\<close> the trimmed text of \<open>'.aQA'\<close> and
  \<open>inlineHref\<close> the \<open>href\<close> of the link around the download button.
\<close>

record inline_card =
  inlineName :: jsstring
  inlineHref :: "jsstring option"

record view_dom =
  cards :: "card list"
  inlineCards :: "inline_card list"

definition pushCard :: "attachment list \<Rightarrow> card \<Rightarrow> attachment list" where
  "pushCard atts c =
     (if card_name c \<noteq> [] then atts @ [card_attachment atts c] else atts)"

definition pushInline :: "attachment list \<Rightarrow> inline_card \<Rightarrow> attachment list" where
  "pushInline atts c =
     (if inlineName c \<noteq> [] \<and> find (\<lambda>a. name a = inlineName c) atts = None
      then atts @
        [\<lparr>att_id = Some (js ''attachment-'' @ decimal (length atts)),
          name = inlineName c,
          url = inlineHref c,
          size_text = [],
          isCollapsedPlaceholder = False,
          messageIndex = None\<rparr>]
      else atts)"

definition getAttachments :: "view_dom \<Rightarrow> attachment list" where
  "getAttachments d = foldl pushInline (foldl pushCard [] (cards d)) (inlineCards d)"

text \<open>
  A view of one message with one attachment: the attachment area \<open>.aQH\<close> holds the
  single card \<open>.aZo\<close>, and both match \<open>'.aZo, .aQH'\<close>; the name lookup inside the area
  finds the name element of its first card.
\<close>

definition single_attachment_view :: view_dom where
  "single_attachment_view =
     \<lparr>cards =
        [\<lparr>cardName = js ''report.pdf'', cardHref = Some (js ''https://mail.google.com/download/1''),
          cardDataId = [], cardSize = js ''12 KB''\<rparr>,
         \<lparr>cardName = js ''report.pdf'', cardHref = Some (js ''https://mail.google.com/download/1''),
          cardDataId = [], cardSize = js ''12 KB''\<rparr>],
      inlineCards = []\<rparr>"

section \<open>Attachment lists: notions for the proofs\<close>

text \<open>
  An entry taken from the first card with its name, and lists in which no name occurs
  twice.
\<close>

definition from_first_card :: "card list \<Rightarrow> attachment \<Rightarrow> bool" where
  "from_first_card cs a =
     (case find (\<lambda>c. card_name c = name a) cs of
        None \<Rightarrow> False
      | Some c \<Rightarrow> url a = card_url c \<and> size_text a = cardSize c)"

definition groups_distinct :: "by_message \<Rightarrow> bool" where
  "groups_distinct byMsg = list_all (\<lambda>g. distinct (map name (snd g))) byMsg"

definition names_distinct :: "thread_message \<Rightarrow> bool" where
  "names_distinct m = distinct (map name (attachments m))"

section \<open>Attachment relay: the base64 payload\<close>

text \<open>
  A blob is its bytes and its MIME type. The page context turns a blob into the payload
  of an \<open>UPLOAD_ATTACHMENT_BASE64\<close> message with \<open>blobToBase64\<close>; the gateway turns the
  payload back into bytes with \<open>atob\<close>, \<open>charCodeAt\<close> and \<open>Uint8Array\<close>.
\<close>

record blob =
  blob_bytes :: "8 word list"
  blob_type :: jsstring

text \<open>The base64 alphabet (RFC 4648): the character of a 6-bit value, and back.\<close>

definition b64char :: "nat \<Rightarrow> nat" where
  "b64char i =
     (if i < 26 then 65 + i
      else if i < 52 then 97 + (i - 26)
      else if i < 62 then 48 + (i - 52)
      else if i = 62 then 43 else 47)"

definition b64val :: "nat \<Rightarrow> nat option" where
  "b64val c =
     (if 65 \<le> c \<and> c \<le> 90 then Some (c - 65)
      else if 97 \<le> c \<and> c \<le> 122 then Some (c - 97 + 26)
      else if 48 \<le> c \<and> c \<le> 57 then Some (c - 48 + 52)
      else if c = 43 then Some 62
      else if c = 47 then Some 63
      else None)"

fun b64encode :: "8 word list \<Rightarrow> jsstring" where
  "b64encode [] = []"
| "b64encode [a] =
     [b64char (unat a div 4), b64char (unat a mod 4 * 16), 61, 61]"
| "b64encode [a, b] =
     [b64char (unat a div 4), b64char (unat a mod 4 * 16 + unat b div 16),
      b64char (unat b mod 16 * 4), 61]"
| "b64encode (a # b # c # rest) =
     [b64char (unat a div 4), b64char (unat a mod 4 * 16 + unat b div 16),
      b64char (unat b mod 16 * 4 + unat c div 64), b64char (unat c mod 64)] @ b64encode rest"

text \<open>
  \<open>FileReader.readAsDataURL\<close>, a function of the browser: the result is
  \<open>data:<type>;base64,<payload>\<close>, with \<open>application/octet-stream\<close> for a blob without a
  type.
\<close>

definition readAsDataURL :: "blob \<Rightarrow> jsstring" where
  "readAsDataURL b =
     js ''data:'' @ or_else (blob_type b) (js ''application/octet-stream'') @ js '';base64,'' @
     b64encode (blob_bytes b)"

text \<open>\<open>s.split(sep)\<close> for a one-character separator.\<close>

fun split_on :: "nat \<Rightarrow> jsstring \<Rightarrow> jsstring list" where
  "split_on sep [] = [[]]"
| "split_on sep (c # cs) =
     (if c = sep then [] # split_on sep cs
      else (case split_on sep cs of [] \<Rightarrow> [[c]] | p # ps \<Rightarrow> (c # p) # ps))"

text \<open>\<open>blobToBase64\<close>: \<open>reader.result.split(',')[1]\<close>; \<open>None\<close> is \<open>undefined\<close>.\<close>

definition blobToBase64 :: "blob \<Rightarrow> jsstring option" where
  "blobToBase64 b =
     (case split_on 44 (readAsDataURL b) of
        _ # base64 # _ \<Rightarrow> Some base64
      | _ \<Rightarrow> None)"

text \<open>
  \<open>atob\<close>, a function of the browser (forgiving-base64 decode): ASCII whitespace is
  removed; if the length is then a multiple of four, one or two trailing \<open>=\<close> are
  removed; a length of 1 modulo 4 or a character outside the alphabet is an error
  (\<open>None\<close>: \<open>atob\<close> throws); every four characters give three bytes, and two or three
  left over give one or two.
\<close>

definition ascii_whitespace :: "nat \<Rightarrow> bool" where
  "ascii_whitespace c = (c = 9 \<or> c = 10 \<or> c = 12 \<or> c = 13 \<or> c = 32)"

definition strip_padding :: "jsstring \<Rightarrow> jsstring" where
  "strip_padding d =
     (case rev d of
        e1 # e2 # r \<Rightarrow> if e1 = 61 then (if e2 = 61 then rev r else rev (e2 # r)) else d
      | [e1] \<Rightarrow> if e1 = 61 then [] else d
      | [] \<Rightarrow> d)"

fun decode_sextets :: "nat list \<Rightarrow> nat list" where
  "decode_sextets (s1 # s2 # s3 # s4 # rest) =
     [s1 * 4 + s2 div 16, s2 mod 16 * 16 + s3 div 4, s3 mod 4 * 64 + s4] @ decode_sextets rest"
| "decode_sextets [s1, s2, s3] = [s1 * 4 + s2 div 16, s2 mod 16 * 16 + s3 div 4]"
| "decode_sextets [s1, s2] = [s1 * 4 + s2 div 16]"
| "decode_sextets [s1] = []"
| "decode_sextets [] = []"

definition atob :: "jsstring \<Rightarrow> jsstring option" where
  "atob s =
     (let d0 = filter (\<lambda>c. \<not> ascii_whitespace c) s;
          d = (if length d0 mod 4 = 0 then strip_padding d0 else d0)
      in if length d mod 4 = 1 then None
         else (case those (map b64val d) of
                 None \<Rightarrow> None
               | Some sextets \<Rightarrow> Some (decode_sextets sextets)))"

text \<open>
  The gateway's handler for \<open>UPLOAD_ATTACHMENT_BASE64\<close>: \<open>atob(base64Data)\<close>, every
  \<open>charCodeAt(i)\<close> into an array, and \<open>new Uint8Array\<close> of it. An \<open>undefined\<close> payload
  reaches \<open>atob\<close> as the string \<open>undefined\<close>. \<open>None\<close>: the handler throws.
\<close>

definition decodeBase64Data :: "jsstring option \<Rightarrow> 8 word list option" where
  "decodeBase64Data base64Data =
     (case atob (case base64Data of Some s \<Rightarrow> s | None \<Rightarrow> js ''undefined'') of
        None \<Rightarrow> None
      | Some byteCharacters \<Rightarrow> Some (map of_nat byteCharacters))"

text \<open>The 6-bit values and the number of padding characters of the encoding, for the proofs.\<close>

fun sextets :: "8 word list \<Rightarrow> nat list" where
  "sextets [] = []"
| "sextets [a] = [unat a div 4, unat a mod 4 * 16]"
| "sextets [a, b] = [unat a div 4, unat a mod 4 * 16 + unat b div 16, unat b mod 16 * 4]"
| "sextets (a # b # c # rest) =
     [unat a div 4, unat a mod 4 * 16 + unat b div 16,
      unat b mod 16 * 4 + unat c div 64, unat c mod 64] @ sextets rest"

fun padding :: "8 word list \<Rightarrow> nat" where
  "padding [] = 0"
| "padding [a] = 2"
| "padding [a, b] = 1"
| "padding (a # b # c # rest) = padding rest"


text \<open>
  A one-byte blob as \<open>response.blob()\<close> makes it for a response with the header
  \<open>Content-Type: application/pdf; name="a,b.pdf"\<close>: the value of the parameter has a
  comma.
\<close>

definition comma_type_blob :: blob where
  "comma_type_blob =
     \<lparr>blob_bytes = [0x41],
      blob_type = js ''application/pdf;name='' @ [34] @ js ''a,b.pdf'' @ [34]\<rparr>"

definition pdf_blob :: blob where
  "pdf_blob = \<lparr>blob_bytes = [0x25, 0x50, 0x44, 0x46, 0x2D], blob_type = js ''application/pdf''\<rparr>"

section \<open>Task composer: data\<close>

text \<open>
  What \<open>chrome.runtime.sendMessage\<close> gives back: the promise rejects, or it resolves to
  the gateway's answer, which is an object \<open>{error: message}\<close> or the payload.
\<close>

datatype 'a response = ErrorObject jsstring | Payload 'a

datatype 'a outcome = Rejects jsstring | Resolves "'a response"

text \<open>\<open>if (response.error)\<close>: the message when the answer carries a truthy \<open>error\<close>.\<close>

definition error_of :: "'a response \<Rightarrow> jsstring option" where
  "error_of r = (case r of ErrorObject m \<Rightarrow> (if m \<noteq> [] then Some m else None) | Payload _ \<Rightarrow> None)"

record asana_object =
  gid :: jsstring
  obj_name :: jsstring

record custom_field =
  field_gid :: jsstring
  field_name :: jsstring
  field_type :: jsstring
  enumOptions :: "asana_object list"

record preferences =
  defaultWorkspace :: jsstring
  defaultProject :: jsstring
  lastWorkspaceId :: jsstring
  lastProjectId :: jsstring
  autoClose :: bool

text \<open>
  The extraction unit handed to the composer. \<open>emailSender\<close> and \<open>emailDate\<close> are the
  fields \<open>sender\<close> and \<open>date\<close>; an absent field is the empty string.
\<close>

record email_data =
  subject :: jsstring
  body :: jsstring
  emailSender :: jsstring
  emailDate :: jsstring
  emailUrl :: jsstring
  emlDownloadUrl :: jsstring

datatype mode = Create | Comment

text \<open>A custom-field value of the task: the text, or \<open>parseFloat\<close> of the text.\<close>

datatype field_value = TextValue jsstring | ParseFloat jsstring

record task_data =
  td_projectId :: jsstring
  td_workspaceId :: jsstring
  td_name :: jsstring
  td_htmlNotes :: jsstring
  td_assignee :: "jsstring option"
  td_dueDate :: "jsstring option"
  td_tags :: "jsstring list option"
  td_customFields :: "(jsstring \<times> field_value) list option"

datatype rpc_message =
    SAVE_PREFERENCES preferences
  | GET_PROJECTS jsstring
  | GET_USERS jsstring
  | GET_TAGS jsstring
  | GET_PROJECT_CUSTOM_FIELDS jsstring
  | CREATE_TASK task_data
  | ADD_COMMENT jsstring jsstring jsstring
  | UPLOAD_ATTACHMENT_BASE64 jsstring "jsstring option" jsstring jsstring
  | SHOW_NOTIFICATION jsstring jsstring jsstring

datatype status_kind = StatusInfo | StatusSuccess | StatusError

datatype host_click = LabelsButton | LabelItem nat | PageBody

text \<open>
  What the composer does to the outside, in order: a message to the gateway, a
  \<open>fetch\<close> of a host-page URL, a click on the host page, the timer that closes the modal.
\<close>

datatype event =
    Sent rpc_message
  | Fetched jsstring
  | Clicked host_click
  | CloseTimer

text \<open>
  The composer singleton. \<open>modal\<close> says that \<open>this.modal\<close> is the modal element: \<open>close\<close>
  makes it \<open>null\<close> once the modal has faded out. \<open>status\<close> is what \<open>showStatus\<close> last
  displayed, \<open>events\<close> the trace of outside actions. The widgets of the modal that only
  display the state (placeholders, disabled flags, dropdowns) are left out.
\<close>

record selector =
  modal :: bool
  emailData :: email_data
  user :: asana_object
  workspaces :: "asana_object list"
  projects :: "asana_object list response"
  users :: "asana_object list response"
  tags :: "asana_object list response"
  preferences :: preferences
  selectedProject :: "asana_object option"
  selectedTags :: "asana_object list"
  selectedExistingTask :: "asana_object option"
  customFields :: "custom_field list response"
  customFieldValues :: "(jsstring \<times> jsstring) list"
  mode :: mode
  status :: "(jsstring \<times> status_kind) option"
  events :: "event list"

datatype fetch_result = NetworkError | HttpStatus nat | Body blob

text \<open>
  The world around the composer. \<open>i18n_t\<close> is the lookup \<open>t(key, subs)\<close>. A reply may
  depend on the moment of the call, given as the number of events before it.
  \<open>typeErrorMessage\<close> is the text of the engine's \<open>TypeError\<close>. \<open>readerError\<close> says that
  the \<open>FileReader\<close> fails; \<open>labelsBtn\<close>, \<open>labelItems\<close> and \<open>labelError\<close> are the labels
  button found on the host page, the texts of its menu items, and an exception raised
  while they are used.

  A function of the composer runs without interruption up to an \<open>await\<close>. While it is
  suspended there, the other handlers of the composer may run: the user closes the
  modal or changes the workspace, another suspended function resumes. \<open>meanwhile\<close> gives
  the state of the composer when the function resumes, from the state in which it
  was suspended.
\<close>

record composer_env =
  i18n_t :: "jsstring \<Rightarrow> jsstring list \<Rightarrow> jsstring"
  typeErrorMessage :: jsstring
  getProjectsReply :: "jsstring \<Rightarrow> asana_object list outcome"
  getUsersReply :: "jsstring \<Rightarrow> asana_object list outcome"
  getTagsReply :: "jsstring \<Rightarrow> asana_object list outcome"
  customFieldsReply :: "nat \<Rightarrow> jsstring \<Rightarrow> custom_field list outcome"
  savePreferencesReply :: "nat \<Rightarrow> preferences \<Rightarrow> unit outcome"
  createTaskReply :: "task_data \<Rightarrow> asana_object outcome"
  addCommentReply :: "jsstring \<Rightarrow> jsstring \<Rightarrow> unit outcome"
  uploadReply :: "nat \<Rightarrow> rpc_message \<Rightarrow> unit outcome"
  fetchResult :: "nat \<Rightarrow> jsstring \<Rightarrow> fetch_result"
  readerError :: "nat \<Rightarrow> jsstring option"
  labelsBtn :: bool
  labelItems :: "jsstring list"
  labelError :: bool
  meanwhile :: "selector \<Rightarrow> selector"

text \<open>The values read from the modal's inputs when the user submits.\<close>

record form =
  taskNameInput :: jsstring
  workspaceValue :: jsstring
  assigneeValue :: jsstring
  dueDateValue :: jsstring
  includeBody :: bool
  includeLink :: bool
  attachEml :: bool
  addLabel :: bool
  checkedAttachments :: "(jsstring \<times> jsstring) list"

section \<open>Task composer: text helpers\<close>

text \<open>
  \<open>escapeHtml\<close>: the text is stored as a text node and read back as markup, which
  escapes \<open>&\<close>, \<open><\<close>, \<open>>\<close> and the no-break space.
\<close>

definition escape_unit :: "nat \<Rightarrow> jsstring" where
  "escape_unit c =
     (if c = 38 then js ''&amp;''
      else if c = 60 then js ''&lt;''
      else if c = 62 then js ''&gt;''
      else if c = 160 then js ''&nbsp;''
      else [c])"

definition escapeHtml :: "jsstring \<Rightarrow> jsstring" where
  "escapeHtml text = (if text = [] then [] else concat (map escape_unit text))"

text \<open>The characters matched by \<open>\s\<close>, which are those removed by \<open>trim()\<close>.\<close>

definition js_space :: "nat \<Rightarrow> bool" where
  "js_space c =
     (c \<in> set [9, 10, 11, 12, 13, 32, 160, 5760, 8232, 8233, 8239, 8287, 12288, 65279]
      \<or> (8192 \<le> c \<and> c \<le> 8202))"

text \<open>\<open>s.trim()\<close> and \<open>s.replace(/^\s+|\s+$/g, '')\<close>.\<close>

definition js_trim :: "jsstring \<Rightarrow> jsstring" where
  "js_trim s = rev (dropWhile js_space (rev (dropWhile js_space s)))"

text \<open>
  \<open>s.replace(/\n{3,}/g, '\n\n')\<close>: \<open>n\<close> counts the line feeds of the run being read; a
  run of three or more is written as two.
\<close>

definition newline_run :: "nat \<Rightarrow> jsstring" where
  "newline_run n = replicate (if 3 \<le> n then 2 else n) 10"

fun collapse_newlines :: "nat \<Rightarrow> jsstring \<Rightarrow> jsstring" where
  "collapse_newlines n [] = newline_run n"
| "collapse_newlines n (c # cs) =
     (if c = 10 then collapse_newlines (Suc n) cs
      else newline_run n @ c # collapse_newlines 0 cs)"

definition cleanBody :: "jsstring \<Rightarrow> jsstring" where
  "cleanBody b = js_trim (collapse_newlines 0 (escapeHtml b))"

text \<open>\<open>(subject || 'email').substring(0, 50).replace(/[^a-zA-Z0-9]/g, '_') + '.eml'\<close>.\<close>

definition alphanumeric :: "nat \<Rightarrow> bool" where
  "alphanumeric c = ((97 \<le> c \<and> c \<le> 122) \<or> (65 \<le> c \<and> c \<le> 90) \<or> (48 \<le> c \<and> c \<le> 57))"

definition emlFilename :: "jsstring \<Rightarrow> jsstring" where
  "emlFilename subj =
     map (\<lambda>c. if alphanumeric c then c else 95) (take 50 (or_else subj (js ''email''))) @
     js ''.eml''"

section \<open>Task composer: the note body\<close>

text \<open>The rich-text note of \<open>createTask\<close>, built by appending to \<open>htmlNotes\<close>.\<close>

definition htmlNotes :: "jsstring \<Rightarrow> email_data \<Rightarrow> bool \<Rightarrow> bool \<Rightarrow> jsstring" where
  "htmlNotes fromLabel e incLink incBody =
     (let h0 = js ''<body>'';
          h1 = (if emailSender e \<noteq> []
                then h0 @ fromLabel @ js '' '' @ escapeHtml (emailSender e) @ [10] else h0);
          h2 = (if emailDate e \<noteq> []
                then h1 @ js ''Date: '' @ escapeHtml (emailDate e) @ [10] else h1);
          h3 = (if incLink \<and> emailUrl e \<noteq> []
                then h2 @ [10] @ js ''<a href='' @ [34] @ escapeHtml (emailUrl e) @ [34] @
                     js ''>Ouvrir dans Gmail</a>'' @ [10]
                else h2);
          h4 = (if incBody \<and> body e \<noteq> []
                then h3 @ [10] @ js ''<blockquote>'' @ cleanBody (body e) @ js ''</blockquote>''
                else h3)
      in h4 @ js ''</body>'')"

text \<open>The rich-text comment of \<open>addCommentToTask\<close>.\<close>

definition htmlComment :: "email_data \<Rightarrow> bool \<Rightarrow> bool \<Rightarrow> jsstring" where
  "htmlComment e incLink incBody =
     (let h0 = js ''<body>'' @ js ''<strong>'' @
               escapeHtml (or_else (subject e) (js ''(no subject)'')) @ js ''</strong>'';
          h1 = (if emailSender e \<noteq> [] \<or> emailDate e \<noteq> []
                then h0 @ [10] @
                  (if emailSender e \<noteq> [] then js ''De: '' @ escapeHtml (emailSender e) else []) @
                  (if emailDate e \<noteq> []
                   then (if emailSender e \<noteq> [] then js '' | '' @ escapeHtml (emailDate e)
                         else escapeHtml (emailDate e))
                   else [])
                else h0);
          h2 = (if incLink \<and> emailUrl e \<noteq> []
                then h1 @ [10] @ js ''<a href='' @ [34] @ escapeHtml (emailUrl e) @ [34] @
                     js ''>Ouvrir dans Gmail</a>''
                else h1);
          h3 = (if incBody \<and> body e \<noteq> []
                then h2 @ [10] @ js ''<blockquote>'' @ cleanBody (body e) @ js ''</blockquote>''
                else h2)
      in h3 @ js ''</body>'')"

text \<open>
  The sections of the note as the specification names them: sender line, date line,
  back-link, quoted body.
\<close>

definition sender_line :: "jsstring \<Rightarrow> email_data \<Rightarrow> jsstring" where
  "sender_line fromLabel e = fromLabel @ js '' '' @ escapeHtml (emailSender e) @ [10]"

definition date_line :: "email_data \<Rightarrow> jsstring" where
  "date_line e = js ''Date: '' @ escapeHtml (emailDate e) @ [10]"

definition back_link :: "email_data \<Rightarrow> jsstring" where
  "back_link e =
     [10] @ js ''<a href='' @ [34] @ escapeHtml (emailUrl e) @ [34] @
     js ''>Ouvrir dans Gmail</a>'' @ [10]"

definition quoted_body :: "email_data \<Rightarrow> jsstring" where
  "quoted_body e =
     [10] @ js ''<blockquote>'' @
     js_trim (collapse_newlines 0 (escapeHtml (body e))) @ js ''</blockquote>''"

definition note_sections :: "jsstring \<Rightarrow> email_data \<Rightarrow> bool \<Rightarrow> bool \<Rightarrow> jsstring list" where
  "note_sections fromLabel e incLink incBody =
     (if emailSender e \<noteq> [] then [sender_line fromLabel e] else []) @
     (if emailDate e \<noteq> [] then [date_line e] else []) @
     (if incLink \<and> emailUrl e \<noteq> [] then [back_link e] else []) @
     (if incBody \<and> body e \<noteq> [] then [quoted_body e] else [])"

text \<open>The email of the specification's create-task scenario.\<close>

definition invoice_email :: email_data where
  "invoice_email =
     \<lparr>subject = js ''Invoice #42'', body = js ''Please pay'', emailSender = js ''a@x.com'',
      emailDate = [], emailUrl = js ''https://mail.example/#inbox/abc'', emlDownloadUrl = []\<rparr>"

section \<open>Task composer: operations\<close>

text \<open>
  Every operation takes the composer's state and returns the new one. An operation that
  can throw returns the error message beside the state. Where an \<open>async\<close> function
  awaits, the state it resumes in is \<open>meanwhile env\<close> of the state it was suspended in.

  A handler starts with the modal attached: \<open>createTask\<close> and the change of the
  workspace are started from controls of the modal, whose values they read first. Up
  to its first \<open>await\<close> a handler therefore uses \<open>showStatus\<close>; after an \<open>await\<close> it uses
  \<open>showStatusLater\<close>, where \<open>this.modal\<close> may have become \<open>null\<close>, and then
  \<open>this.modal.querySelector\<close> throws.
\<close>

definition showStatus :: "jsstring \<Rightarrow> status_kind \<Rightarrow> selector \<Rightarrow> selector" where
  "showStatus message kind s = s\<lparr>status := Some (message, kind)\<rparr>"

definition showStatusLater ::
  "composer_env \<Rightarrow> jsstring \<Rightarrow> status_kind \<Rightarrow> selector \<Rightarrow> selector \<times> jsstring option" where
  "showStatusLater env message kind s =
     (if modal s then (showStatus message kind s, None) else (s, Some (typeErrorMessage env)))"

text \<open>Sequencing: what follows is skipped once something has been thrown.\<close>

definition andThen ::
  "selector \<times> jsstring option \<Rightarrow> (selector \<Rightarrow> selector \<times> jsstring option) \<Rightarrow>
   selector \<times> jsstring option" where
  "andThen r k = (case snd r of Some m \<Rightarrow> r | None \<Rightarrow> k (fst r))"

definition emit :: "event \<Rightarrow> selector \<Rightarrow> selector" where
  "emit ev s = s\<lparr>events := events s @ [ev]\<rparr>"

definition now :: "selector \<Rightarrow> nat" where
  "now s = length (events s)"

text \<open>
  \<open>savePreferences(prefs)\<close>: the preferences are merged at once, then the message is
  sent; the result holds the message of a rejection.
\<close>

definition savePreferences ::
  "composer_env \<Rightarrow> (preferences \<Rightarrow> preferences) \<Rightarrow> selector \<Rightarrow> selector \<times> jsstring option" where
  "savePreferences env merge s =
     (let p = merge (preferences s);
          s1 = emit (Sent (SAVE_PREFERENCES p)) (s\<lparr>preferences := p\<rparr>)
      in (s1, case savePreferencesReply env (now s) p of
                Rejects m \<Rightarrow> Some m
              | Resolves _ \<Rightarrow> None))"

text \<open>
  \<open>loadCustomFields\<close>: a rejection is caught; an empty list returns before the values
  are reset; an answer that is not a list resets the values and then fails in
  \<open>renderCustomFields\<close>, which is caught too.
\<close>

definition loadCustomFields :: "composer_env \<Rightarrow> jsstring \<Rightarrow> selector \<Rightarrow> selector" where
  "loadCustomFields env projectId s =
     (let s1 = emit (Sent (GET_PROJECT_CUSTOM_FIELDS projectId)) s in
      case customFieldsReply env (now s) projectId of
        Rejects m \<Rightarrow> s1
      | Resolves r \<Rightarrow>
          (case r of
             ErrorObject m \<Rightarrow> s1\<lparr>customFields := r, customFieldValues := []\<rparr>
           | Payload fs \<Rightarrow>
               if fs = [] then s1\<lparr>customFields := r\<rparr>
               else s1\<lparr>customFields := r, customFieldValues := []\<rparr>))"

text \<open>\<open>selectProject\<close>: the preference is saved without waiting for the answer.\<close>

definition selectProject :: "composer_env \<Rightarrow> asana_object \<Rightarrow> selector \<Rightarrow> selector" where
  "selectProject env project s =
     (let s1 = s\<lparr>selectedProject := Some project\<rparr>;
          s2 = fst (savePreferences env (\<lambda>p. p\<lparr>lastProjectId := gid project\<rparr>) s1)
      in loadCustomFields env (gid project) s2)"

definition resetSelections :: "selector \<Rightarrow> selector" where
  "resetSelections s =
     s\<lparr>selectedProject := None, selectedTags := [], selectedExistingTask := None,
       customFields := Payload [], customFieldValues := []\<rparr>"

text \<open>
  The \<open>catch\<close> of \<open>onWorkspaceChange\<close>, which runs after an \<open>await\<close>: when its \<open>showStatus\<close>
  throws, the handler's promise rejects and the state stays as it is.
\<close>

definition loadFailed :: "composer_env \<Rightarrow> jsstring \<Rightarrow> selector \<Rightarrow> selector" where
  "loadFailed env m s =
     fst (showStatusLater env (i18n_t env (js ''errorLoadData'') [] @ js '' '' @ m) StatusError s)"

text \<open>
  \<open>onWorkspaceChange(event, autoSelectDefaults)\<close> with \<open>workspaceId = event.target.value\<close>:
  the handler resets the selections (\<open>resetSelections\<close>) and, for a non-empty workspace
  identifier, sends the three requests (\<open>requestWorkspaceData\<close>) and awaits the answers;
  \<open>loadWorkspaceData\<close> is what it does from the state in which it resumes. There a
  \<open>TypeError\<close> is thrown by \<open>projects.length.toString()\<close> when the answer is not a list,
  then by \<open>this.modal.querySelector\<close> when the modal is gone, then by
  \<open>this.users.filter\<close>; the last \<open>await\<close> is that of \<open>savePreferences\<close>.

  \<open>selectProject\<close> is started without being awaited: what it does after its first
  \<open>await\<close> touches only \<open>customFields\<close> and \<open>customFieldValues\<close>, which the rest of this
  function neither reads nor writes, so its effect is taken at the call.
\<close>

definition projectToSelect :: "bool \<Rightarrow> preferences \<Rightarrow> jsstring" where
  "projectToSelect autoSelectDefaults p =
     (if autoSelectDefaults \<and> defaultProject p \<noteq> [] then defaultProject p else lastProjectId p)"

definition requestWorkspaceData :: "jsstring \<Rightarrow> selector \<Rightarrow> selector" where
  "requestWorkspaceData workspaceId s1 =
     emit (Sent (GET_TAGS workspaceId))
       (emit (Sent (GET_USERS workspaceId))
          (emit (Sent (GET_PROJECTS workspaceId)) s1))"

definition loadWorkspaceData :: "composer_env \<Rightarrow> jsstring \<Rightarrow> bool \<Rightarrow> selector \<Rightarrow> selector" where
  "loadWorkspaceData env workspaceId autoSelectDefaults s2 =
     (case getProjectsReply env workspaceId of
        Rejects m \<Rightarrow> loadFailed env m s2
      | Resolves ps \<Rightarrow>
      (case getUsersReply env workspaceId of
        Rejects m \<Rightarrow> loadFailed env m s2
      | Resolves us \<Rightarrow>
      (case getTagsReply env workspaceId of
        Rejects m \<Rightarrow> loadFailed env m s2
      | Resolves ts \<Rightarrow>
          let s3 = s2\<lparr>projects := ps, users := us, tags := ts\<rparr> in
          (case ps of
             ErrorObject _ \<Rightarrow> loadFailed env (typeErrorMessage env) s3
           | Payload plist \<Rightarrow>
               if \<not> modal s3 then loadFailed env (typeErrorMessage env) s3
               else
               let wanted = projectToSelect autoSelectDefaults (preferences s3);
                   s4 = (if wanted \<noteq> []
                         then (case find (\<lambda>p. gid p = wanted) plist of
                                 Some project \<Rightarrow> selectProject env project s3
                               | None \<Rightarrow> s3)
                         else s3)
               in
               (case us of
                  ErrorObject _ \<Rightarrow> loadFailed env (typeErrorMessage env) s4
                | Payload _ \<Rightarrow>
                    let r = savePreferences env (\<lambda>p. p\<lparr>lastWorkspaceId := workspaceId\<rparr>) s4;
                        s5 = meanwhile env (fst r)
                    in (case snd r of
                          Some m \<Rightarrow> loadFailed env m s5
                        | None \<Rightarrow> s5))))))"

definition onWorkspaceChange :: "composer_env \<Rightarrow> jsstring \<Rightarrow> bool \<Rightarrow> selector \<Rightarrow> selector" where
  "onWorkspaceChange env workspaceId autoSelectDefaults s =
     (let s1 = resetSelections s in
      if workspaceId = [] then s1
      else loadWorkspaceData env workspaceId autoSelectDefaults
             (meanwhile env (requestWorkspaceData workspaceId s1)))"

text \<open>The custom-field values sent with the task; \<open>Inl\<close> is the \<open>TypeError\<close> of
  \<open>this.customFields.find\<close> on an answer that is not a list.\<close>

definition fieldValue :: "custom_field \<Rightarrow> jsstring \<Rightarrow> field_value" where
  "fieldValue f v =
     (if field_type f = js ''enum'' then TextValue v
      else if field_type f = js ''number'' then ParseFloat v
      else TextValue v)"

definition customFieldsData ::
  "composer_env \<Rightarrow> selector \<Rightarrow> jsstring + (jsstring \<times> field_value) list" where
  "customFieldsData env s =
     (if customFieldValues s = [] then Inr []
      else
        (case customFields s of
           ErrorObject _ \<Rightarrow> Inl (typeErrorMessage env)
         | Payload fs \<Rightarrow>
             Inr (concat (map (\<lambda>(fieldId, v).
                    case find (\<lambda>f. field_gid f = fieldId) fs of
                      None \<Rightarrow> []
                    | Some f \<Rightarrow> [(fieldId, fieldValue f v)]) (customFieldValues s)))))"

definition taskDataOf ::
  "composer_env \<Rightarrow> form \<Rightarrow> selector \<Rightarrow> asana_object \<Rightarrow> (jsstring \<times> field_value) list \<Rightarrow> task_data" where
  "taskDataOf env f s project cf =
     \<lparr>td_projectId = gid project,
      td_workspaceId = workspaceValue f,
      td_name = js_trim (taskNameInput f),
      td_htmlNotes = htmlNotes (i18n_t env (js ''from'') []) (emailData s) (includeLink f) (includeBody f),
      td_assignee = (if assigneeValue f \<noteq> [] then Some (assigneeValue f) else None),
      td_dueDate = (if dueDateValue f \<noteq> [] then Some (dueDateValue f) else None),
      td_tags = (if selectedTags s \<noteq> [] then Some (map gid (selectedTags s)) else None),
      td_customFields = (if cf \<noteq> [] then Some cf else None)\<rparr>"

text \<open>\<open>downloadAttachment\<close> never throws: any failure gives \<open>null\<close>.\<close>

definition downloadAttachment ::
  "composer_env \<Rightarrow> jsstring \<Rightarrow> selector \<Rightarrow> selector \<times> blob option" where
  "downloadAttachment env u s =
     (meanwhile env (emit (Fetched u) s),
      case fetchResult env (now s) u of Body b \<Rightarrow> Some b | _ \<Rightarrow> None)"

text \<open>\<open>uploadBlobToAsana\<close>: the result holds the message of the error it throws.\<close>

definition uploadBlobToAsana ::
  "composer_env \<Rightarrow> jsstring \<Rightarrow> blob \<Rightarrow> jsstring \<Rightarrow> selector \<Rightarrow> selector \<times> jsstring option" where
  "uploadBlobToAsana env taskId b filename s =
     (case readerError env (now s) of
        Some m \<Rightarrow> (meanwhile env s, Some m)
      | None \<Rightarrow>
          let msg = UPLOAD_ATTACHMENT_BASE64 taskId (blobToBase64 b)
                      (or_else (blob_type b) (js ''application/octet-stream'')) filename
          in (meanwhile env (emit (Sent msg) s),
              case uploadReply env (now s) msg of
                Rejects m \<Rightarrow> Some m
              | Resolves r \<Rightarrow> error_of r))"

text \<open>
  The steps after the creation are shared by \<open>createTask\<close> and \<open>addCommentToTask\<close>.
  \<open>taskGid\<close> reads the identifier of the task when an upload is started: \<open>task.gid\<close> of
  the answer in \<open>createTask\<close>, \<open>this.selectedExistingTask.gid\<close> in \<open>addCommentToTask\<close>,
  which throws a \<open>TypeError\<close> if the selection has been reset.

  The raw-message step: its \<open>showStatus\<close> is outside its \<open>try\<close>, which swallows what
  the upload throws.
\<close>

definition attachEmlStep ::
  "composer_env \<Rightarrow> form \<Rightarrow> (selector \<Rightarrow> jsstring option) \<Rightarrow> selector \<Rightarrow>
   selector \<times> jsstring option" where
  "attachEmlStep env f taskGid s =
     (if attachEml f \<and> emlDownloadUrl (emailData s) \<noteq> [] then
        andThen (showStatusLater env (i18n_t env (js ''attachingEmail'') []) StatusInfo s)
          (\<lambda>s1.
             let filename = emlFilename (subject (emailData s1));
                 d = downloadAttachment env (emlDownloadUrl (emailData s1)) s1
             in (case snd d of
                   Some emlBlob \<Rightarrow>
                     if blob_bytes emlBlob \<noteq> [] then
                       (case taskGid (fst d) of
                          Some taskId \<Rightarrow>
                            (fst (uploadBlobToAsana env taskId emlBlob filename (fst d)), None)
                        | None \<Rightarrow> (fst d, None))
                     else (fst d, None)
                 | None \<Rightarrow> (fst d, None)))
      else (s, None))"

text \<open>The body of the loop over the selected attachments, with its \<open>try\<close>.\<close>

definition uploadOne ::
  "composer_env \<Rightarrow> (selector \<Rightarrow> jsstring option) \<Rightarrow> selector \<Rightarrow> jsstring \<times> jsstring \<Rightarrow> selector" where
  "uploadOne env taskGid s att =
     (if fst att \<noteq> [] then
        let d = downloadAttachment env (fst att) s in
        (case snd d of
           Some b \<Rightarrow>
             (case taskGid (fst d) of
                Some taskId \<Rightarrow> fst (uploadBlobToAsana env taskId b (snd att) (fst d))
              | None \<Rightarrow> fst d)
         | None \<Rightarrow> fst d)
      else s)"

definition uploadSelected ::
  "composer_env \<Rightarrow> (selector \<Rightarrow> jsstring option) \<Rightarrow> (jsstring \<times> jsstring) list \<Rightarrow> selector \<Rightarrow>
   selector \<times> jsstring option" where
  "uploadSelected env taskGid selectedAttachments s =
     (if selectedAttachments \<noteq> [] then
        andThen (showStatusLater env (i18n_t env (js ''uploadingAttachments'')
                                        [decimal (length selectedAttachments)]) StatusInfo s)
          (\<lambda>s1. (foldl (uploadOne env taskGid) s1 selectedAttachments, None))
      else (s, None))"

text \<open>\<open>addGmailLabel\<close>: everything happens inside its own \<open>try\<close>; it waits after the
  click on the labels button.\<close>

definition addGmailLabel :: "composer_env \<Rightarrow> selector \<Rightarrow> selector" where
  "addGmailLabel env s =
     (if labelsBtn env \<and> \<not> labelError env then
        let s1 = meanwhile env (emit (Clicked LabelsButton) s) in
        (case find (\<lambda>item. str_includes (snd item) (js ''Asana'')) (enumerate 0 (labelItems env)) of
           Some item \<Rightarrow> emit (Clicked (LabelItem (fst item))) s1
         | None \<Rightarrow> emit (Clicked PageBody) s1)
      else s)"

definition labelStep :: "composer_env \<Rightarrow> form \<Rightarrow> selector \<Rightarrow> selector \<times> jsstring option" where
  "labelStep env f s =
     (if addLabel f then
        andThen (showStatusLater env (i18n_t env (js ''addingLabel'') []) StatusInfo s)
          (\<lambda>s1. (addGmailLabel env s1, None))
      else (s, None))"

definition postSteps ::
  "composer_env \<Rightarrow> form \<Rightarrow> (selector \<Rightarrow> jsstring option) \<Rightarrow> selector \<Rightarrow>
   selector \<times> jsstring option" where
  "postSteps env f taskGid s =
     andThen
       (andThen (attachEmlStep env f taskGid s) (uploadSelected env taskGid (checkedAttachments f)))
       (labelStep env f)"

definition taskUrl :: "jsstring \<Rightarrow> jsstring" where
  "taskUrl taskId = js ''https://app.asana.com/0/0/'' @ taskId"

text \<open>The end of a submission: the success status, the notification, the timer.\<close>

definition reportSuccess ::
  "composer_env \<Rightarrow> jsstring \<Rightarrow> jsstring \<Rightarrow> jsstring \<Rightarrow> jsstring \<Rightarrow> selector \<Rightarrow>
   selector \<times> jsstring option" where
  "reportSuccess env doneKey titleKey title taskId s =
     andThen
       (showStatusLater env
          (i18n_t env doneKey [] @ js '' <a href='' @ [34] @ taskUrl taskId @ [34] @
           js '' target='' @ [34] @ js ''_blank'' @ [34] @ js ''>'' @
           i18n_t env (js ''openInAsana'') [] @ js ''</a>'') StatusSuccess s)
       (\<lambda>s1.
          let s2 = emit (Sent (SHOW_NOTIFICATION (i18n_t env titleKey [])
                                 (title @ [10] @ i18n_t env (js ''clickToOpen'') [])
                                 (taskUrl taskId))) s1
          in (if autoClose (preferences s2) then emit CloseTimer s2 else s2, None))"

text \<open>
  The \<open>catch\<close> of a submission. \<open>submitFailed\<close> is its \<open>showStatus\<close>; after an \<open>await\<close>
  (\<open>caught\<close>) this throws when the modal is gone, and then the promise of the
  submission rejects and the state stays as it is.
\<close>

definition submitFailed :: "composer_env \<Rightarrow> jsstring \<Rightarrow> selector \<Rightarrow> selector" where
  "submitFailed env m s =
     showStatus (i18n_t env (js ''errorCreateTask'') [] @ js '' '' @ m) StatusError s"

definition caught :: "composer_env \<Rightarrow> jsstring \<Rightarrow> selector \<Rightarrow> selector" where
  "caught env m s = (if modal s then submitFailed env m s else s)"

text \<open>What follows the creation call, inside the \<open>try\<close> of the submission.\<close>

definition afterCreation :: "composer_env \<Rightarrow> selector \<times> jsstring option \<Rightarrow> selector" where
  "afterCreation env r = (case snd r of Some m \<Rightarrow> caught env m (fst r) | None \<Rightarrow> fst r)"

definition addCommentToTask :: "composer_env \<Rightarrow> form \<Rightarrow> selector \<Rightarrow> selector" where
  "addCommentToTask env f s =
     (case selectedExistingTask s of
        None \<Rightarrow> showStatus (i18n_t env (js ''noTasksFound'') []) StatusError s
      | Some task \<Rightarrow>
          let s1 = showStatus (i18n_t env (js ''addingComment'') []) StatusInfo s;
              html = htmlComment (emailData s) (includeLink f) (includeBody f);
              s2 = meanwhile env (emit (Sent (ADD_COMMENT (gid task) [] html)) s1)
          in (case addCommentReply env (gid task) html of
                Rejects m \<Rightarrow> caught env m s2
              | Resolves r \<Rightarrow>
                  (case error_of r of
                     Some m \<Rightarrow> caught env m s2
                   | None \<Rightarrow>
                       afterCreation env
                         (andThen
                            (postSteps env f (\<lambda>x. map_option gid (selectedExistingTask x)) s2)
                            (\<lambda>s3. case selectedExistingTask s3 of
                                    None \<Rightarrow> (s3, Some (typeErrorMessage env))
                                  | Some chosen \<Rightarrow>
                                      reportSuccess env (js ''commentAdded'')
                                        (js ''notificationCommentTitle'')
                                        (obj_name chosen) (gid chosen) s3)))))"

definition createTask :: "composer_env \<Rightarrow> form \<Rightarrow> selector \<Rightarrow> selector" where
  "createTask env f s =
     (if mode s = Comment then addCommentToTask env f s
      else
        let taskName = js_trim (taskNameInput f) in
        if taskName = [] then showStatus (i18n_t env (js ''errorEnterTaskName'') []) StatusError s
        else
          (case selectedProject s of
             None \<Rightarrow> showStatus (i18n_t env (js ''errorSelectProject'') []) StatusError s
           | Some project \<Rightarrow>
               let s1 = showStatus (i18n_t env (js ''creatingTask'') []) StatusInfo s in
               (case customFieldsData env s1 of
                  Inl m \<Rightarrow> submitFailed env m s1
                | Inr cf \<Rightarrow>
                    let td = taskDataOf env f s1 project cf;
                        s2 = meanwhile env (emit (Sent (CREATE_TASK td)) s1)
                    in (case createTaskReply env td of
                          Rejects m \<Rightarrow> caught env m s2
                        | Resolves r \<Rightarrow>
                            (case error_of r of
                               Some m \<Rightarrow> caught env m s2
                             | None \<Rightarrow>
                                 let taskId = (case r of Payload task \<Rightarrow> gid task
                                               | ErrorObject _ \<Rightarrow> js ''undefined'')
                                 in afterCreation env
                                      (andThen (postSteps env f (\<lambda>x. Some taskId) s2)
                                         (reportSuccess env (js ''taskCreated'')
                                            (js ''notificationTitle'') taskName taskId)))))))"

text \<open>
  The primary call of a submission succeeds: the draft passes the local validation and
  the gateway answers the \<open>CREATE_TASK\<close> message (\<open>ADD_COMMENT\<close> in comment mode) with a
  payload; \<open>taskId\<close> is the identifier of the created or commented task.
\<close>

definition primary_call_succeeds :: "composer_env \<Rightarrow> form \<Rightarrow> selector \<Rightarrow> jsstring \<Rightarrow> bool" where
  "primary_call_succeeds env f s taskId =
     (case mode s of
        Create \<Rightarrow>
          js_trim (taskNameInput f) \<noteq> [] \<and>
          (case selectedProject s of
             None \<Rightarrow> False
           | Some project \<Rightarrow>
               (case customFieldsData env s of
                  Inl _ \<Rightarrow> False
                | Inr cf \<Rightarrow>
                    (case createTaskReply env (taskDataOf env f s project cf) of
                       Resolves (Payload task) \<Rightarrow> taskId = gid task
                     | _ \<Rightarrow> False)))
      | Comment \<Rightarrow>
          (case selectedExistingTask s of
             None \<Rightarrow> False
           | Some task \<Rightarrow>
               (case addCommentReply env (gid task)
                       (htmlComment (emailData s) (includeLink f) (includeBody f)) of
                  Resolves (Payload _) \<Rightarrow> taskId = gid task
                | _ \<Rightarrow> False)))"

text \<open>
  Nothing disturbs the selections: while a function of the composer is suspended,
  nothing else changes the selections, the preferences or the modal.
\<close>

definition undisturbed :: "composer_env \<Rightarrow> bool" where
  "undisturbed env =
     (\<forall>s. selectedProject (meanwhile env s) = selectedProject s \<and>
          selectedTags (meanwhile env s) = selectedTags s \<and>
          selectedExistingTask (meanwhile env s) = selectedExistingTask s \<and>
          customFieldValues (meanwhile env s) = customFieldValues s \<and>
          preferences (meanwhile env s) = preferences s \<and>
          modal (meanwhile env s) = modal s)"

text \<open>
  The composer stays open: while a submission is suspended, the modal is not closed,
  the email and the chosen task are not replaced, and the trace only grows.
\<close>

definition stays_open :: "composer_env \<Rightarrow> bool" where
  "stays_open env =
     (\<forall>s. modal (meanwhile env s) = modal s \<and>
          emailData (meanwhile env s) = emailData s \<and>
          selectedExistingTask (meanwhile env s) = selectedExistingTask s \<and>
          set (events s) \<subseteq> set (events (meanwhile env s)))"

text \<open>
  A later state of a submission carries on from an earlier one: the modal, the email
  and the chosen task are the same, and every event of the earlier trace is in the
  later one.
\<close>

definition carries_on :: "selector \<Rightarrow> selector \<Rightarrow> bool" where
  "carries_on s s' =
     (modal s' = modal s \<and> emailData s' = emailData s \<and>
      selectedExistingTask s' = selectedExistingTask s \<and>
      set (events s) \<subseteq> set (events s'))"

text \<open>The message that uploads a file to a task.\<close>

definition upload_message :: "jsstring \<Rightarrow> blob \<Rightarrow> jsstring \<Rightarrow> rpc_message" where
  "upload_message taskId b filename =
     UPLOAD_ATTACHMENT_BASE64 taskId (blobToBase64 b)
       (or_else (blob_type b) (js ''application/octet-stream'')) filename"

section \<open>Task composer: example sessions\<close>

definition no_preferences :: preferences where
  "no_preferences =
     \<lparr>defaultWorkspace = [], defaultProject = [], lastWorkspaceId = [], lastProjectId = [],
      autoClose = False\<rparr>"

text \<open>The composer as \<open>open\<close> leaves it before a workspace is chosen.\<close>

definition opened :: "email_data \<Rightarrow> selector" where
  "opened e =
     \<lparr>modal = True,
      emailData = e,
      user = \<lparr>gid = js ''U1'', obj_name = js ''Ann''\<rparr>,
      workspaces = [\<lparr>gid = js ''W1'', obj_name = js ''One''\<rparr>, \<lparr>gid = js ''W2'', obj_name = js ''Two''\<rparr>],
      projects = Payload [], users = Payload [], tags = Payload [],
      preferences = no_preferences,
      selectedProject = None, selectedTags = [], selectedExistingTask = None,
      customFields = Payload [], customFieldValues = [],
      mode = Create, status = None, events = []\<rparr>"

definition project_P1 :: asana_object where
  "project_P1 = \<lparr>gid = js ''P1'', obj_name = js ''Roadmap''\<rparr>"

definition project_P1_of_W2 :: asana_object where
  "project_P1_of_W2 = \<lparr>gid = js ''P1'', obj_name = js ''Billing''\<rparr>"

text \<open>
  A gateway that answers every request. Workspace \<open>W1\<close> has the project \<open>P1\<close>; every
  other workspace has a project with the same identifier. The first download fails,
  the others return a one-byte file. Nothing else happens while a function of the
  composer is suspended.
\<close>

definition answering_env :: composer_env where
  "answering_env =
     \<lparr>i18n_t = (\<lambda>key subs. key),
      typeErrorMessage = js ''TypeError'',
      getProjectsReply = (\<lambda>w. Resolves (Payload [if w = js ''W1'' then project_P1 else project_P1_of_W2])),
      getUsersReply = (\<lambda>w. Resolves (Payload [])),
      getTagsReply = (\<lambda>w. Resolves (Payload [])),
      customFieldsReply = (\<lambda>n p. Resolves (Payload [])),
      savePreferencesReply = (\<lambda>n p. Resolves (Payload ())),
      createTaskReply = (\<lambda>td. Resolves (Payload \<lparr>gid = js ''T1'', obj_name = td_name td\<rparr>)),
      addCommentReply = (\<lambda>taskId html. Resolves (Payload ())),
      uploadReply = (\<lambda>n m. Resolves (Payload ())),
      fetchResult = (\<lambda>n u. if u = js ''https://mail.google.com/a'' then NetworkError
                            else Body \<lparr>blob_bytes = [0x41], blob_type = js ''text/plain''\<rparr>),
      readerError = (\<lambda>n. None),
      labelsBtn = False,
      labelItems = [],
      labelError = False,
      meanwhile = (\<lambda>s. s)\<rparr>"

text \<open>The session of the workspace-switch scenario.\<close>

definition in_W1_with_P1 :: selector where
  "in_W1_with_P1 =
     selectProject answering_env project_P1
       (onWorkspaceChange answering_env (js ''W1'') False (opened invoice_email))"

definition switched_to_W2 :: selector where
  "switched_to_W2 = onWorkspaceChange answering_env (js ''W2'') False in_W1_with_P1"

text \<open>The drafts of the submission scenarios.\<close>

definition form_X :: form where
  "form_X =
     \<lparr>taskNameInput = js ''X'', workspaceValue = js ''W1'', assigneeValue = [], dueDateValue = [],
      includeBody = True, includeLink = True, attachEml = False, addLabel = False,
      checkedAttachments = []\<rparr>"

definition form_two_attachments :: form where
  "form_two_attachments =
     \<lparr>taskNameInput = js ''Invoice #42'', workspaceValue = js ''W1'', assigneeValue = [],
      dueDateValue = [], includeBody = True, includeLink = True, attachEml = False,
      addLabel = True,
      checkedAttachments =
        [(js ''https://mail.google.com/a'', js ''a.pdf''),
         (js ''https://mail.google.com/b'', js ''b.pdf'')]\<rparr>"


text \<open>
  Two changes of the workspace that overlap. The composer opens for a user whose last
  project was \<open>P1\<close> and asks for the data of the workspace \<open>W1\<close>; before they arrive the
  user chooses \<open>W2\<close>, which has no project; the data of \<open>W1\<close> arrive while the change to
  \<open>W2\<close> waits for its own.
\<close>

definition returning_user :: selector where
  "returning_user = (opened invoice_email)\<lparr>preferences := no_preferences\<lparr>lastProjectId := js ''P1''\<rparr>\<rparr>"

definition sparse_env :: composer_env where
  "sparse_env =
     answering_env
       \<lparr>getProjectsReply := (\<lambda>w. Resolves (Payload (if w = js ''W1'' then [project_P1] else [])))\<rparr>"

definition overlapping_env :: composer_env where
  "overlapping_env =
     sparse_env
       \<lparr>meanwhile := (\<lambda>s. if events s \<noteq> [] \<and> last (events s) = Sent (GET_TAGS (js ''W2''))
                          then loadWorkspaceData sparse_env (js ''W1'') True s else s)\<rparr>"

definition overlapped :: selector where
  "overlapped =
     onWorkspaceChange overlapping_env (js ''W2'') False
       (requestWorkspaceData (js ''W1'') (resetSelections returning_user))"

section \<open>API gateway\<close>

text \<open>
  The gateway's values are of an arbitrary type \<open>'v\<close>. An asynchronous call settles: it
  throws an error with a message, or it returns.
\<close>

datatype 'a settled = Throws jsstring | Returns 'a

text \<open>
  \<open>message.type\<close>: a string, or another value, given by the text a template literal
  prints for it (\<open>undefined\<close> when the message has no \<open>type\<close>).
\<close>

datatype type_field = TypeString jsstring | TypeOther jsstring

definition type_text :: "type_field \<Rightarrow> jsstring" where
  "type_text ty = (case ty of TypeString s \<Rightarrow> s | TypeOther s \<Rightarrow> s)"

record 'v message =
  msg_type :: type_field
  msg_workspaceId :: 'v
  msg_projectId :: 'v
  msg_taskId :: 'v
  msg_taskData :: 'v
  msg_attachmentUrl :: 'v
  msg_filename :: 'v
  msg_base64Data :: "jsstring option"
  msg_mimeType :: jsstring
  msg_query :: 'v
  msg_text :: 'v
  msg_htmlText :: 'v
  msg_title :: 'v
  msg_message :: 'v
  msg_url :: 'v
  msg_preferences :: 'v

text \<open>What arrives at the listener: an object with these fields, or \<open>null\<close> or
  \<open>undefined\<close>, on which \<open>message.type\<close> raises a \<open>TypeError\<close> with the given text.\<close>

datatype 'v incoming = NoObject jsstring | Message "'v message"

text \<open>What a handler returns, and what the listener passes to \<open>sendResponse\<close>.\<close>

datatype 'v result =
    Value 'v
  | Text jsstring
  | SuccessTrue
  | EmptyObject
  | LoggedIn 'v
  | NotLoggedIn jsstring bool

datatype 'v reply = Plain "'v result" | ErrorReply jsstring

text \<open>
  The functions of the REST client and of the browser that the handlers call, by their
  outcome. \<open>storedToken\<close> says that a token is stored; \<open>fetchMe\<close> is
  \<open>asanaFetch('/users/me')\<close>; \<open>storageGet\<close> gives \<open>data.preferences\<close> when it is truthy;
  \<open>atobError\<close> is the message of the exception \<open>atob\<close> throws; \<open>toText\<close> is the text of a
  value in a template literal.
\<close>

record 'v gateway_env =
  storedToken :: bool
  fetchMe :: "'v settled"
  getWorkspaces :: "'v settled"
  getProjects :: "'v \<Rightarrow> 'v settled"
  getUsers :: "'v \<Rightarrow> 'v settled"
  getTags :: "'v \<Rightarrow> 'v settled"
  createTaskCall :: "'v \<Rightarrow> 'v settled"
  downloadGmailAttachment :: "'v \<Rightarrow> blob settled"
  uploadAttachment :: "'v \<Rightarrow> blob \<Rightarrow> 'v \<Rightarrow> 'v settled"
  searchTasks :: "'v \<Rightarrow> 'v \<Rightarrow> 'v settled"
  addComment :: "'v \<Rightarrow> 'v \<Rightarrow> 'v \<Rightarrow> 'v settled"
  getProjectCustomFields :: "'v \<Rightarrow> 'v settled"
  getTask :: "'v \<Rightarrow> 'v settled"
  showNotification :: "'v \<Rightarrow> 'v \<Rightarrow> 'v \<Rightarrow> unit settled"
  storageSet :: "'v \<Rightarrow> unit settled"
  storageGet :: "'v option settled"
  atobError :: jsstring
  toText :: "'v \<Rightarrow> jsstring"

text \<open>\<open>checkSession\<close> catches everything it calls.\<close>

definition checkSession :: "'v gateway_env \<Rightarrow> 'v result" where
  "checkSession env =
     (if \<not> storedToken env then NotLoggedIn (js ''Token non configur'' @ [233]) True
      else (case fetchMe env of
              Returns u \<Rightarrow> LoggedIn u
            | Throws m \<Rightarrow> NotLoggedIn m False))"

definition getTaskUrl :: "'v gateway_env \<Rightarrow> 'v \<Rightarrow> jsstring" where
  "getTaskUrl env taskId = js ''https://app.asana.com/0/0/'' @ toText env taskId"

definition returning :: "'v settled \<Rightarrow> 'v result settled" where
  "returning c = (case c of Throws m \<Rightarrow> Throws m | Returns v \<Rightarrow> Returns (Value v))"

text \<open>The accepted message types, in the order of the \<open>switch\<close>.\<close>

definition known_types :: "jsstring list" where
  "known_types =
     [js ''CHECK_SESSION'', js ''GET_WORKSPACES'', js ''GET_PROJECTS'', js ''GET_USERS'',
      js ''GET_TAGS'', js ''CREATE_TASK'', js ''UPLOAD_ATTACHMENT'',
      js ''UPLOAD_ATTACHMENT_BASE64'', js ''GET_TASK_URL'', js ''SEARCH_TASKS'',
      js ''ADD_COMMENT'', js ''GET_PROJECT_CUSTOM_FIELDS'', js ''GET_TASK'',
      js ''SHOW_NOTIFICATION'', js ''SAVE_PREFERENCES'', js ''GET_PREFERENCES'']"

definition accepted :: "type_field \<Rightarrow> bool" where
  "accepted ty = (case ty of TypeString s \<Rightarrow> s \<in> set known_types | TypeOther _ \<Rightarrow> False)"

definition unknownType :: "type_field \<Rightarrow> 'a settled" where
  "unknownType ty = Throws (js ''Unknown message type: '' @ type_text ty)"

text \<open>\<open>handleMessage\<close>: an \<open>async\<close> function, so everything it throws is a rejection of
  its promise.\<close>

definition handleTyped :: "'v gateway_env \<Rightarrow> 'v message \<Rightarrow> jsstring \<Rightarrow> 'v result settled" where
  "handleTyped env m ty =
     (if ty = js ''CHECK_SESSION'' then Returns (checkSession env)
      else if ty = js ''GET_WORKSPACES'' then returning (getWorkspaces env)
      else if ty = js ''GET_PROJECTS'' then returning (getProjects env (msg_workspaceId m))
      else if ty = js ''GET_USERS'' then returning (getUsers env (msg_workspaceId m))
      else if ty = js ''GET_TAGS'' then returning (getTags env (msg_workspaceId m))
      else if ty = js ''CREATE_TASK'' then returning (createTaskCall env (msg_taskData m))
      else if ty = js ''UPLOAD_ATTACHMENT'' then
        (case downloadGmailAttachment env (msg_attachmentUrl m) of
           Throws e \<Rightarrow> Throws e
         | Returns b \<Rightarrow> returning (uploadAttachment env (msg_taskId m) b (msg_filename m)))
      else if ty = js ''UPLOAD_ATTACHMENT_BASE64'' then
        (case decodeBase64Data (msg_base64Data m) of
           None \<Rightarrow> Throws (atobError env)
         | Some byteArray \<Rightarrow>
             returning (uploadAttachment env (msg_taskId m)
                          \<lparr>blob_bytes = byteArray, blob_type = msg_mimeType m\<rparr> (msg_filename m)))
      else if ty = js ''GET_TASK_URL'' then Returns (Text (getTaskUrl env (msg_taskId m)))
      else if ty = js ''SEARCH_TASKS'' then
        returning (searchTasks env (msg_workspaceId m) (msg_query m))
      else if ty = js ''ADD_COMMENT'' then
        returning (addComment env (msg_taskId m) (msg_text m) (msg_htmlText m))
      else if ty = js ''GET_PROJECT_CUSTOM_FIELDS'' then
        returning (getProjectCustomFields env (msg_projectId m))
      else if ty = js ''GET_TASK'' then returning (getTask env (msg_taskId m))
      else if ty = js ''SHOW_NOTIFICATION'' then
        (case showNotification env (msg_title m) (msg_message m) (msg_url m) of
           Throws e \<Rightarrow> Throws e
         | Returns _ \<Rightarrow> Returns SuccessTrue)
      else if ty = js ''SAVE_PREFERENCES'' then
        (case storageSet env (msg_preferences m) of
           Throws e \<Rightarrow> Throws e
         | Returns _ \<Rightarrow> Returns SuccessTrue)
      else if ty = js ''GET_PREFERENCES'' then
        (case storageGet env of
           Throws e \<Rightarrow> Throws e
         | Returns None \<Rightarrow> Returns EmptyObject
         | Returns (Some p) \<Rightarrow> Returns (Value p))
      else unknownType (TypeString ty))"

definition handleMessage :: "'v gateway_env \<Rightarrow> 'v incoming \<Rightarrow> 'v result settled" where
  "handleMessage env message =
     (case message of
        NoObject e \<Rightarrow> Throws e
      | Message m \<Rightarrow>
          (case msg_type m of
             TypeString ty \<Rightarrow> handleTyped env m ty
           | TypeOther _ \<Rightarrow> unknownType (msg_type m)))"

text \<open>
  The listener: \<open>handleMessage(message).then(sendResponse).catch(error =>
  sendResponse({error: error.message}))\<close>. The value is what \<open>sendResponse\<close> receives;
  \<open>Throws\<close> would be an exception that leaves the listener.
\<close>

definition onMessage :: "'v gateway_env \<Rightarrow> 'v incoming \<Rightarrow> 'v reply settled" where
  "onMessage env message =
     (case handleMessage env message of
        Returns r \<Rightarrow> Returns (Plain r)
      | Throws e \<Rightarrow> Returns (ErrorReply e))"

text \<open>A gateway without a token, and a message of a type outside the accepted set.\<close>

definition tokenless_gateway :: "jsstring gateway_env" where
  "tokenless_gateway =
     \<lparr>storedToken = False,
      fetchMe = Throws (js ''Token Asana non configur'' @ [233]),
      getWorkspaces = Throws (js ''Token Asana non configur'' @ [233]),
      getProjects = (\<lambda>w. Throws (js ''Token Asana non configur'' @ [233])),
      getUsers = (\<lambda>w. Throws (js ''Token Asana non configur'' @ [233])),
      getTags = (\<lambda>w. Throws (js ''Token Asana non configur'' @ [233])),
      createTaskCall = (\<lambda>d. Throws (js ''Token Asana non configur'' @ [233])),
      downloadGmailAttachment = (\<lambda>u. Throws (js ''Failed to download attachment: 401'')),
      uploadAttachment = (\<lambda>i b n. Throws (js ''Token Asana non configur'' @ [233])),
      searchTasks = (\<lambda>w q. Throws (js ''Token Asana non configur'' @ [233])),
      addComment = (\<lambda>i x h. Throws (js ''Token Asana non configur'' @ [233])),
      getProjectCustomFields = (\<lambda>p. Throws (js ''Token Asana non configur'' @ [233])),
      getTask = (\<lambda>i. Throws (js ''Token Asana non configur'' @ [233])),
      showNotification = (\<lambda>a b c. Returns ()),
      storageSet = (\<lambda>p. Returns ()),
      storageGet = Returns None,
      atobError = js ''Failed to execute atob'',
      toText = (\<lambda>v. v)\<rparr>"

definition delete_request :: "jsstring incoming" where
  "delete_request =
     Message
       \<lparr>msg_type = TypeString (js ''DELETE_TASK''),
        msg_workspaceId = [], msg_projectId = [], msg_taskId = js ''T9'', msg_taskData = [],
        msg_attachmentUrl = [], msg_filename = [], msg_base64Data = None, msg_mimeType = [],
        msg_query = [], msg_text = [], msg_htmlText = [], msg_title = [], msg_message = [],
        msg_url = [], msg_preferences = []\<rparr>"

section \<open>Injector: the host page\<close>

text \<open>
  The injector reads and changes the host page's tree. An element has an identity, its
  classes and its attributes (its tag), and child nodes; the injector never changes the
  tag of an element. An element is handled through its entry: its tag and the tags of
  its ancestors, the nearest first.
\<close>

type_synonym tag = "nat \<times> jsstring list \<times> (jsstring \<times> jsstring) list"

definition tag_id :: "tag \<Rightarrow> nat" where
  "tag_id t = fst t"

definition tag_classes :: "tag \<Rightarrow> jsstring list" where
  "tag_classes t = fst (snd t)"

definition tag_attrs :: "tag \<Rightarrow> (jsstring \<times> jsstring) list" where
  "tag_attrs t = snd (snd t)"

datatype dom_node = Element tag "dom_node list" | TextNode jsstring

type_synonym entry = "tag list \<times> tag"

text \<open>The elements of a tree in document order.\<close>

fun walk :: "tag list \<Rightarrow> dom_node \<Rightarrow> entry list" where
  "walk ancs (TextNode s) = []"
| "walk ancs (Element t ch) = (ancs, t) # concat (map (walk (t # ancs)) ch)"

definition entries :: "dom_node \<Rightarrow> entry list" where
  "entries d = walk [] d"

text \<open>
  Selectors: a list of alternatives, each a chain of compound selectors joined by the
  descendant combinator, each compound a list of class and attribute tests.
\<close>

datatype simple_selector = Class jsstring | HasAttr jsstring | AttrIs jsstring jsstring

type_synonym css_selector = "simple_selector list list list"

fun matches_simple :: "simple_selector \<Rightarrow> tag \<Rightarrow> bool" where
  "matches_simple (Class c) t = (c \<in> set (tag_classes t))"
| "matches_simple (HasAttr a) t = (map_of (tag_attrs t) a \<noteq> None)"
| "matches_simple (AttrIs a v) t = (map_of (tag_attrs t) a = Some v)"

definition matches_compound :: "simple_selector list \<Rightarrow> tag \<Rightarrow> bool" where
  "matches_compound c t = list_all (\<lambda>s. matches_simple s t) c"

fun ancestors_match :: "simple_selector list list \<Rightarrow> tag list \<Rightarrow> bool" where
  "ancestors_match [] ancs = True"
| "ancestors_match (c # cs) [] = False"
| "ancestors_match (c # cs) (a # ancs) =
     (if matches_compound c a then ancestors_match cs ancs else ancestors_match (c # cs) ancs)"

definition matches_chain :: "simple_selector list list \<Rightarrow> entry \<Rightarrow> bool" where
  "matches_chain chain e =
     (case rev chain of
        [] \<Rightarrow> False
      | c # cs \<Rightarrow> matches_compound c (snd e) \<and> ancestors_match cs (fst e))"

definition matches :: "css_selector \<Rightarrow> entry \<Rightarrow> bool" where
  "matches sel e = list_ex (\<lambda>chain. matches_chain chain e) sel"

definition querySelectorAll :: "css_selector \<Rightarrow> dom_node \<Rightarrow> entry list" where
  "querySelectorAll sel d = filter (matches sel) (entries d)"

text \<open>\<open>element.querySelector(sel)\<close>, the element given by its identity: the first
  element in document order that has it among its ancestors and matches.\<close>

definition inside :: "nat \<Rightarrow> entry \<Rightarrow> bool" where
  "inside c e = (c \<in> set (map tag_id (fst e)))"

definition querySelectorIn :: "nat \<Rightarrow> css_selector \<Rightarrow> dom_node \<Rightarrow> entry option" where
  "querySelectorIn c sel d = find (\<lambda>e. inside c e \<and> matches sel e) (entries d)"

fun closest_from :: "css_selector \<Rightarrow> tag list \<Rightarrow> tag \<Rightarrow> entry option" where
  "closest_from sel [] t = (if matches sel ([], t) then Some ([], t) else None)"
| "closest_from sel (a # ancs) t =
     (if matches sel (a # ancs, t) then Some (a # ancs, t) else closest_from sel ancs a)"

definition closest :: "css_selector \<Rightarrow> entry \<Rightarrow> entry option" where
  "closest sel e = closest_from sel (fst e) (snd e)"

definition parentElement :: "entry \<Rightarrow> entry option" where
  "parentElement e = (case fst e of [] \<Rightarrow> None | a # ancs \<Rightarrow> Some (ancs, a))"

text \<open>\<open>a || b\<close> on elements that may be \<open>null\<close>.\<close>

definition or_element :: "'a option \<Rightarrow> 'a option \<Rightarrow> 'a option" where
  "or_element a b = (case a of Some x \<Rightarrow> Some x | None \<Rightarrow> b)"

text \<open>The child nodes of the element with a given identity.\<close>

fun childNodes :: "nat \<Rightarrow> dom_node \<Rightarrow> dom_node list option" where
  "childNodes c (TextNode s) = None"
| "childNodes c (Element t ch) =
     (if tag_id t = c then Some ch
      else foldr (\<lambda>n r. or_element (childNodes c n) r) ch None)"

text \<open>
  The changes: \<open>parent.appendChild(new)\<close>, \<open>parent.insertBefore(new, parent.firstChild)\<close>
  and \<open>ref.parentNode.insertBefore(new, ref)\<close>, the elements given by their identity.
\<close>

fun appendChild :: "nat \<Rightarrow> dom_node \<Rightarrow> dom_node \<Rightarrow> dom_node" where
  "appendChild p new (TextNode s) = TextNode s"
| "appendChild p new (Element t ch) =
     (if tag_id t = p then Element t (ch @ [new])
      else Element t (map (appendChild p new) ch))"

fun insertFirst :: "nat \<Rightarrow> dom_node \<Rightarrow> dom_node \<Rightarrow> dom_node" where
  "insertFirst p new (TextNode s) = TextNode s"
| "insertFirst p new (Element t ch) =
     (if tag_id t = p then Element t (new # ch)
      else Element t (map (insertFirst p new) ch))"

definition is_element :: "nat \<Rightarrow> dom_node \<Rightarrow> bool" where
  "is_element r n = (case n of Element t _ \<Rightarrow> tag_id t = r | TextNode _ \<Rightarrow> False)"

fun place_before :: "nat \<Rightarrow> dom_node \<Rightarrow> dom_node list \<Rightarrow> dom_node list" where
  "place_before r new [] = []"
| "place_before r new (n # ns) =
     (if is_element r n then new # n # ns else n # place_before r new ns)"

fun insertBefore :: "nat \<Rightarrow> dom_node \<Rightarrow> dom_node \<Rightarrow> dom_node" where
  "insertBefore r new (TextNode s) = TextNode s"
| "insertBefore r new (Element t ch) =
     (if list_ex (is_element r) ch then Element t (place_before r new ch)
      else Element t (map (insertBefore r new) ch))"

text \<open>An identity that no element of the tree has.\<close>

definition fresh_id :: "dom_node \<Rightarrow> nat" where
  "fresh_id d = Suc (foldr max (map (\<lambda>e. tag_id (snd e)) (entries d)) 0)"

section \<open>Injector: triggers\<close>

text \<open>
  \<open>createAsanaButton\<close> and \<open>createMiniAsanaButton\<close>; \<open>label\<close> is
  \<open>t('createAsanaTask')\<close>, and the new elements take the identities \<open>n\<close>, \<open>n + 1\<close>, \<open>n + 2\<close>.
\<close>

definition createAsanaButton :: "jsstring \<Rightarrow> nat \<Rightarrow> dom_node" where
  "createAsanaButton label n =
     Element (n, [js ''asana-gmail-btn'', js ''T-I'', js ''J-J5-Ji''],
              [(js ''role'', js ''button''), (js ''tabindex'', js ''0''),
               (js ''data-tooltip'', label), (js ''aria-label'', label)])
       [TextNode (js '' ''),
        Element (n + 1, [js ''asana-gmail-btn-icon''], []) [],
        TextNode (js '' ''),
        Element (n + 2, [js ''asana-gmail-btn-text''], []) [TextNode (js ''Asana'')],
        TextNode (js '' '')]"

definition createMiniAsanaButton :: "jsstring \<Rightarrow> nat \<Rightarrow> dom_node" where
  "createMiniAsanaButton label n =
     Element (n, [js ''asana-gmail-btn-mini''],
              [(js ''role'', js ''button''), (js ''tabindex'', js ''0''),
               (js ''data-tooltip'', label), (js ''aria-label'', label), (js ''title'', label)])
       [Element (n + 1, [js ''asana-mini-icon''], []) [TextNode (js ''A'')]]"

definition sel_class :: "string \<Rightarrow> css_selector" where
  "sel_class c = [[[Class (js c)]]]"

definition sel_classes :: "string list \<Rightarrow> css_selector" where
  "sel_classes cs = [[map (\<lambda>c. Class (js c)) cs]]"

definition sel_attr_is :: "string \<Rightarrow> string \<Rightarrow> css_selector" where
  "sel_attr_is a v = [[[AttrIs (js a) (js v)]]]"

definition sel_within :: "string \<Rightarrow> string \<Rightarrow> simple_selector list list" where
  "sel_within outer inner = [[Class (js outer)], [Class (js inner)]]"

text \<open>The page and the \<open>WeakSet\<close> \<open>injectedButtons\<close>, which holds identities.\<close>

record page =
  dom :: dom_node
  injectedButtons :: "nat list"


section \<open>Injector: the injection pass\<close>

text \<open>The body of \<open>toolbars.forEach\<close> in \<open>injectToolbarButtons\<close>.\<close>

definition visitToolbar :: "jsstring \<Rightarrow> page \<Rightarrow> nat \<Rightarrow> page" where
  "visitToolbar label st toolbar =
     (if toolbar \<in> set (injectedButtons st) then st
      else if querySelectorIn toolbar (sel_class ''asana-gmail-btn'') (dom st) \<noteq> None then st
      else
        (case querySelectorIn toolbar (sel_class ''T-I'') (dom st) of
           Some insertPoint \<Rightarrow>
             st\<lparr>dom := insertBefore (tag_id (snd insertPoint))
                         (createAsanaButton label (fresh_id (dom st))) (dom st),
                injectedButtons := injectedButtons st @ [toolbar]\<rparr>
         | None \<Rightarrow>
             (case childNodes toolbar (dom st) of
                Some (firstChild # _) \<Rightarrow>
                  st\<lparr>dom := insertFirst toolbar
                              (createAsanaButton label (fresh_id (dom st))) (dom st),
                     injectedButtons := injectedButtons st @ [toolbar]\<rparr>
              | _ \<Rightarrow> st)))"

definition toolbarSelectors :: "css_selector list" where
  "toolbarSelectors = [sel_class ''ade'', sel_class ''G-atb'', sel_attr_is ''gh'' ''mtb'']"

definition entry_ids :: "entry list \<Rightarrow> nat list" where
  "entry_ids es = map (\<lambda>e. tag_id (snd e)) es"

definition injectToolbar :: "jsstring \<Rightarrow> css_selector \<Rightarrow> page \<Rightarrow> page" where
  "injectToolbar label sel st =
     foldl (visitToolbar label) st (entry_ids (querySelectorAll sel (dom st)))"

definition injectToolbarButtons :: "jsstring \<Rightarrow> page \<Rightarrow> page" where
  "injectToolbarButtons label st = foldl (\<lambda>s sel. injectToolbar label sel s) st toolbarSelectors"

text \<open>Appending the mini trigger to an area and marking the container.\<close>

definition addMiniButton :: "jsstring \<Rightarrow> page \<Rightarrow> nat \<Rightarrow> entry \<Rightarrow> page" where
  "addMiniButton label st mc area =
     st\<lparr>dom := appendChild (tag_id (snd area))
                 (createMiniAsanaButton label (fresh_id (dom st))) (dom st),
        injectedButtons := injectedButtons st @ [mc]\<rparr>"

definition parent_of :: "entry option \<Rightarrow> entry option" where
  "parent_of e = (case e of None \<Rightarrow> None | Some x \<Rightarrow> parentElement x)"

text \<open>Strategy 1: the body of \<open>expandedMessages.forEach\<close>.\<close>

definition headerArea :: "nat \<Rightarrow> dom_node \<Rightarrow> entry option" where
  "headerArea mc d =
     or_element (querySelectorIn mc (sel_classes [''gE'', ''iv'', ''gt'']) d)
       (or_element (querySelectorIn mc (sel_class ''gH'') d)
          (querySelectorIn mc (sel_class ''h7'') d))"

definition actionsArea :: "nat \<Rightarrow> nat \<Rightarrow> dom_node \<Rightarrow> entry option" where
  "actionsArea mc header d =
     (let area =
        or_element (querySelectorIn header (sel_class ''bGI'') d)
          (or_element (querySelectorIn header (sel_classes [''adf'', ''ads'']) d)
             (or_element (querySelectorIn mc (sel_class ''amn'') d)
                (or_element (parent_of (querySelectorIn mc (sel_attr_is ''data-tooltip'' ''More'') d))
                   (parent_of (querySelectorIn mc (sel_attr_is ''aria-label'' ''More'') d)))))
      in case area of
           Some a \<Rightarrow> Some a
         | None \<Rightarrow>
             parent_of
               (or_element (querySelectorIn header (sel_class ''g3'') d)
                  (querySelectorIn header [sel_within ''gH'' ''gK''] d)))"

definition visitExpanded :: "jsstring \<Rightarrow> page \<Rightarrow> nat \<Rightarrow> page" where
  "visitExpanded label st mc =
     (if mc \<in> set (injectedButtons st) then st
      else if querySelectorIn mc (sel_class ''asana-gmail-btn-mini'') (dom st) \<noteq> None then st
      else
        (case headerArea mc (dom st) of
           None \<Rightarrow> st
         | Some header \<Rightarrow>
             (case actionsArea mc (tag_id (snd header)) (dom st) of
                Some area \<Rightarrow> addMiniButton label st mc area
              | None \<Rightarrow> st)))"

text \<open>Strategy 2: the body of \<open>messageContainers.forEach\<close>.\<close>

definition messageActionsArea :: "nat \<Rightarrow> dom_node \<Rightarrow> entry option" where
  "messageActionsArea mc d =
     or_element (querySelectorIn mc (sel_class ''bGI'') d)
       (or_element (querySelectorIn mc (sel_classes [''adf'', ''ads'']) d)
          (parent_of (querySelectorIn mc (sel_attr_is ''data-tooltip'' ''More'') d)))"

definition visitMessageId :: "jsstring \<Rightarrow> page \<Rightarrow> nat \<Rightarrow> page" where
  "visitMessageId label st mc =
     (if mc \<in> set (injectedButtons st) then st
      else if querySelectorIn mc (sel_class ''asana-gmail-btn-mini'') (dom st) \<noteq> None then st
      else
        (case messageActionsArea mc (dom st) of
           Some area \<Rightarrow> addMiniButton label st mc area
         | None \<Rightarrow> st))"

text \<open>Strategy 3: the body of \<open>senderElements.forEach\<close>.\<close>

definition messageContainerOf :: "entry \<Rightarrow> entry option" where
  "messageContainerOf senderEl =
     or_element (closest (sel_class ''gs'') senderEl)
       (or_element (closest [[[HasAttr (js ''data-message-id'')]]] senderEl)
          (closest (sel_class ''gE'') senderEl))"

definition senderRowOf :: "entry \<Rightarrow> entry option" where
  "senderRowOf senderEl =
     or_element (closest (sel_class ''gH'') senderEl)
       (or_element (closest (sel_class ''h7'') senderEl) (parentElement senderEl))"

definition visitSender :: "jsstring \<Rightarrow> page \<Rightarrow> entry \<Rightarrow> page" where
  "visitSender label st senderEl =
     (case messageContainerOf senderEl of
        None \<Rightarrow> st
      | Some container \<Rightarrow>
          let mc = tag_id (snd container) in
          if mc \<in> set (injectedButtons st) then st
          else if querySelectorIn mc (sel_class ''asana-gmail-btn-mini'') (dom st) \<noteq> None then st
          else
            (case senderRowOf senderEl of
               Some senderRow \<Rightarrow> addMiniButton label st mc senderRow
             | None \<Rightarrow> st))"

definition injectMessageButtons :: "jsstring \<Rightarrow> page \<Rightarrow> page" where
  "injectMessageButtons label st =
     (let s1 = foldl (visitExpanded label) st
                 (entry_ids (querySelectorAll (sel_class ''gs'') (dom st)));
          s2 = foldl (visitMessageId label) s1
                 (entry_ids (querySelectorAll [[[HasAttr (js ''data-message-id'')]]] (dom s1)));
          s3 = foldl (visitSender label) s2
                 (querySelectorAll [sel_within ''gE'' ''gD'', sel_within ''gH'' ''gD''] (dom s2))
      in s3)"

definition injectButtons :: "jsstring \<Rightarrow> page \<Rightarrow> page" where
  "injectButtons label st = injectMessageButtons label (injectToolbarButtons label st)"

section \<open>Injector: example pages\<close>



section \<open>Injector: notions for the proofs\<close>














text \<open>
  A change of the tree that inserts the node \<open>new\<close> into child lists and changes nothing
  else; the three insertions of the injector are of this kind.
\<close>

definition inserts :: "dom_node \<Rightarrow> (dom_node \<Rightarrow> dom_node) \<Rightarrow> bool" where
  "inserts new f =
     ((\<forall>s. f (TextNode s) = TextNode s) \<and>
      (\<forall>t ch. f (Element t ch) = Element t (map f ch) \<or>
              (\<exists>xs ys. ch = xs @ ys \<and> f (Element t ch) = Element t (xs @ new # ys))))"





text \<open>One injection: a new trigger is inserted and a container that was not marked is
  marked.\<close>

definition injection :: "jsstring \<Rightarrow> page \<Rightarrow> page \<Rightarrow> bool" where
  "injection label st st' =
     (\<exists>f new c.
        inserts new f \<and> c \<notin> set (injectedButtons st) \<and>
        (new = createAsanaButton label (fresh_id (dom st)) \<or>
         new = createMiniAsanaButton label (fresh_id (dom st))) \<and>
        st' = st\<lparr>dom := f (dom st), injectedButtons := injectedButtons st @ [c]\<rparr>)"

definition moves :: "jsstring \<Rightarrow> page \<Rightarrow> page \<Rightarrow> bool" where
  "moves label st st' = (st' = st \<or> injection label st st')"


text \<open>When a visit of a container has nothing to do.\<close>

definition has_trigger :: "string \<Rightarrow> nat \<Rightarrow> page \<Rightarrow> bool" where
  "has_trigger cls c st =
     (c \<in> set (injectedButtons st) \<or> querySelectorIn c (sel_class cls) (dom st) \<noteq> None)"






text \<open>The three parts of \<open>injectMessageButtons\<close>.\<close>

definition injectExpanded :: "jsstring \<Rightarrow> page \<Rightarrow> page" where
  "injectExpanded label st =
     foldl (visitExpanded label) st (entry_ids (querySelectorAll (sel_class ''gs'') (dom st)))"

definition injectMessageId :: "jsstring \<Rightarrow> page \<Rightarrow> page" where
  "injectMessageId label st =
     foldl (visitMessageId label) st
       (entry_ids (querySelectorAll [[[HasAttr (js ''data-message-id'')]]] (dom st)))"

definition injectSender :: "jsstring \<Rightarrow> page \<Rightarrow> page" where
  "injectSender label st =
     foldl (visitSender label) st
       (querySelectorAll [sel_within ''gE'' ''gD'', sel_within ''gH'' ''gD''] (dom st))"

section \<open>Properties of the thread scan\<close>

lemma foldl_invariant:
  assumes "P s" and "\<And>s x. P s \<Longrightarrow> x \<in> set xs \<Longrightarrow> P (f s x)"
  shows "P (foldl f s xs)"
  using assms by (induction xs arbitrary: s) auto

text \<open>Every attachment collected by strategy 1 is a real entry with a string reference.\<close>

lemma real_entries_group_of:
  "groups_real byMsg \<Longrightarrow> real_entries (group_of byMsg key)"
proof (cases "map_of byMsg key")
  case None
  then show ?thesis by (simp add: group_of_def real_entries_def)
next
  case (Some atts)
  then have "(key, atts) \<in> set byMsg" by (rule map_of_SomeD)
  with Some show ?thesis
    if "groups_real byMsg" using that by (auto simp: group_of_def groups_real_def list_all_iff)
qed

lemma groups_real_update:
  "groups_real byMsg \<Longrightarrow> real_entries atts \<Longrightarrow> groups_real (AList.update key atts byMsg)"
  by (induction byMsg) (auto simp: groups_real_def)

lemma scanContainer_real:
  assumes "groups_real (fst st)"
  shows "groups_real (fst (scanContainer st c))"
proof -
  let ?b1 = "if map_of (fst st) (messageContainer c) = None
             then AList.update (messageContainer c) [] (fst st) else fst st"
  have b1: "groups_real ?b1"
    using assms by (simp add: groups_real_update real_entries_def)
  have "real_entries (group_of ?b1 (messageContainer c))"
    using b1 by (rule real_entries_group_of)
  then have "groups_real (AList.update (messageContainer c)
       (group_of ?b1 (messageContainer c) @
          [\<lparr>att_id = None, name = nm, url = Some (downloadHref c), size_text = sizeElText c,
            isCollapsedPlaceholder = False, messageIndex = None\<rparr>]) ?b1)" for nm
    using b1 by (intro groups_real_update) (simp_all add: real_entries_def)
  with b1 assms show ?thesis
    by (simp add: scanContainer_def Let_def)
qed

lemma groupAttachments_real: "groups_real (groupAttachments cs)"
  unfolding groupAttachments_def
  by (rule foldl_invariant [where P = "\<lambda>st. groups_real (fst st)"])
     (simp_all add: scanContainer_real, simp add: groups_real_def)




lemma list_all_map_enumerate:
  assumes "list_all Q xs" and "\<And>k a. Q a \<Longrightarrow> P (g (k, a))"
  shows "list_all P (map g (enumerate n xs))"
  using assms by (induction xs arbitrary: n) auto

lemma number_attachments_real:
  "real_entries atts \<Longrightarrow> real_entries (number_attachments i atts)"
  unfolding real_entries_def number_attachments_def
  by (erule list_all_map_enumerate) simp

text \<open>
  What the scan returns: an expanded message holds real entries only, a collapsed one
  holds the single placeholder built from its row.
\<close>

lemma convertGroup_scanned:
  assumes "list_all (scanned d) (fst st)" and "real_entries (snd g)"
  shows "list_all (scanned d) (fst (convertGroup d st g))"
  using assms by (simp add: convertGroup_def Let_def scanned_def number_attachments_real)


lemma strategy1_scanned:
  "list_all (scanned d) (fst (foldl (convertGroup d) ([], 0) (groupAttachments cs)))"
proof (rule foldl_invariant [where P = "\<lambda>st. list_all (scanned d) (fst st)"])
  show "list_all (scanned d) (fst ([], 0::nat))" by simp
next
  fix st :: "thread_message list \<times> nat" and g
  assume st: "list_all (scanned d) (fst st)" and g: "g \<in> set (groupAttachments cs)"
  have "real_entries (snd g)"
    using groupAttachments_real [of cs] g by (simp add: groups_real_def list_all_iff)
  with st show "list_all (scanned d) (fst (convertGroup d st g))"
    by (rule convertGroup_scanned)
qed

lemma scanCollapsedRow_scanned:
  assumes "list_all (scanned d) (fst st)" and "row \<in> set (collapsedRows d)"
  shows "list_all (scanned d) (fst (scanCollapsedRow d st row))"
proof -
  have "scanned d
     \<lparr>index = i, sender = s, date = dt, messageId = None,
      attachments = [placeholder d i row], expanded = False,
      collapsedElement = Some (rowNode row),
      attachmentCount = Some (count_hint row)\<rparr>" for i s dt
    using assms(2) by (simp add: scanned_def list_ex_iff) blast
  with assms(1) show ?thesis
    by (simp add: scanCollapsedRow_def Let_def)
qed

lemma thread_scan_scanned: "list_all (scanned d) (getAllThreadAttachments d)"
  unfolding getAllThreadAttachments_def
proof (rule foldl_invariant [where P = "\<lambda>st. list_all (scanned d) (fst st)"])
  show "list_all (scanned d)
          (fst (foldl (convertGroup d) ([], 0) (groupAttachments (attachmentContainers d))))"
    by (rule strategy1_scanned)
next
  fix st :: "thread_message list \<times> nat" and row
  assume "list_all (scanned d) (fst st)" and "row \<in> set (collapsedRows d)"
  then show "list_all (scanned d) (fst (scanCollapsedRow d st row))"
    by (rule scanCollapsedRow_scanned)
qed

lemma placeholder_fields:
  "url (placeholder d i row) = None"
  "isCollapsedPlaceholder (placeholder d i row)"
  "name (placeholder d i row) = placeholder_text d @ js '' ('' @ count_hint row @ js '')''"
  by (simp_all add: placeholder_def)

lemma scanned_placeholder_url:
  assumes "scanned d m" and "a \<in> set (attachments m)" and "isCollapsedPlaceholder a"
  shows "url a = None"
proof (cases "expanded m")
  case True
  with assms(1) have "real_entries (attachments m)" by (simp add: scanned_def)
  with assms(2) have "\<not> isCollapsedPlaceholder a" by (simp add: real_entries_def list_all_iff)
  with assms(3) show ?thesis by simp
next
  case False
  with assms(1) obtain row where "attachments m = [placeholder d (index m) row]"
    by (auto simp: scanned_def list_ex_iff)
  with assms(2) have "a = placeholder d (index m) row" by simp
  then show ?thesis by (simp only: placeholder_fields)
qed

text \<open>
  Claim C2. For every attachment record of every message produced by the thread scan:
  if its placeholder flag \<open>isCollapsedPlaceholder\<close> is set, then its download reference
  \<open>url\<close> is \<open>null\<close>.
\<close>

theorem placeholder_has_null_url:
  assumes "m \<in> set (getAllThreadAttachments d)"
    and "a \<in> set (attachments m)"
    and "isCollapsedPlaceholder a"
  shows "url a = None"
proof -
  have "scanned d m"
    using thread_scan_scanned [of d] assms(1) by (simp add: list_all_iff)
  then show ?thesis using assms(2,3) by (rule scanned_placeholder_url)
qed

lemma example_collapsed_scanned:
  "example_collapsed \<in> set (getAllThreadAttachments example_thread)"
  by code_simp

theorem placeholder_has_null_url_witness:
  "example_collapsed \<in> set (getAllThreadAttachments example_thread) \<and>
   example_placeholder \<in> set (attachments example_collapsed) \<and>
   isCollapsedPlaceholder example_placeholder \<and>
   url example_placeholder = None"
proof -
  have a: "example_placeholder \<in> set (attachments example_collapsed)"
    by (simp add: example_collapsed_def)
  have p: "isCollapsedPlaceholder example_placeholder"
    by (simp add: example_placeholder_def)
  from example_collapsed_scanned a p
    placeholder_has_null_url [OF example_collapsed_scanned a p]
  show ?thesis by (intro conjI)
qed

lemma scanned_collapsed:
  assumes "scanned d m" and "\<not> expanded m"
  shows "\<exists>hint. attachments m =
           [\<lparr>att_id = Some (js ''msg'' @ decimal (index m) @ js ''-collapsed''),
             name = placeholder_text d @ js '' ('' @ hint @ js '')'',
             url = None, size_text = [], isCollapsedPlaceholder = True,
             messageIndex = Some (index m)\<rparr>] \<and>
           attachmentCount m = Some hint"
proof -
  from assms obtain row where "attachments m = [placeholder d (index m) row]"
    and "attachmentCount m = Some (count_hint row)"
    by (auto simp: scanned_def list_ex_iff)
  then show ?thesis unfolding placeholder_def by blast
qed

text \<open>
  Claim C3. Every message record produced by the thread scan with \<open>expanded = false\<close>
  has an attachment list of exactly one entry; that entry is a placeholder, its download
  reference is \<open>null\<close>, and its name carries the count hint of the message
  (the placeholder text followed by the hint in parentheses).
\<close>

theorem collapsed_message_single_placeholder:
  assumes "m \<in> set (getAllThreadAttachments d)" and "\<not> expanded m"
  shows "\<exists>a hint. attachments m = [a] \<and> isCollapsedPlaceholder a \<and> url a = None \<and>
           name a = placeholder_text d @ js '' ('' @ hint @ js '')'' \<and>
           attachmentCount m = Some hint"
proof -
  have "scanned d m"
    using thread_scan_scanned [of d] assms(1) by (simp add: list_all_iff)
  from scanned_collapsed [OF this assms(2)] obtain hint where
    "attachments m =
       [\<lparr>att_id = Some (js ''msg'' @ decimal (index m) @ js ''-collapsed''),
         name = placeholder_text d @ js '' ('' @ hint @ js '')'',
         url = None, size_text = [], isCollapsedPlaceholder = True,
         messageIndex = Some (index m)\<rparr>]"
    and "attachmentCount m = Some hint" by blast
  then show ?thesis by simp
qed

theorem collapsed_message_single_placeholder_witness:
  "example_collapsed \<in> set (getAllThreadAttachments example_thread) \<and>
   \<not> expanded example_collapsed \<and>
   (\<exists>a hint. attachments example_collapsed = [a] \<and> isCollapsedPlaceholder a \<and>
      url a = None \<and>
      name a = placeholder_text example_thread @ js '' ('' @ hint @ js '')'' \<and>
      attachmentCount example_collapsed = Some hint)"
proof -
  have e: "\<not> expanded example_collapsed"
    by (simp add: example_collapsed_def)
  from example_collapsed_scanned e
    collapsed_message_single_placeholder [OF example_collapsed_scanned e]
  show ?thesis by (intro conjI)
qed

section \<open>Deduplication by name\<close>

lemma find_name_None: "find (\<lambda>a. name a = nm) atts = None \<longleftrightarrow> nm \<notin> name ` set atts"
  by (auto simp: find_None_iff)

lemma pushCardOnce_distinct:
  "distinct (map name atts) \<Longrightarrow> distinct (map name (pushCardOnce atts c))"
  by (simp add: pushCardOnce_def find_name_None card_attachment_def)

text \<open>Per-message extraction never returns two entries with the same name.\<close>

lemma getAttachmentsFromMessage_distinct:
  "distinct (map name (getAttachmentsFromMessage cs))"
  unfolding getAttachmentsFromMessage_def
  by (rule foldl_invariant [where P = "\<lambda>atts. distinct (map name atts)"])
     (simp_all add: pushCardOnce_distinct)

text \<open>
  First-seen wins: every entry of the per-message list takes its reference and size
  from the first card carrying its name.
\<close>

lemma find_append_cases:
  "find P (xs @ [x]) = (case find P xs of Some y \<Rightarrow> Some y | None \<Rightarrow> if P x then Some x else None)"
  by (induction xs) auto

lemma getAttachmentsFromMessage_first_seen:
  "list_all (from_first_card cs) (getAttachmentsFromMessage cs) \<and>
   name ` set (getAttachmentsFromMessage cs) = card_name ` set cs"
proof (induction cs rule: rev_induct)
  case Nil
  show ?case by (simp add: getAttachmentsFromMessage_def)
next
  case (snoc c cs)
  let ?atts = "getAttachmentsFromMessage cs"
  have step: "getAttachmentsFromMessage (cs @ [c]) = pushCardOnce ?atts c"
    by (simp add: getAttachmentsFromMessage_def)
  have nonempty: "card_name c \<noteq> []"
    by (simp add: card_name_def or_else_def js_def)
  have old: "from_first_card (cs @ [c]) a" if "a \<in> set ?atts" for a
  proof -
    from that snoc have "from_first_card cs a" by (simp add: list_all_iff)
    then show ?thesis
      by (auto simp: from_first_card_def find_append_cases split: option.splits)
  qed
  show ?case
  proof (cases "card_name c \<in> name ` set ?atts")
    case True
    then have "pushCardOnce ?atts c = ?atts"
      by (simp add: pushCardOnce_def find_name_None)
    with True snoc old show ?thesis
      by (auto simp: step list_all_iff)
  next
    case False
    then have push: "pushCardOnce ?atts c = ?atts @ [card_attachment ?atts c]"
      using nonempty by (simp add: pushCardOnce_def find_name_None)
    from False snoc have "card_name c \<notin> card_name ` set cs" by simp
    then have "find (\<lambda>c'. card_name c' = card_name c) cs = None"
      unfolding find_None_iff by (metis imageI)
    then have new: "from_first_card (cs @ [c]) (card_attachment ?atts c)"
      by (simp add: from_first_card_def find_append_cases card_attachment_def)
    from snoc have names: "name ` set ?atts = card_name ` set cs" by simp
    have "name (card_attachment ?atts c) = card_name c"
      by (simp add: card_attachment_def)
    with old new names show ?thesis
      by (auto simp: step push list_all_iff)
  qed
qed

text \<open>The thread scan never puts two entries with the same name into one message.\<close>

lemma groups_distinct_update:
  "groups_distinct byMsg \<Longrightarrow> distinct (map name atts) \<Longrightarrow>
   groups_distinct (AList.update key atts byMsg)"
  by (induction byMsg) (auto simp: groups_distinct_def)

lemma distinct_group_of:
  assumes "groups_distinct byMsg"
  shows "distinct (map name (group_of byMsg key))"
proof (cases "map_of byMsg key")
  case None
  then show ?thesis by (simp add: group_of_def)
next
  case (Some atts)
  then have "(key, atts) \<in> set byMsg" by (rule map_of_SomeD)
  with Some assms show ?thesis
    by (auto simp: group_of_def groups_distinct_def list_all_iff)
qed

lemma scanContainer_distinct:
  assumes "groups_distinct (fst st)"
  shows "groups_distinct (fst (scanContainer st c))"
proof -
  let ?b1 = "if map_of (fst st) (messageContainer c) = None
             then AList.update (messageContainer c) [] (fst st) else fst st"
  let ?old = "group_of ?b1 (messageContainer c)"
  have b1: "groups_distinct ?b1"
    using assms by (simp add: groups_distinct_update)
  have old: "distinct (map name ?old)"
    using b1 by (rule distinct_group_of)
  have "groups_distinct (AList.update (messageContainer c)
       (?old @
          [\<lparr>att_id = None, name = nm, url = Some (downloadHref c), size_text = sizeElText c,
            isCollapsedPlaceholder = False, messageIndex = None\<rparr>]) ?b1)"
    if "find (\<lambda>a. name a = nm) ?old = None" for nm
    using b1 old that by (intro groups_distinct_update) (simp_all add: find_name_None)
  with b1 assms show ?thesis
    by (simp add: scanContainer_def Let_def)
qed

lemma groupAttachments_distinct: "groups_distinct (groupAttachments cs)"
  unfolding groupAttachments_def
  by (rule foldl_invariant [where P = "\<lambda>st. groups_distinct (fst st)"])
     (simp_all add: scanContainer_distinct, simp add: groups_distinct_def)

lemma map_name_number_attachments:
  "map name (number_attachments i atts) = map name atts"
proof -
  have "map name (map (\<lambda>(k, a). f k a) (enumerate n atts)) = map name atts"
    if "\<And>k a. name (f k a) = name a" for f :: "nat \<Rightarrow> attachment \<Rightarrow> attachment" and n
    using that by (induction atts arbitrary: n) auto
  then show ?thesis
    unfolding number_attachments_def by simp
qed

lemma convertGroup_distinct:
  assumes "list_all names_distinct (fst st)" and "distinct (map name (snd g))"
  shows "list_all names_distinct (fst (convertGroup d st g))"
  using assms
  by (simp add: convertGroup_def Let_def names_distinct_def map_name_number_attachments)

lemma scanCollapsedRow_distinct:
  assumes "list_all names_distinct (fst st)"
  shows "list_all names_distinct (fst (scanCollapsedRow d st row))"
  using assms by (simp add: scanCollapsedRow_def Let_def names_distinct_def)

lemma thread_scan_distinct:
  "list_all names_distinct (getAllThreadAttachments d)"
  unfolding getAllThreadAttachments_def
proof (rule foldl_invariant [where P = "\<lambda>st. list_all names_distinct (fst st)"])
  show "list_all names_distinct
          (fst (foldl (convertGroup d) ([], 0) (groupAttachments (attachmentContainers d))))"
  proof (rule foldl_invariant [where P = "\<lambda>st. list_all names_distinct (fst st)"])
    show "list_all names_distinct (fst ([], 0::nat))" by simp
  next
    fix st :: "thread_message list \<times> nat" and g
    assume st: "list_all names_distinct (fst st)"
      and g: "g \<in> set (groupAttachments (attachmentContainers d))"
    have "distinct (map name (snd g))"
      using groupAttachments_distinct [of "attachmentContainers d"] g
      by (simp add: groups_distinct_def list_all_iff)
    with st show "list_all names_distinct (fst (convertGroup d st g))"
      by (rule convertGroup_distinct)
  qed
next
  fix st :: "thread_message list \<times> nat" and row
  assume "list_all names_distinct (fst st)"
  then show "list_all names_distinct (fst (scanCollapsedRow d st row))"
    by (rule scanCollapsedRow_distinct)
qed

text \<open>
  No deduplication across messages: in \<open>example_thread\<close> the two expanded messages
  both keep their entry named \<open>a.pdf\<close>.
\<close>

lemma thread_scan_keeps_names_across_messages:
  "map (map name \<circ> attachments) (getAllThreadAttachments example_thread) =
     [[js ''a.pdf''], [js ''a.pdf''], [js ''Expand (3)'']]"
  by code_simp

text \<open>
  Claim C7. The attachment list of one message holds no two entries with the same name,
  for every extraction entry point. The per-message extraction and the thread scan
  satisfy it (lemmas above); the whole-view extraction \<open>getAttachments\<close> does not: its
  first loop pushes every card without looking for an earlier entry of that name. On the
  view of a single message whose attachment area holds one card, it returns the
  attachment twice.
\<close>

theorem getAttachments_repeats_name:
  "map name (getAttachments single_attachment_view) = [js ''report.pdf'', js ''report.pdf''] \<and>
   map name (getAttachmentsFromMessage (cards single_attachment_view)) = [js ''report.pdf'']"
  by code_simp

section \<open>The base64 relay\<close>

lemma b64encode_shape: "b64encode bs = map b64char (sextets bs) @ replicate (padding bs) 61"
  by (induction bs rule: b64encode.induct) (simp_all add: numeral_2_eq_2)

lemma byte_bound: "unat (a :: 8 word) < 256"
  using unsigned_less [of a, where ?'a = nat] by simp

lemma byte_parts:
  fixes y :: nat
  assumes "y < 256"
  shows "y div 4 < 64" "y div 16 < 16" "y div 64 < 4"
  using assms by (simp_all add: less_mult_imp_div_less)

lemma pack_bound:
  fixes a b m n :: nat
  assumes "a < m" and "b < n"
  shows "a * n + b < m * n"
proof -
  from assms(2) have "a * n + b < Suc a * n" by simp
  also from assms(1) have "Suc a * n \<le> m * n" by (simp only: Suc_leI mult_le_mono1)
  finally show ?thesis .
qed

lemma sextet_bounds:
  fixes x y z :: nat
  assumes "y < 256" "z < 256"
  shows "x mod 4 * 16 < 64" "x mod 4 * 16 + y div 16 < 64" "y mod 16 * 4 < 64"
    "y mod 16 * 4 + z div 64 < 64" "z mod 64 < 64"
proof -
  have x: "x mod 4 < 4" and y: "y mod 16 < 16" by simp_all
  show "x mod 4 * 16 < 64" using x by simp
  show "x mod 4 * 16 + y div 16 < 64"
    using pack_bound [OF x byte_parts(2) [OF assms(1)]] by simp
  show "y mod 16 * 4 < 64" using y by simp
  show "y mod 16 * 4 + z div 64 < 64"
    using pack_bound [OF y byte_parts(3) [OF assms(2)]] by simp
  show "z mod 64 < 64" by simp
qed

lemma div_mod_pack:
  fixes a b n :: nat
  assumes "b < n"
  shows "(a * n + b) div n = a" and "(a * n + b) mod n = b"
  using assms by simp_all

lemma sextet_inverse:
  fixes x y z :: nat
  assumes "y < 256" "z < 256"
  shows "x div 4 * 4 + x mod 4 * 16 div 16 = x"
    "x div 4 * 4 + (x mod 4 * 16 + y div 16) div 16 = x"
    "(x mod 4 * 16 + y div 16) mod 16 * 16 + y mod 16 * 4 div 4 = y"
    "(x mod 4 * 16 + y div 16) mod 16 * 16 + (y mod 16 * 4 + z div 64) div 4 = y"
    "(y mod 16 * 4 + z div 64) mod 4 * 64 + z mod 64 = z"
  using byte_parts [OF assms(1)] byte_parts [OF assms(2)]
  by (simp_all add: div_mod_pack)

lemma sextets_bound: "list_all (\<lambda>v. v < 64) (sextets bs)"
proof (induction bs rule: sextets.induct)
  case 1
  show ?case by simp
next
  case (2 a)
  show ?case
    using byte_parts(1) [OF byte_bound [of a]] sextet_bounds(1) [of 0 0 "unat a"]
    by simp
next
  case (3 a b)
  show ?case
    using byte_parts(1) [OF byte_bound [of a]]
      sextet_bounds(2) [OF byte_bound [of b] byte_bound [of b], of "unat a"]
      sextet_bounds(3) [OF byte_bound [of b] byte_bound [of b]]
    by simp
next
  case (4 a b c rest)
  show ?case
    using byte_parts(1) [OF byte_bound [of a]] 4
      sextet_bounds(2) [OF byte_bound [of b] byte_bound [of c], of "unat a"]
      sextet_bounds(4,5) [OF byte_bound [of b] byte_bound [of c]]
    by simp
qed

lemma padding_cases: "padding bs = 0 \<or> padding bs = 1 \<or> padding bs = 2"
  by (induction bs rule: padding.induct) simp_all

lemma sextets_length:
  "(padding bs = 0 \<longrightarrow> length (sextets bs) mod 4 = 0) \<and>
   (padding bs = 1 \<longrightarrow> length (sextets bs) mod 4 = 3) \<and>
   (padding bs = 2 \<longrightarrow> length (sextets bs) mod 4 = 2)"
  by (induction bs rule: sextets.induct) simp_all

lemma b64char_props:
  assumes "v < 64"
  shows "b64val (b64char v) = Some v" and "b64char v \<noteq> 61" and "\<not> ascii_whitespace (b64char v)"
    and "b64char v \<noteq> 44"
  using assms by (auto simp: b64val_def b64char_def ascii_whitespace_def)

lemma those_b64val:
  "list_all (\<lambda>v. v < 64) vs \<Longrightarrow> those (map b64val (map b64char vs)) = Some vs"
  by (induction vs) (simp_all add: b64char_props)

lemma decode_sextets_sextets: "decode_sextets (sextets bs) = map unat bs"
proof (induction bs rule: sextets.induct)
  case 1
  show ?case by simp
next
  case (2 a)
  show ?case
    using sextet_inverse(1) [OF byte_bound [of a] byte_bound [of a], of "unat a"] by simp
next
  case (3 a b)
  show ?case
    using sextet_inverse(2,3) [OF byte_bound [of b] byte_bound [of b], of "unat a"] by simp
next
  case (4 a b c rest)
  show ?case
    using sextet_inverse(2,4) [OF byte_bound [of b] byte_bound [of c], of "unat a"]
      sextet_inverse(5) [OF byte_bound [of b] byte_bound [of c]] 4
    by simp
qed

lemma strip_padding_encoded:
  assumes "list_all (\<lambda>c. c \<noteq> 61) cs" and "p = 0 \<or> p = 1 \<or> p = 2"
  shows "strip_padding (cs @ replicate p 61) = cs"
proof (cases cs rule: rev_cases)
  case Nil
  with assms(2) show ?thesis
    by (auto simp: strip_padding_def numeral_2_eq_2)
next
  case (snoc ys y)
  with assms(1) have y: "y \<noteq> 61" by simp
  from assms(2) consider "p = 0" | "p = 1" | "p = 2" by blast
  then show ?thesis
  proof cases
    case 1
    with snoc y show ?thesis
      by (cases ys rule: rev_cases) (simp_all add: strip_padding_def)
  next
    case 2
    with snoc y show ?thesis by (simp add: strip_padding_def)
  next
    case 3
    with snoc y show ?thesis by (simp add: strip_padding_def numeral_2_eq_2)
  qed
qed

text \<open>\<open>atob\<close> undoes the encoding of any byte sequence.\<close>

lemma atob_b64encode: "atob (b64encode bs) = Some (map unat bs)"
proof -
  let ?cs = "map b64char (sextets bs)"
  have bound: "list_all (\<lambda>v. v < 64) (sextets bs)" by (rule sextets_bound)
  then have no_pad: "list_all (\<lambda>c. c \<noteq> 61) ?cs"
    and no_ws: "list_all (\<lambda>c. \<not> ascii_whitespace c) ?cs"
    by (simp_all add: list_all_iff b64char_props)
  have "list_all (\<lambda>c. \<not> ascii_whitespace c) (b64encode bs)"
    using no_ws by (auto simp: b64encode_shape list_all_iff ascii_whitespace_def)
  then have kept: "filter (\<lambda>c. \<not> ascii_whitespace c) (b64encode bs) = b64encode bs"
    by (simp add: list_all_iff)
  have len: "length (b64encode bs) mod 4 = 0"
    using sextets_length [of bs] padding_cases [of bs]
    by (auto simp: b64encode_shape) presburger+
  have stripped: "strip_padding (b64encode bs) = ?cs"
    unfolding b64encode_shape using no_pad padding_cases by (rule strip_padding_encoded)
  have not1: "length (sextets bs) mod 4 \<noteq> Suc 0"
    using sextets_length [of bs] padding_cases [of bs] by auto
  have vals: "those (map b64val ?cs) = Some (sextets bs)"
    using bound by (rule those_b64val)
  show ?thesis
    by (simp add: atob_def kept len stripped not1 vals decode_sextets_sextets Let_def del: map_map)
qed

lemma split_on_without: "sep \<notin> set s \<Longrightarrow> split_on sep s = [s]"
  by (induction s) auto

lemma split_on_first:
  "sep \<notin> set p \<Longrightarrow> split_on sep (p @ sep # rest) = p # split_on sep rest"
  by (induction p) auto

lemma b64encode_no_comma: "44 \<notin> set (b64encode bs)"
proof -
  have "c \<noteq> 44" if "c \<in> set (map b64char (sextets bs))" for c
    using that sextets_bound [of bs] by (auto simp: list_all_iff b64char_props)
  then show ?thesis by (auto simp: b64encode_shape)
qed

text \<open>
  The relay reconstructs the bytes of every blob whose MIME type has no comma: the
  payload is the encoding of the bytes, and the gateway decodes it to the same bytes.
\<close>

lemma relay_roundtrip:
  assumes "44 \<notin> set (blob_type b)"
  shows "blobToBase64 b = Some (b64encode (blob_bytes b))"
    and "decodeBase64Data (blobToBase64 b) = Some (blob_bytes b)"
proof -
  let ?head = "js ''data:'' @ or_else (blob_type b) (js ''application/octet-stream'') @ js '';base64''"
  have head: "44 \<notin> set ?head"
    using assms by (simp add: or_else_def js_def)
  have "readAsDataURL b = ?head @ 44 # b64encode (blob_bytes b)"
    by (simp add: readAsDataURL_def js_def)
  moreover have "split_on 44 (?head @ 44 # b64encode (blob_bytes b)) =
      ?head # split_on 44 (b64encode (blob_bytes b))"
    using head by (rule split_on_first)
  moreover have "split_on 44 (b64encode (blob_bytes b)) = [b64encode (blob_bytes b)]"
    using b64encode_no_comma by (rule split_on_without)
  ultimately have "split_on 44 (readAsDataURL b) = [?head, b64encode (blob_bytes b)]"
    by (simp only:)
  then show payload: "blobToBase64 b = Some (b64encode (blob_bytes b))"
    by (simp add: blobToBase64_def)
  have "map (of_nat :: nat \<Rightarrow> 8 word) (map unat bs) = bs" for bs
    by (induction bs) simp_all
  then show "decodeBase64Data (blobToBase64 b) = Some (blob_bytes b)"
    by (simp add: payload decodeBase64Data_def atob_b64encode del: map_map)
qed

lemma pdf_blob_relayed:
  "blobToBase64 pdf_blob = Some (js ''JVBERi0='') \<and>
   decodeBase64Data (blobToBase64 pdf_blob) = Some (blob_bytes pdf_blob)"
  by code_simp

text \<open>
  Claim C10. Encoding the bytes of a blob as the payload of an
  \<open>UPLOAD_ATTACHMENT_BASE64\<close> message, as \<open>blobToBase64\<close> does, and decoding the payload
  in the gateway gives back the bytes. This holds when the blob's MIME type has no
  comma (\<open>relay_roundtrip\<close>). It fails for a blob whose type has one: \<open>blobToBase64\<close>
  takes what stands between the first and the second comma of the data URL, which is
  then a piece of the type; the gateway's \<open>atob\<close> throws on it, although the encoding of
  the bytes itself would decode to them.
\<close>

theorem comma_in_type_breaks_relay:
  "readAsDataURL comma_type_blob =
     js ''data:application/pdf;name='' @ [34] @ js ''a,b.pdf'' @ [34] @ js '';base64,QQ=='' \<and>
   blobToBase64 comma_type_blob = Some (js ''b.pdf'' @ [34] @ js '';base64'') \<and>
   decodeBase64Data (blobToBase64 comma_type_blob) = None \<and>
   decodeBase64Data (Some (b64encode (blob_bytes comma_type_blob))) =
     Some (blob_bytes comma_type_blob)"
  by code_simp

section \<open>The note body\<close>








section \<open>The composer's state after each operation\<close>

lemma showStatus_fields [simp]:
  "events (showStatus m k s) = events s"
  "status (showStatus m k s) = Some (m, k)"
  "selectedProject (showStatus m k s) = selectedProject s"
  "selectedTags (showStatus m k s) = selectedTags s"
  "selectedExistingTask (showStatus m k s) = selectedExistingTask s"
  "customFields (showStatus m k s) = customFields s"
  "customFieldValues (showStatus m k s) = customFieldValues s"
  "preferences (showStatus m k s) = preferences s"
  "emailData (showStatus m k s) = emailData s"
  "mode (showStatus m k s) = mode s"
  "modal (showStatus m k s) = modal s"
  by (simp_all add: showStatus_def)

lemma emit_fields [simp]:
  "events (emit ev s) = events s @ [ev]"
  "status (emit ev s) = status s"
  "selectedProject (emit ev s) = selectedProject s"
  "selectedTags (emit ev s) = selectedTags s"
  "selectedExistingTask (emit ev s) = selectedExistingTask s"
  "customFields (emit ev s) = customFields s"
  "customFieldValues (emit ev s) = customFieldValues s"
  "preferences (emit ev s) = preferences s"
  "emailData (emit ev s) = emailData s"
  "mode (emit ev s) = mode s"
  "modal (emit ev s) = modal s"
  by (simp_all add: emit_def)

lemma savePreferences_fields [simp]:
  "selectedProject (fst (savePreferences env g s)) = selectedProject s"
  "selectedTags (fst (savePreferences env g s)) = selectedTags s"
  "selectedExistingTask (fst (savePreferences env g s)) = selectedExistingTask s"
  "customFieldValues (fst (savePreferences env g s)) = customFieldValues s"
  "preferences (fst (savePreferences env g s)) = g (preferences s)"
  "modal (fst (savePreferences env g s)) = modal s"
  by (simp_all add: savePreferences_def Let_def)

lemma loadCustomFields_fields [simp]:
  "selectedProject (loadCustomFields env p s) = selectedProject s"
  "selectedTags (loadCustomFields env p s) = selectedTags s"
  "selectedExistingTask (loadCustomFields env p s) = selectedExistingTask s"
  "preferences (loadCustomFields env p s) = preferences s"
  "modal (loadCustomFields env p s) = modal s"
  by (simp_all add: loadCustomFields_def Let_def split: outcome.splits response.splits)

lemma loadCustomFields_values:
  "customFieldValues s = [] \<Longrightarrow> customFieldValues (loadCustomFields env p s) = []"
  by (simp add: loadCustomFields_def Let_def split: outcome.splits response.splits)

lemma selectProject_fields [simp]:
  "selectedProject (selectProject env p s) = Some p"
  "selectedTags (selectProject env p s) = selectedTags s"
  "selectedExistingTask (selectProject env p s) = selectedExistingTask s"
  "lastProjectId (preferences (selectProject env p s)) = gid p"
  "modal (selectProject env p s) = modal s"
  by (simp_all add: selectProject_def Let_def)

lemma selectProject_values:
  "customFieldValues s = [] \<Longrightarrow> customFieldValues (selectProject env p s) = []"
  by (simp add: selectProject_def Let_def loadCustomFields_values)

lemma resetSelections_fields [simp]:
  "selectedProject (resetSelections s) = None"
  "selectedTags (resetSelections s) = []"
  "selectedExistingTask (resetSelections s) = None"
  "customFieldValues (resetSelections s) = []"
  "preferences (resetSelections s) = preferences s"
  "modal (resetSelections s) = modal s"
  by (simp_all add: resetSelections_def)

lemma loadFailed_fields [simp]:
  "selectedProject (loadFailed env m s) = selectedProject s"
  "selectedTags (loadFailed env m s) = selectedTags s"
  "selectedExistingTask (loadFailed env m s) = selectedExistingTask s"
  "customFieldValues (loadFailed env m s) = customFieldValues s"
  by (simp_all add: loadFailed_def showStatusLater_def)

lemma requestWorkspaceData_fields [simp]:
  "selectedProject (requestWorkspaceData w s) = selectedProject s"
  "selectedTags (requestWorkspaceData w s) = selectedTags s"
  "selectedExistingTask (requestWorkspaceData w s) = selectedExistingTask s"
  "customFieldValues (requestWorkspaceData w s) = customFieldValues s"
  "preferences (requestWorkspaceData w s) = preferences s"
  "modal (requestWorkspaceData w s) = modal s"
  "events (requestWorkspaceData w s) =
     events s @ [Sent (GET_PROJECTS w), Sent (GET_USERS w), Sent (GET_TAGS w)]"
  by (simp_all add: requestWorkspaceData_def)

lemma undisturbed_fields:
  assumes "undisturbed env"
  shows "selectedProject (meanwhile env s) = selectedProject s"
    and "selectedTags (meanwhile env s) = selectedTags s"
    and "selectedExistingTask (meanwhile env s) = selectedExistingTask s"
    and "customFieldValues (meanwhile env s) = customFieldValues s"
    and "preferences (meanwhile env s) = preferences s"
    and "modal (meanwhile env s) = modal s"
  using assms by (simp_all add: undisturbed_def)

section \<open>Switching the workspace\<close>

text \<open>The project that is selected once the data of the workspace has loaded.\<close>

lemma loadWorkspaceData_project:
  assumes "undisturbed env" and "selectedProject s2 = None"
  shows "selectedProject (loadWorkspaceData env w auto s2) =
     (case (getProjectsReply env w, getUsersReply env w, getTagsReply env w) of
        (Resolves (Payload plist), Resolves _, Resolves _) \<Rightarrow>
          (if \<not> modal s2 \<or> projectToSelect auto (preferences s2) = [] then None
           else find (\<lambda>p. gid p = projectToSelect auto (preferences s2)) plist)
      | _ \<Rightarrow> None)"
  using assms(2)
  by (simp add: loadWorkspaceData_def Let_def undisturbed_fields [OF assms(1)]
      split: outcome.splits response.splits option.splits)

lemma loadWorkspaceData_cleared:
  assumes "undisturbed env"
    and "selectedTags s2 = []" and "customFieldValues s2 = []" and "selectedExistingTask s2 = None"
  shows "selectedTags (loadWorkspaceData env w auto s2) = [] \<and>
         customFieldValues (loadWorkspaceData env w auto s2) = [] \<and>
         selectedExistingTask (loadWorkspaceData env w auto s2) = None"
  using assms(2-)
  by (simp add: loadWorkspaceData_def Let_def selectProject_values undisturbed_fields [OF assms(1)]
      split: outcome.splits response.splits option.splits)

lemma loadFailed_more [simp]:
  "preferences (loadFailed env m s) = preferences s"
  "modal (loadFailed env m s) = modal s"
  by (simp_all add: loadFailed_def showStatusLater_def)

lemma selectProject_preferences:
  "preferences (selectProject env p s) = (preferences s)\<lparr>lastProjectId := gid p\<rparr>"
  by (simp add: selectProject_def Let_def)

lemma loadWorkspaceData_modal:
  assumes "undisturbed env"
  shows "modal (loadWorkspaceData env w auto s2) = modal s2"
  by (simp add: loadWorkspaceData_def Let_def undisturbed_fields [OF assms]
      split: outcome.splits response.splits option.splits)

lemma loadWorkspaceData_lastProject:
  assumes "undisturbed env" and "selectedProject s2 = None"
  shows "lastProjectId (preferences (loadWorkspaceData env w auto s2)) =
     (case selectedProject (loadWorkspaceData env w auto s2) of
        Some p \<Rightarrow> gid p
      | None \<Rightarrow> lastProjectId (preferences s2))"
  using assms(2)
  by (simp add: loadWorkspaceData_def Let_def undisturbed_fields [OF assms(1)]
      selectProject_preferences split: outcome.splits response.splits option.splits)

text \<open>
  The session of the scenario: project \<open>P1\<close> is selected under workspace \<open>W1\<close>, which
  also records it as the last-used project; the user then switches to \<open>W2\<close>, whose
  project list holds a project with the identifier \<open>P1\<close>.
\<close>

lemma undisturbed_answering_env: "undisturbed answering_env"
  by (simp add: undisturbed_def answering_env_def)

lemma in_W1_with_P1_state:
  "selectedProject in_W1_with_P1 = Some project_P1 \<and>
   lastProjectId (preferences in_W1_with_P1) = js ''P1''"
  by (simp add: in_W1_with_P1_def project_P1_def)

lemma in_W1_with_P1_modal: "modal in_W1_with_P1"
proof -
  have "modal (onWorkspaceChange answering_env (js ''W1'') False (opened invoice_email))"
    by (simp add: onWorkspaceChange_def loadWorkspaceData_def Let_def answering_env_def
        loadFailed_def showStatusLater_def opened_def js_def split: option.splits)
  then show ?thesis
    by (simp add: in_W1_with_P1_def)
qed

theorem workspace_switch_reselects_project:
  "selectedProject in_W1_with_P1 = Some project_P1 \<and>
   gid project_P1_of_W2 = gid project_P1 \<and>
   selectedProject (resetSelections in_W1_with_P1) = None \<and>
   selectedProject switched_to_W2 = Some project_P1_of_W2"
proof -
  have reply: "getProjectsReply answering_env (js ''W2'') = Resolves (Payload [project_P1_of_W2])"
    "getUsersReply answering_env (js ''W2'') = Resolves (Payload [])"
    "getTagsReply answering_env (js ''W2'') = Resolves (Payload [])"
    by (simp_all add: answering_env_def js_def)
  have wanted: "projectToSelect False (preferences in_W1_with_P1) = js ''P1''"
    using in_W1_with_P1_state by (simp add: projectToSelect_def)
  have same: "meanwhile answering_env x = x" for x
    by (simp add: answering_env_def)
  have "selectedProject switched_to_W2 =
      selectedProject (loadWorkspaceData answering_env (js ''W2'') False
        (requestWorkspaceData (js ''W2'') (resetSelections in_W1_with_P1)))"
    by (simp add: switched_to_W2_def onWorkspaceChange_def Let_def same js_def)
  also have "\<dots> = Some project_P1_of_W2"
    by (simp add: loadWorkspaceData_project [OF undisturbed_answering_env] reply wanted
        in_W1_with_P1_modal)
       (simp add: project_P1_of_W2_def js_def)
  finally show ?thesis
    using in_W1_with_P1_state by (simp add: project_P1_of_W2_def project_P1_def)
qed

text \<open>
  Claim C1, amended. Changing the workspace selector clears the selected project, the
  selected tags, the existing-task selection and the custom-field values at once
  (\<open>resetSelections\<close>). Provided that, while the handler waits, nothing else changes the
  selections, the preferences or the modal (no other change of the workspace is under
  way, the user selects nothing and does not close the composer), the following holds
  after the handler, started with the modal attached, has run. The tags, the
  existing-task selection and the custom-field values are still empty. The selected
  project is empty when no workspace is chosen, when one of the three requests is
  rejected, when the answer to the request for the projects is not a list, when there
  is no preferred identifier, or when the new workspace's project list holds no project
  with the preferred identifier; otherwise it is the first project of that list with
  the preferred identifier, which is the default project on an automatic selection that
  has one, and the last-used project otherwise.
\<close>

theorem workspace_change_clears_then_restores:
  assumes "undisturbed env" and "modal s"
  shows "selectedProject (resetSelections s) = None \<and>
   selectedTags (resetSelections s) = [] \<and>
   selectedExistingTask (resetSelections s) = None \<and>
   customFieldValues (resetSelections s) = [] \<and>
   selectedTags (onWorkspaceChange env w auto s) = [] \<and>
   selectedExistingTask (onWorkspaceChange env w auto s) = None \<and>
   customFieldValues (onWorkspaceChange env w auto s) = [] \<and>
   selectedProject (onWorkspaceChange env w auto s) =
     (if w = [] then None
      else case (getProjectsReply env w, getUsersReply env w, getTagsReply env w) of
             (Resolves (Payload plist), Resolves _, Resolves _) \<Rightarrow>
               (if projectToSelect auto (preferences s) = [] then None
                else find (\<lambda>p. gid p = projectToSelect auto (preferences s)) plist)
           | _ \<Rightarrow> None)"
proof (cases "w = []")
  case True
  then show ?thesis by (simp add: onWorkspaceChange_def)
next
  case False
  note quiet = undisturbed_fields [OF assms(1)]
  let ?s2 = "meanwhile env (requestWorkspaceData w (resetSelections s))"
  have s2: "selectedProject ?s2 = None" "selectedTags ?s2 = []" "customFieldValues ?s2 = []"
    "selectedExistingTask ?s2 = None" "preferences ?s2 = preferences s" "modal ?s2 = True"
    using assms(2) by (simp_all add: quiet)
  have project: "selectedProject (loadWorkspaceData env w auto ?s2) =
     (case (getProjectsReply env w, getUsersReply env w, getTagsReply env w) of
        (Resolves (Payload plist), Resolves _, Resolves _) \<Rightarrow>
          (if projectToSelect auto (preferences s) = [] then None
           else find (\<lambda>p. gid p = projectToSelect auto (preferences s)) plist)
      | _ \<Rightarrow> None)"
    using loadWorkspaceData_project [OF assms(1) s2(1), of w auto]
    unfolding s2 by (simp split: outcome.splits response.splits)
  have "selectedTags (loadWorkspaceData env w auto ?s2) = [] \<and>
         customFieldValues (loadWorkspaceData env w auto ?s2) = [] \<and>
         selectedExistingTask (loadWorkspaceData env w auto ?s2) = None"
    using assms(1) s2(2,3,4) by (rule loadWorkspaceData_cleared)
  with project show ?thesis
    using False by (simp add: onWorkspaceChange_def Let_def)
qed

theorem workspace_change_clears_then_restores_witness:
  "undisturbed answering_env \<and> modal in_W1_with_P1 \<and>
   selectedTags switched_to_W2 = [] \<and>
   selectedExistingTask switched_to_W2 = None \<and>
   customFieldValues switched_to_W2 = [] \<and>
   selectedProject switched_to_W2 =
     find (\<lambda>p. gid p = js ''P1'') [project_P1_of_W2]"
proof -
  have reply: "getProjectsReply answering_env (js ''W2'') = Resolves (Payload [project_P1_of_W2])"
    "getUsersReply answering_env (js ''W2'') = Resolves (Payload [])"
    "getTagsReply answering_env (js ''W2'') = Resolves (Payload [])"
    by (simp_all add: answering_env_def js_def)
  have wanted: "projectToSelect False (preferences in_W1_with_P1) = js ''P1''"
    using in_W1_with_P1_state by (simp add: projectToSelect_def)
  have nonempty: "(js ''W2'' = []) = False" "(js ''P1'' = []) = False"
    by (simp_all add: js_def)
  note inst = workspace_change_clears_then_restores
    [OF undisturbed_answering_env in_W1_with_P1_modal, of "js ''W2''" False,
     unfolded reply wanted nonempty prod.case outcome.case response.case if_False,
     folded switched_to_W2_def]
  with undisturbed_answering_env in_W1_with_P1_modal show ?thesis
    by (intro conjI) (elim conjE, assumption)+
qed

text \<open>
  The proviso is needed. When two changes of the workspace overlap, the one that was
  started first selects its project after the later one has reset the selections: the
  user has chosen \<open>W2\<close>, which has no project, and the project \<open>P1\<close> of \<open>W1\<close> is selected.
\<close>

lemma empty_workspace_keeps_project:
  assumes "getProjectsReply env w = Resolves (Payload [])"
    and "\<And>y p. events y \<noteq> [] \<Longrightarrow> last (events y) = Sent (SAVE_PREFERENCES p) \<Longrightarrow>
           meanwhile env y = y"
  shows "selectedProject (loadWorkspaceData env w auto x) = selectedProject x"
proof -
  have "meanwhile env (fst (savePreferences env g y)) = fst (savePreferences env g y)" for g y
    by (rule assms(2) [where p = "g (preferences y)"]) (simp_all add: savePreferences_def Let_def)
  then show ?thesis
    by (simp add: loadWorkspaceData_def Let_def assms(1)
        split: outcome.splits response.splits option.splits)
qed

lemma overlapping_changes_keep_stale_project:
  "getProjectsReply overlapping_env (js ''W2'') = Resolves (Payload []) \<and>
   selectedProject (resetSelections (requestWorkspaceData (js ''W1'') (resetSelections returning_user)))
     = None \<and>
   selectedProject overlapped = Some project_P1"
proof -
  let ?started = "requestWorkspaceData (js ''W1'') (resetSelections returning_user)"
  let ?waiting = "requestWorkspaceData (js ''W2'') (resetSelections ?started)"
  have last: "events ?waiting \<noteq> [] \<and> last (events ?waiting) = Sent (GET_TAGS (js ''W2''))"
    by simp
  have quiet: "meanwhile sparse_env x = x" for x
    by (simp add: sparse_env_def answering_env_def)
  have undisturbed: "undisturbed sparse_env"
    by (simp add: undisturbed_def quiet)
  have replies: "getProjectsReply sparse_env (js ''W1'') = Resolves (Payload [project_P1])"
    "getUsersReply sparse_env (js ''W1'') = Resolves (Payload [])"
    "getTagsReply sparse_env (js ''W1'') = Resolves (Payload [])"
    "getProjectsReply overlapping_env (js ''W2'') = Resolves (Payload [])"
    "getUsersReply overlapping_env (js ''W2'') = Resolves (Payload [])"
    "getTagsReply overlapping_env (js ''W2'') = Resolves (Payload [])"
    by (simp_all add: overlapping_env_def sparse_env_def answering_env_def js_def)
  have state: "modal returning_user" "selectedProject ?waiting = None"
    by (simp_all add: returning_user_def opened_def)
  let ?first = "loadWorkspaceData sparse_env (js ''W1'') True ?waiting"
  have resumed: "meanwhile overlapping_env ?waiting = ?first"
    using last by (simp add: overlapping_env_def)
  have wanted: "projectToSelect True (preferences returning_user) = js ''P1''"
    by (simp add: projectToSelect_def returning_user_def opened_def no_preferences_def)
  have first: "selectedProject ?first = Some project_P1"
    by (simp add: loadWorkspaceData_project [OF undisturbed state(2)] replies wanted state(1))
       (simp add: project_P1_def js_def)
  have "selectedProject (loadWorkspaceData overlapping_env (js ''W2'') False ?first) =
      selectedProject ?first"
    by (rule empty_workspace_keeps_project [OF replies(4)]) (simp add: overlapping_env_def)
  with first have "selectedProject (loadWorkspaceData overlapping_env (js ''W2'') False ?first) =
      Some project_P1"
    by simp
  moreover have "js ''W2'' \<noteq> []"
    by (simp add: js_def)
  ultimately have "selectedProject overlapped = Some project_P1"
    by (simp add: overlapped_def onWorkspaceChange_def Let_def resumed)
  with replies(4) show ?thesis by simp
qed

section \<open>Submission: local validation\<close>

text \<open>
  Claim C6. A create-mode submission whose trimmed task name is empty or that has no
  selected project, and a comment-mode submission without a selected existing task,
  end with an error status and do nothing else: no message is sent to the gateway, no
  URL is fetched, and the rest of the state is unchanged.
\<close>

theorem invalid_submission_aborts_locally:
  assumes "(mode s = Create \<and> (js_trim (taskNameInput f) = [] \<or> selectedProject s = None)) \<or>
           (mode s = Comment \<and> selectedExistingTask s = None)"
  shows "events (createTask env f s) = events s \<and>
         (\<exists>message. createTask env f s = showStatus message StatusError s)"
proof -
  have "\<exists>message. createTask env f s = showStatus message StatusError s"
    using assms
    by (auto simp: createTask_def addCommentToTask_def Let_def split: option.splits)
  then show ?thesis by auto
qed

theorem invalid_submission_aborts_locally_witness:
  "mode (opened invoice_email) = Create \<and>
   selectedProject (opened invoice_email) = None \<and>
   events (createTask answering_env form_X (opened invoice_email)) = [] \<and>
   (\<exists>message. createTask answering_env form_X (opened invoice_email) =
      showStatus message StatusError (opened invoice_email))"
proof -
  have h: "mode (opened invoice_email) = Create" "selectedProject (opened invoice_email) = None"
    "events (opened invoice_email) = []"
    by (simp_all add: opened_def)
  from h(1,2) have "(mode (opened invoice_email) = Create \<and>
      (js_trim (taskNameInput form_X) = [] \<or> selectedProject (opened invoice_email) = None)) \<or>
      (mode (opened invoice_email) = Comment \<and> selectedExistingTask (opened invoice_email) = None)"
    by simp
  from invalid_submission_aborts_locally [OF this, of answering_env] h
  show ?thesis by simp
qed

section \<open>Submission: the steps after the creation\<close>

lemma carries_on_refl [simp]: "carries_on s s"
  by (simp add: carries_on_def)

lemma carries_on_trans: "carries_on a b \<Longrightarrow> carries_on b c \<Longrightarrow> carries_on a c"
  unfolding carries_on_def by auto

lemma carries_on_events: "carries_on s s' \<Longrightarrow> ev \<in> set (events s) \<Longrightarrow> ev \<in> set (events s')"
  unfolding carries_on_def by auto

lemma carries_on_showStatus [simp]: "carries_on s (showStatus m k s)"
  by (simp add: carries_on_def)

lemma carries_on_emit [simp]: "carries_on s (emit ev s)"
  by (auto simp: carries_on_def)

lemma carries_on_meanwhile: "stays_open env \<Longrightarrow> carries_on s (meanwhile env s)"
  by (simp add: carries_on_def stays_open_def)

lemma carries_on_suspended:
  assumes "stays_open env"
  shows "carries_on s (meanwhile env (emit ev s))" and "ev \<in> set (events (meanwhile env (emit ev s)))"
proof -
  from assms have m: "carries_on (emit ev s) (meanwhile env (emit ev s))"
    by (rule carries_on_meanwhile)
  show "carries_on s (meanwhile env (emit ev s))"
    using carries_on_emit m by (rule carries_on_trans)
  from m show "ev \<in> set (events (meanwhile env (emit ev s)))"
    by (rule carries_on_events) simp
qed

text \<open>A download is always made; an upload is sent when the file can be read.\<close>

lemma downloadAttachment_carries_on:
  assumes "stays_open env"
  shows "carries_on s (fst (downloadAttachment env u s))"
    and "Fetched u \<in> set (events (fst (downloadAttachment env u s)))"
  using carries_on_suspended [OF assms] by (simp_all add: downloadAttachment_def)

lemma uploadBlobToAsana_carries_on:
  assumes "stays_open env"
  shows "carries_on s (fst (uploadBlobToAsana env taskId b n s))"
  using carries_on_suspended(1) [OF assms] carries_on_meanwhile [OF assms]
  by (simp add: uploadBlobToAsana_def Let_def split: option.splits)

lemma uploadBlobToAsana_sends:
  assumes "stays_open env" and "readerError env (now s) = None"
  shows "Sent (upload_message taskId b n) \<in> set (events (fst (uploadBlobToAsana env taskId b n s)))"
  using carries_on_suspended(2) [OF assms(1)] assms(2)
  by (simp add: uploadBlobToAsana_def Let_def upload_message_def)

text \<open>One turn of the attachment loop, whatever the download and the upload do.\<close>

lemma uploadOne_carries_on:
  assumes "stays_open env"
  shows "carries_on s (uploadOne env taskGid s att)"
proof -
  let ?d = "fst (downloadAttachment env (fst att) s)"
  note d = downloadAttachment_carries_on(1) [OF assms, of s "fst att"]
  have "carries_on s (fst (uploadBlobToAsana env taskId b (snd att) ?d))" for taskId b
    using d uploadBlobToAsana_carries_on [OF assms] by (rule carries_on_trans)
  with d show ?thesis
    by (simp add: uploadOne_def Let_def split: option.splits)
qed

lemma uploadOne_fetches:
  assumes "stays_open env" and "fst att \<noteq> []"
  shows "Fetched (fst att) \<in> set (events (uploadOne env taskGid s att))"
proof -
  let ?d = "fst (downloadAttachment env (fst att) s)"
  note f = downloadAttachment_carries_on(2) [OF assms(1), of "fst att" s]
  have "Fetched (fst att) \<in> set (events (fst (uploadBlobToAsana env taskId b (snd att) ?d)))"
    for taskId b
    using uploadBlobToAsana_carries_on [OF assms(1)] f by (rule carries_on_events)
  with f assms(2) show ?thesis
    by (simp add: uploadOne_def Let_def split: option.splits)
qed

lemma uploadOne_uploads:
  assumes "stays_open env" and "fst att \<noteq> []"
    and "\<forall>n. fetchResult env n (fst att) = Body b" and "\<forall>n. readerError env n = None"
    and "taskGid (fst (downloadAttachment env (fst att) s)) = Some taskId"
  shows "Sent (upload_message taskId b (snd att)) \<in> set (events (uploadOne env taskGid s att))"
proof -
  have "snd (downloadAttachment env (fst att) s) = Some b"
    using assms(3) by (simp add: downloadAttachment_def)
  with assms(2,5) have "uploadOne env taskGid s att =
      fst (uploadBlobToAsana env taskId b (snd att) (fst (downloadAttachment env (fst att) s)))"
    by (simp add: uploadOne_def Let_def)
  with uploadBlobToAsana_sends [OF assms(1)] assms(4) show ?thesis
    by simp
qed

text \<open>
  How the identifier of the task is read: it does not change as long as the
  submission carries on.
\<close>

lemma upload_loop_carries_on:
  assumes "stays_open env"
  shows "carries_on s (foldl (uploadOne env taskGid) s atts)"
proof (induction atts arbitrary: s)
  case Nil
  show ?case by simp
next
  case (Cons att atts)
  from uploadOne_carries_on [OF assms] Cons.IH show ?case
    unfolding foldl_Cons by (rule carries_on_trans)
qed

lemma upload_loop_fetches:
  assumes "stays_open env" and "att \<in> set atts" and "fst att \<noteq> []"
  shows "Fetched (fst att) \<in> set (events (foldl (uploadOne env taskGid) s atts))"
  using assms(2)
proof (induction atts arbitrary: s)
  case Nil
  then show ?case by simp
next
  case (Cons a atts)
  show ?case
  proof (cases "att = a")
    case True
    from upload_loop_carries_on [OF assms(1)] uploadOne_fetches [OF assms(1,3)]
    show ?thesis
      unfolding foldl_Cons True [symmetric] by (rule carries_on_events)
  next
    case False
    with Cons.prems have "att \<in> set atts" by simp
    from Cons.IH [OF this] show ?thesis by simp
  qed
qed

lemma upload_loop_uploads:
  assumes "stays_open env" and "att \<in> set atts" and "fst att \<noteq> []"
    and "\<forall>n. fetchResult env n (fst att) = Body b" and "\<forall>n. readerError env n = None"
    and steady: "\<And>x y. carries_on x y \<Longrightarrow> taskGid y = taskGid x"
    and "taskGid s = Some taskId"
  shows "Sent (upload_message taskId b (snd att))
    \<in> set (events (foldl (uploadOne env taskGid) s atts))"
  using assms(2,7)
proof (induction atts arbitrary: s)
  case Nil
  then show ?case by simp
next
  case (Cons a atts)
  show ?case
  proof (cases "att = a")
    case True
    have "taskGid (fst (downloadAttachment env (fst att) s)) = Some taskId"
      using steady [OF downloadAttachment_carries_on(1) [OF assms(1)]] Cons.prems(2) by simp
    with assms have "Sent (upload_message taskId b (snd att))
        \<in> set (events (uploadOne env taskGid s att))"
      by (intro uploadOne_uploads)
    with upload_loop_carries_on [OF assms(1)] show ?thesis
      unfolding foldl_Cons True [symmetric] by (rule carries_on_events)
  next
    case False
    with Cons.prems have "att \<in> set atts" by simp
    moreover have "taskGid (uploadOne env taskGid s a) = Some taskId"
      using steady [OF uploadOne_carries_on [OF assms(1)]] Cons.prems(2) by simp
    ultimately show ?thesis
      unfolding foldl_Cons by (rule Cons.IH)
  qed
qed

text \<open>The three steps, as long as the modal is attached.\<close>

lemma uploadSelected_runs:
  assumes "stays_open env" and "modal s"
  shows "snd (uploadSelected env taskGid atts s) = None"
    and "carries_on s (fst (uploadSelected env taskGid atts s))"
    and "att \<in> set atts \<Longrightarrow> fst att \<noteq> [] \<Longrightarrow>
      Fetched (fst att) \<in> set (events (fst (uploadSelected env taskGid atts s)))"
    and "att \<in> set atts \<Longrightarrow> fst att \<noteq> [] \<Longrightarrow>
      \<forall>n. fetchResult env n (fst att) = Body b \<Longrightarrow> \<forall>n. readerError env n = None \<Longrightarrow>
      (\<And>x y. carries_on x y \<Longrightarrow> taskGid y = taskGid x) \<Longrightarrow> taskGid s = Some taskId \<Longrightarrow>
      Sent (upload_message taskId b (snd att))
        \<in> set (events (fst (uploadSelected env taskGid atts s)))"
proof -
  let ?s1 = "showStatus (i18n_t env (js ''uploadingAttachments'') [decimal (length atts)]) StatusInfo s"
  have run: "uploadSelected env taskGid atts s =
      (if atts \<noteq> [] then (foldl (uploadOne env taskGid) ?s1 atts, None) else (s, None))"
    using assms(2) by (simp add: uploadSelected_def showStatusLater_def andThen_def)
  show "snd (uploadSelected env taskGid atts s) = None"
    by (simp add: run)
  have loop: "carries_on s (foldl (uploadOne env taskGid) ?s1 atts)"
    using carries_on_showStatus upload_loop_carries_on [OF assms(1)] by (rule carries_on_trans)
  then show "carries_on s (fst (uploadSelected env taskGid atts s))"
    by (simp add: run)
  show "Fetched (fst att) \<in> set (events (fst (uploadSelected env taskGid atts s)))"
    if "att \<in> set atts" "fst att \<noteq> []"
    using upload_loop_fetches [OF assms(1) that, of taskGid ?s1] that(1) by (auto simp: run)
  show "Sent (upload_message taskId b (snd att))
      \<in> set (events (fst (uploadSelected env taskGid atts s)))"
    if "att \<in> set atts" "fst att \<noteq> []" "\<forall>n. fetchResult env n (fst att) = Body b"
      "\<forall>n. readerError env n = None" "\<And>x y. carries_on x y \<Longrightarrow> taskGid y = taskGid x"
      "taskGid s = Some taskId"
  proof -
    have gid: "taskGid ?s1 = Some taskId"
      using that(5) [OF carries_on_showStatus] that(6) by simp
    have "Sent (upload_message taskId b (snd att))
        \<in> set (events (foldl (uploadOne env taskGid) ?s1 atts))"
      using assms(1) that(1-4) that(5) gid by (rule upload_loop_uploads)
    with that(1) show ?thesis
      by (auto simp: run)
  qed
qed

lemma attachEmlStep_runs:
  assumes "stays_open env" and "modal s"
  shows "snd (attachEmlStep env f taskGid s) = None"
    and "carries_on s (fst (attachEmlStep env f taskGid s))"
    and "attachEml f \<Longrightarrow> emlDownloadUrl (emailData s) \<noteq> [] \<Longrightarrow>
      Fetched (emlDownloadUrl (emailData s)) \<in> set (events (fst (attachEmlStep env f taskGid s)))"
    and "attachEml f \<Longrightarrow> emlDownloadUrl (emailData s) \<noteq> [] \<Longrightarrow> blob_bytes b \<noteq> [] \<Longrightarrow>
      \<forall>n. fetchResult env n (emlDownloadUrl (emailData s)) = Body b \<Longrightarrow>
      \<forall>n. readerError env n = None \<Longrightarrow>
      (\<And>x y. carries_on x y \<Longrightarrow> taskGid y = taskGid x) \<Longrightarrow> taskGid s = Some taskId \<Longrightarrow>
      Sent (upload_message taskId b (emlFilename (subject (emailData s))))
        \<in> set (events (fst (attachEmlStep env f taskGid s)))"
proof -
  let ?s1 = "showStatus (i18n_t env (js ''attachingEmail'') []) StatusInfo s"
  let ?u = "emlDownloadUrl (emailData s)"
  let ?d = "downloadAttachment env ?u ?s1"
  let ?n = "emlFilename (subject (emailData s))"
  have run: "attachEmlStep env f taskGid s =
      (if attachEml f \<and> ?u \<noteq> [] then
         (case snd ?d of
            Some emlBlob \<Rightarrow>
              if blob_bytes emlBlob \<noteq> [] then
                (case taskGid (fst ?d) of
                   Some taskId \<Rightarrow> (fst (uploadBlobToAsana env taskId emlBlob ?n (fst ?d)), None)
                 | None \<Rightarrow> (fst ?d, None))
              else (fst ?d, None)
          | None \<Rightarrow> (fst ?d, None))
       else (s, None))"
    using assms(2)
    by (simp add: attachEmlStep_def showStatusLater_def andThen_def Let_def split: option.splits)
  have d: "carries_on s (fst ?d)"
    using carries_on_showStatus downloadAttachment_carries_on(1) [OF assms(1)]
    by (rule carries_on_trans)
  have fetched: "Fetched ?u \<in> set (events (fst ?d))"
    by (rule downloadAttachment_carries_on(2) [OF assms(1)])
  have up: "carries_on s (fst (uploadBlobToAsana env t x ?n (fst ?d)))" for t x
    using d uploadBlobToAsana_carries_on [OF assms(1)] by (rule carries_on_trans)
  have up_fetched: "Fetched ?u \<in> set (events (fst (uploadBlobToAsana env t x ?n (fst ?d))))" for t x
    using uploadBlobToAsana_carries_on [OF assms(1)] fetched by (rule carries_on_events)
  show "snd (attachEmlStep env f taskGid s) = None"
    by (simp add: run split: option.splits)
  show "carries_on s (fst (attachEmlStep env f taskGid s))"
    using d up by (simp add: run split: option.splits)
  show "Fetched ?u \<in> set (events (fst (attachEmlStep env f taskGid s)))"
    if "attachEml f" "?u \<noteq> []"
    using that fetched up_fetched by (simp add: run split: option.splits)
  show "Sent (upload_message taskId b ?n) \<in> set (events (fst (attachEmlStep env f taskGid s)))"
    if "attachEml f" "?u \<noteq> []" "blob_bytes b \<noteq> []" "\<forall>n. fetchResult env n ?u = Body b"
      "\<forall>n. readerError env n = None" "\<And>x y. carries_on x y \<Longrightarrow> taskGid y = taskGid x"
      "taskGid s = Some taskId"
  proof -
    have "snd ?d = Some b"
      using that(4) by (simp add: downloadAttachment_def)
    moreover have "taskGid (fst ?d) = Some taskId"
      using that(6) [OF d] that(7) by simp
    ultimately have "attachEmlStep env f taskGid s =
        (fst (uploadBlobToAsana env taskId b ?n (fst ?d)), None)"
      using that(1-3) by (simp add: run)
    with uploadBlobToAsana_sends [OF assms(1), of "fst ?d" taskId b ?n] that(5) show ?thesis
      by simp
  qed
qed

lemma addGmailLabel_carries_on:
  assumes "stays_open env"
  shows "carries_on s (addGmailLabel env s)"
    and "labelsBtn env \<Longrightarrow> \<not> labelError env \<Longrightarrow>
      Clicked LabelsButton \<in> set (events (addGmailLabel env s))"
proof -
  let ?s1 = "meanwhile env (emit (Clicked LabelsButton) s)"
  note s1 = carries_on_suspended [OF assms, where s = s and ev = "Clicked LabelsButton"]
  have "carries_on s (emit ev ?s1)" for ev
    using s1(1) carries_on_emit by (rule carries_on_trans)
  then show "carries_on s (addGmailLabel env s)"
    by (simp add: addGmailLabel_def Let_def split: option.splits)
  show "Clicked LabelsButton \<in> set (events (addGmailLabel env s))"
    if "labelsBtn env" "\<not> labelError env"
    using that s1(2) by (simp add: addGmailLabel_def Let_def split: option.splits)
qed

lemma labelStep_runs:
  assumes "stays_open env" and "modal s"
  shows "snd (labelStep env f s) = None"
    and "carries_on s (fst (labelStep env f s))"
    and "addLabel f \<Longrightarrow> labelsBtn env \<Longrightarrow> \<not> labelError env \<Longrightarrow>
      Clicked LabelsButton \<in> set (events (fst (labelStep env f s)))"
proof -
  let ?s1 = "showStatus (i18n_t env (js ''addingLabel'') []) StatusInfo s"
  have run: "labelStep env f s = (if addLabel f then (addGmailLabel env ?s1, None) else (s, None))"
    using assms(2) by (simp add: labelStep_def showStatusLater_def andThen_def)
  show "snd (labelStep env f s) = None"
    by (simp add: run)
  show "carries_on s (fst (labelStep env f s))"
    using carries_on_trans [OF carries_on_showStatus addGmailLabel_carries_on(1) [OF assms(1)]]
    by (simp add: run)
  show "Clicked LabelsButton \<in> set (events (fst (labelStep env f s)))"
    if "addLabel f" "labelsBtn env" "\<not> labelError env"
    using that addGmailLabel_carries_on(2) [OF assms(1)] by (simp add: run)
qed

text \<open>What the steps after the creation have done, whatever failed in them.\<close>

lemma postSteps_runs:
  assumes "stays_open env" and "modal s"
  shows "snd (postSteps env f taskGid s) = None"
    and "carries_on s (fst (postSteps env f taskGid s))"
    and "att \<in> set (checkedAttachments f) \<Longrightarrow> fst att \<noteq> [] \<Longrightarrow>
      Fetched (fst att) \<in> set (events (fst (postSteps env f taskGid s)))"
    and "att \<in> set (checkedAttachments f) \<Longrightarrow> fst att \<noteq> [] \<Longrightarrow>
      \<forall>n. fetchResult env n (fst att) = Body b \<Longrightarrow> \<forall>n. readerError env n = None \<Longrightarrow>
      (\<And>x y. carries_on x y \<Longrightarrow> taskGid y = taskGid x) \<Longrightarrow> taskGid s = Some taskId \<Longrightarrow>
      Sent (upload_message taskId b (snd att)) \<in> set (events (fst (postSteps env f taskGid s)))"
    and "attachEml f \<Longrightarrow> emlDownloadUrl (emailData s) \<noteq> [] \<Longrightarrow>
      Fetched (emlDownloadUrl (emailData s)) \<in> set (events (fst (postSteps env f taskGid s)))"
    and "attachEml f \<Longrightarrow> emlDownloadUrl (emailData s) \<noteq> [] \<Longrightarrow> blob_bytes b \<noteq> [] \<Longrightarrow>
      \<forall>n. fetchResult env n (emlDownloadUrl (emailData s)) = Body b \<Longrightarrow>
      \<forall>n. readerError env n = None \<Longrightarrow>
      (\<And>x y. carries_on x y \<Longrightarrow> taskGid y = taskGid x) \<Longrightarrow> taskGid s = Some taskId \<Longrightarrow>
      Sent (upload_message taskId b (emlFilename (subject (emailData s))))
        \<in> set (events (fst (postSteps env f taskGid s)))"
    and "addLabel f \<Longrightarrow> labelsBtn env \<Longrightarrow> \<not> labelError env \<Longrightarrow>
      Clicked LabelsButton \<in> set (events (fst (postSteps env f taskGid s)))"
proof -
  let ?a = "attachEmlStep env f taskGid s"
  let ?b = "uploadSelected env taskGid (checkedAttachments f) (fst ?a)"
  let ?c = "labelStep env f (fst ?b)"
  note a = attachEmlStep_runs [OF assms, where f = f and taskGid = taskGid]
  have ma: "modal (fst ?a)"
    using a(2) assms(2) by (simp add: carries_on_def)
  note b = uploadSelected_runs [OF assms(1) ma, where taskGid = taskGid and atts = "checkedAttachments f"]
  have mb: "modal (fst ?b)"
    using b(2) ma by (simp add: carries_on_def)
  note c = labelStep_runs [OF assms(1) mb, where f = f]
  have run: "postSteps env f taskGid s = ?c"
    using a(1) b(1) by (simp add: postSteps_def andThen_def)
  have bc: "carries_on (fst ?b) (fst ?c)"
    by (rule c(2))
  have ac: "carries_on (fst ?a) (fst ?c)"
    using b(2) bc by (rule carries_on_trans)
  show "snd (postSteps env f taskGid s) = None"
    unfolding run by (rule c(1))
  show "carries_on s (fst (postSteps env f taskGid s))"
    unfolding run using a(2) ac by (rule carries_on_trans)
  show "Fetched (fst att) \<in> set (events (fst (postSteps env f taskGid s)))"
    if "att \<in> set (checkedAttachments f)" "fst att \<noteq> []"
    unfolding run using bc b(3) [OF that] by (rule carries_on_events)
  show "Sent (upload_message taskId b (snd att)) \<in> set (events (fst (postSteps env f taskGid s)))"
    if "att \<in> set (checkedAttachments f)" "fst att \<noteq> []"
      "\<forall>n. fetchResult env n (fst att) = Body b" "\<forall>n. readerError env n = None"
      "\<And>x y. carries_on x y \<Longrightarrow> taskGid y = taskGid x" "taskGid s = Some taskId"
  proof -
    have gid: "taskGid (fst ?a) = Some taskId"
      using that(5) [OF a(2)] that(6) by simp
    have "Sent (upload_message taskId b (snd att)) \<in> set (events (fst ?b))"
      using that(1-4) that(5) gid by (rule b(4))
    with bc show ?thesis
      unfolding run by (rule carries_on_events)
  qed
  show "Fetched (emlDownloadUrl (emailData s)) \<in> set (events (fst (postSteps env f taskGid s)))"
    if "attachEml f" "emlDownloadUrl (emailData s) \<noteq> []"
    unfolding run using ac a(3) [OF that] by (rule carries_on_events)
  show "Sent (upload_message taskId b (emlFilename (subject (emailData s))))
      \<in> set (events (fst (postSteps env f taskGid s)))"
    if "attachEml f" "emlDownloadUrl (emailData s) \<noteq> []" "blob_bytes b \<noteq> []"
      "\<forall>n. fetchResult env n (emlDownloadUrl (emailData s)) = Body b"
      "\<forall>n. readerError env n = None"
      "\<And>x y. carries_on x y \<Longrightarrow> taskGid y = taskGid x" "taskGid s = Some taskId"
  proof -
    have "Sent (upload_message taskId b (emlFilename (subject (emailData s))))
        \<in> set (events (fst ?a))"
      using that by (rule a(4))
    with ac show ?thesis
      unfolding run by (rule carries_on_events)
  qed
  show "Clicked LabelsButton \<in> set (events (fst (postSteps env f taskGid s)))"
    if "addLabel f" "labelsBtn env" "\<not> labelError env"
    unfolding run using that by (rule c(3))
qed

lemma reportSuccess_reports:
  assumes "modal s"
  shows "snd (reportSuccess env doneKey titleKey title taskId s) = None"
    and "\<exists>message. status (fst (reportSuccess env doneKey titleKey title taskId s)) =
      Some (message, StatusSuccess)"
    and "carries_on s (fst (reportSuccess env doneKey titleKey title taskId s))"
    and "\<exists>ti m. Sent (SHOW_NOTIFICATION ti m (taskUrl taskId))
      \<in> set (events (fst (reportSuccess env doneKey titleKey title taskId s)))"
  using assms
  by (auto simp: reportSuccess_def showStatusLater_def andThen_def Let_def carries_on_def)

text \<open>A submission whose primary call succeeds ends in \<open>reportSuccess\<close> after all the
  steps, as long as the composer stays open.\<close>

lemma customFieldsData_showStatus [simp]:
  "customFieldsData env (showStatus m k s) = customFieldsData env s"
  by (simp add: customFieldsData_def split: response.splits)

lemma taskDataOf_showStatus [simp]:
  "taskDataOf env f (showStatus m k s) project cf = taskDataOf env f s project cf"
  by (simp add: taskDataOf_def)

lemma successful_submission_shape:
  assumes "primary_call_succeeds env f s taskId" and "stays_open env" and "modal s"
  shows "\<exists>doneKey titleKey title taskGid s2.
           createTask env f s =
             fst (reportSuccess env doneKey titleKey title taskId
                    (fst (postSteps env f taskGid s2))) \<and>
           carries_on s s2 \<and> (\<forall>x y. carries_on x y \<longrightarrow> taskGid y = taskGid x) \<and>
           taskGid s2 = Some taskId"
proof (cases "mode s")
  case Create
  with assms(1) obtain project cf task where
    name: "js_trim (taskNameInput f) \<noteq> []" and project: "selectedProject s = Some project"
    and cf: "customFieldsData env s = Inr cf"
    and reply: "createTaskReply env (taskDataOf env f s project cf) = Resolves (Payload task)"
    and taskId: "taskId = gid task"
    by (auto simp: primary_call_succeeds_def
        split: option.splits sum.splits outcome.splits response.splits)
  let ?s1 = "showStatus (i18n_t env (js ''creatingTask'') []) StatusInfo s"
  let ?s2 = "meanwhile env (emit (Sent (CREATE_TASK (taskDataOf env f s project cf))) ?s1)"
  let ?gid = "\<lambda>x :: selector. Some taskId"
  let ?p = "postSteps env f ?gid ?s2"
  let ?r = "reportSuccess env (js ''taskCreated'') (js ''notificationTitle'')
      (js_trim (taskNameInput f)) taskId (fst ?p)"
  have s2: "carries_on s ?s2"
    using carries_on_showStatus carries_on_suspended(1) [OF assms(2)] by (rule carries_on_trans)
  with assms(3) have m2: "modal ?s2"
    by (simp add: carries_on_def)
  note p = postSteps_runs(1,2) [OF assms(2) m2, where f = f and taskGid = ?gid]
  from p(2) m2 have "modal (fst ?p)"
    by (simp add: carries_on_def)
  note r = reportSuccess_reports(1) [OF this]
  have "createTask env f s = afterCreation env (andThen ?p
      (reportSuccess env (js ''taskCreated'') (js ''notificationTitle'')
         (js_trim (taskNameInput f)) taskId))"
    using Create name project cf reply taskId
    by (simp add: createTask_def Let_def error_of_def)
  also have "\<dots> = fst ?r"
    using p(1) r by (simp add: afterCreation_def andThen_def)
  finally have "createTask env f s = fst ?r" .
  with s2 show ?thesis
    by (intro exI [where x = ?gid] exI [where x = ?s2] exI conjI) auto
next
  case Comment
  with assms(1) obtain task where
    task: "selectedExistingTask s = Some task"
    and reply: "\<exists>x. addCommentReply env (gid task)
      (htmlComment (emailData s) (includeLink f) (includeBody f)) = Resolves (Payload x)"
    and taskId: "taskId = gid task"
    by (auto simp: primary_call_succeeds_def split: option.splits outcome.splits response.splits)
  let ?html = "htmlComment (emailData s) (includeLink f) (includeBody f)"
  let ?s1 = "showStatus (i18n_t env (js ''addingComment'') []) StatusInfo s"
  let ?s2 = "meanwhile env (emit (Sent (ADD_COMMENT (gid task) [] ?html)) ?s1)"
  let ?gid = "\<lambda>x. map_option gid (selectedExistingTask x)"
  let ?p = "postSteps env f ?gid ?s2"
  let ?r = "reportSuccess env (js ''commentAdded'') (js ''notificationCommentTitle'')
      (obj_name task) taskId (fst ?p)"
  have s2: "carries_on s ?s2"
    using carries_on_showStatus carries_on_suspended(1) [OF assms(2)] by (rule carries_on_trans)
  with assms(3) have m2: "modal ?s2"
    by (simp add: carries_on_def)
  note p = postSteps_runs(1,2) [OF assms(2) m2, where f = f and taskGid = ?gid]
  from carries_on_trans [OF s2 p(2)] task assms(3)
  have chosen: "selectedExistingTask (fst ?p) = Some task" and "modal (fst ?p)"
    by (simp_all add: carries_on_def)
  note r = reportSuccess_reports(1) [OF this(2)]
  have "createTask env f s = afterCreation env (andThen ?p
      (\<lambda>s3. case selectedExistingTask s3 of
              None \<Rightarrow> (s3, Some (typeErrorMessage env))
            | Some chosen \<Rightarrow>
                reportSuccess env (js ''commentAdded'') (js ''notificationCommentTitle'')
                  (obj_name chosen) (gid chosen) s3))"
    using Comment task reply
    by (auto simp: createTask_def addCommentToTask_def Let_def error_of_def)
  also have "\<dots> = fst ?r"
    using p(1) r chosen taskId by (simp add: afterCreation_def andThen_def)
  finally have "createTask env f s = fst ?r" .
  moreover have "?gid ?s2 = Some taskId"
    using s2 task taskId by (simp add: carries_on_def)
  moreover have "\<forall>x y. carries_on x y \<longrightarrow> ?gid y = ?gid x"
    by (simp add: carries_on_def)
  ultimately show ?thesis
    using s2 by (intro exI [where x = ?gid] exI [where x = ?s2] exI conjI)
qed

text \<open>
  When the creation call of a submission succeeds (\<open>CREATE_TASK\<close> in create mode,
  \<open>ADD_COMMENT\<close> in comment mode) and the composer stays open, then whatever the
  download of the raw message, the downloads and uploads of the attachments and the
  labelling of the host page do, the submission is reported as a success and the
  notification with the task's link is sent; every selected attachment with a URL has
  been fetched, and uploaded to the task if its download and the reading of the file
  succeed, whatever happened to the others; the same holds for the raw message when it
  was asked for and has a URL; and the labels button has been clicked when labelling
  was asked for and the button exists.
\<close>

lemma post_creation_failures_do_not_abort:
  assumes "primary_call_succeeds env f s taskId" and "stays_open env" and "modal s"
  shows "(\<exists>message. status (createTask env f s) = Some (message, StatusSuccess)) \<and>
         (\<exists>ti m. Sent (SHOW_NOTIFICATION ti m (taskUrl taskId))
            \<in> set (events (createTask env f s))) \<and>
         (\<forall>att \<in> set (checkedAttachments f).
            fst att \<noteq> [] \<longrightarrow> Fetched (fst att) \<in> set (events (createTask env f s))) \<and>
         (\<forall>att \<in> set (checkedAttachments f). \<forall>b.
            fst att \<noteq> [] \<and> (\<forall>n. fetchResult env n (fst att) = Body b) \<and>
            (\<forall>n. readerError env n = None) \<longrightarrow>
            Sent (upload_message taskId b (snd att)) \<in> set (events (createTask env f s))) \<and>
         (attachEml f \<and> emlDownloadUrl (emailData s) \<noteq> [] \<longrightarrow>
            Fetched (emlDownloadUrl (emailData s)) \<in> set (events (createTask env f s))) \<and>
         (\<forall>b. attachEml f \<and> emlDownloadUrl (emailData s) \<noteq> [] \<and> blob_bytes b \<noteq> [] \<and>
            (\<forall>n. fetchResult env n (emlDownloadUrl (emailData s)) = Body b) \<and>
            (\<forall>n. readerError env n = None) \<longrightarrow>
            Sent (upload_message taskId b (emlFilename (subject (emailData s))))
              \<in> set (events (createTask env f s))) \<and>
         (addLabel f \<and> labelsBtn env \<and> \<not> labelError env \<longrightarrow>
            Clicked LabelsButton \<in> set (events (createTask env f s)))"
proof -
  from successful_submission_shape [OF assms] obtain doneKey titleKey title taskGid s2 where
    shape: "createTask env f s =
      fst (reportSuccess env doneKey titleKey title taskId (fst (postSteps env f taskGid s2)))"
    and s2: "carries_on s s2"
    and steady: "\<And>x y. carries_on x y \<Longrightarrow> taskGid y = taskGid x"
    and gid: "taskGid s2 = Some taskId"
    by blast
  from s2 assms(3) have m2: "modal s2" and e: "emailData s2 = emailData s"
    by (simp_all add: carries_on_def)
  let ?p = "fst (postSteps env f taskGid s2)"
  note p = postSteps_runs [OF assms(2) m2, where f = f and taskGid = taskGid]
  from p(2) m2 have "modal ?p"
    by (simp add: carries_on_def)
  note r = reportSuccess_reports [OF this, where env = env and doneKey = doneKey and titleKey = titleKey
    and title = title and taskId = taskId]
  have kept: "ev \<in> set (events (createTask env f s))" if "ev \<in> set (events ?p)" for ev
    unfolding shape using r(3) that by (rule carries_on_events)
  have "\<exists>message. status (createTask env f s) = Some (message, StatusSuccess)"
    unfolding shape by (rule r(2))
  moreover have "\<exists>ti m. Sent (SHOW_NOTIFICATION ti m (taskUrl taskId))
      \<in> set (events (createTask env f s))"
    unfolding shape by (rule r(4))
  moreover have "\<forall>att \<in> set (checkedAttachments f).
      fst att \<noteq> [] \<longrightarrow> Fetched (fst att) \<in> set (events (createTask env f s))"
    using p(3) kept by blast
  moreover have "\<forall>att \<in> set (checkedAttachments f). \<forall>b.
      fst att \<noteq> [] \<and> (\<forall>n. fetchResult env n (fst att) = Body b) \<and>
      (\<forall>n. readerError env n = None) \<longrightarrow>
      Sent (upload_message taskId b (snd att)) \<in> set (events (createTask env f s))"
  proof (intro ballI allI impI)
    fix att b
    assume att: "att \<in> set (checkedAttachments f)"
      and ok: "fst att \<noteq> [] \<and> (\<forall>n. fetchResult env n (fst att) = Body b) \<and>
        (\<forall>n. readerError env n = None)"
    from ok have 1: "fst att \<noteq> []" and 2: "\<forall>n. fetchResult env n (fst att) = Body b"
      and 3: "\<forall>n. readerError env n = None"
      by simp_all
    have "Sent (upload_message taskId b (snd att)) \<in> set (events ?p)"
      using att 1 2 3 steady gid by (rule p(4))
    then show "Sent (upload_message taskId b (snd att)) \<in> set (events (createTask env f s))"
      by (rule kept)
  qed
  moreover have "attachEml f \<and> emlDownloadUrl (emailData s) \<noteq> [] \<longrightarrow>
      Fetched (emlDownloadUrl (emailData s)) \<in> set (events (createTask env f s))"
    using p(5) kept unfolding e by blast
  moreover have "\<forall>b. attachEml f \<and> emlDownloadUrl (emailData s) \<noteq> [] \<and> blob_bytes b \<noteq> [] \<and>
      (\<forall>n. fetchResult env n (emlDownloadUrl (emailData s)) = Body b) \<and>
      (\<forall>n. readerError env n = None) \<longrightarrow>
      Sent (upload_message taskId b (emlFilename (subject (emailData s))))
        \<in> set (events (createTask env f s))"
  proof (intro allI impI)
    fix b
    assume ok: "attachEml f \<and> emlDownloadUrl (emailData s) \<noteq> [] \<and> blob_bytes b \<noteq> [] \<and>
      (\<forall>n. fetchResult env n (emlDownloadUrl (emailData s)) = Body b) \<and>
      (\<forall>n. readerError env n = None)"
    then have 1: "attachEml f" and 2: "emlDownloadUrl (emailData s2) \<noteq> []"
      and 3: "blob_bytes b \<noteq> []"
      and 4: "\<forall>n. fetchResult env n (emlDownloadUrl (emailData s2)) = Body b"
      and 5: "\<forall>n. readerError env n = None"
      by (simp_all add: e)
    have "Sent (upload_message taskId b (emlFilename (subject (emailData s2)))) \<in> set (events ?p)"
      using 1 2 3 4 5 steady gid by (rule p(6))
    then show "Sent (upload_message taskId b (emlFilename (subject (emailData s))))
        \<in> set (events (createTask env f s))"
      unfolding e by (rule kept)
  qed
  moreover have "addLabel f \<and> labelsBtn env \<and> \<not> labelError env \<longrightarrow>
      Clicked LabelsButton \<in> set (events (createTask env f s))"
    using p(7) kept by blast
  ultimately show ?thesis by blast
qed

text \<open>
  The scenario of the partial failure: two attachments are selected and the download
  of the first fails.
\<close>

lemma stays_open_answering_env: "stays_open answering_env"
  by (simp add: stays_open_def answering_env_def)

lemma in_W1_with_P1_draft:
  "mode in_W1_with_P1 = Create" "customFieldValues in_W1_with_P1 = []"
  "emailData in_W1_with_P1 = invoice_email"
  "events in_W1_with_P1 =
     [Sent (GET_PROJECTS (js ''W1'')), Sent (GET_USERS (js ''W1'')), Sent (GET_TAGS (js ''W1'')),
      Sent (SAVE_PREFERENCES (no_preferences\<lparr>lastWorkspaceId := js ''W1''\<rparr>)),
      Sent (SAVE_PREFERENCES (no_preferences\<lparr>lastWorkspaceId := js ''W1'', lastProjectId := js ''P1''\<rparr>)),
      Sent (GET_PROJECT_CUSTOM_FIELDS (js ''P1''))]"
proof -
  have "js ''W1'' \<noteq> []"
    by (simp add: js_def)
  then have opened: "onWorkspaceChange answering_env (js ''W1'') False (opened invoice_email) =
      (opened invoice_email)
        \<lparr>projects := Payload [project_P1], users := Payload [], tags := Payload [],
         preferences := no_preferences\<lparr>lastWorkspaceId := js ''W1''\<rparr>,
         events := [Sent (GET_PROJECTS (js ''W1'')), Sent (GET_USERS (js ''W1'')),
                    Sent (GET_TAGS (js ''W1'')),
                    Sent (SAVE_PREFERENCES (no_preferences\<lparr>lastWorkspaceId := js ''W1''\<rparr>))]\<rparr>"
    by (simp add: onWorkspaceChange_def loadWorkspaceData_def requestWorkspaceData_def
        resetSelections_def savePreferences_def emit_def now_def answering_env_def opened_def
        projectToSelect_def no_preferences_def Let_def)
  show "mode in_W1_with_P1 = Create" "customFieldValues in_W1_with_P1 = []"
    "emailData in_W1_with_P1 = invoice_email"
    "events in_W1_with_P1 =
     [Sent (GET_PROJECTS (js ''W1'')), Sent (GET_USERS (js ''W1'')), Sent (GET_TAGS (js ''W1'')),
      Sent (SAVE_PREFERENCES (no_preferences\<lparr>lastWorkspaceId := js ''W1''\<rparr>)),
      Sent (SAVE_PREFERENCES (no_preferences\<lparr>lastWorkspaceId := js ''W1'', lastProjectId := js ''P1''\<rparr>)),
      Sent (GET_PROJECT_CUSTOM_FIELDS (js ''P1''))]"
    unfolding in_W1_with_P1_def opened
    by (simp_all add: selectProject_def loadCustomFields_def savePreferences_def emit_def now_def
        answering_env_def opened_def project_P1_def Let_def)
qed

lemma partial_failure_still_succeeds:
  "primary_call_succeeds answering_env form_two_attachments in_W1_with_P1 (js ''T1'') \<and>
   stays_open answering_env \<and> modal in_W1_with_P1 \<and>
   fetchResult answering_env 0 (js ''https://mail.google.com/a'') = NetworkError \<and>
   (\<exists>message. status (createTask answering_env form_two_attachments in_W1_with_P1) =
      Some (message, StatusSuccess)) \<and>
   Fetched (js ''https://mail.google.com/a'')
     \<in> set (events (createTask answering_env form_two_attachments in_W1_with_P1)) \<and>
   Fetched (js ''https://mail.google.com/b'')
     \<in> set (events (createTask answering_env form_two_attachments in_W1_with_P1)) \<and>
   Sent (upload_message (js ''T1'') \<lparr>blob_bytes = [0x41], blob_type = js ''text/plain''\<rparr>
           (js ''b.pdf''))
     \<in> set (events (createTask answering_env form_two_attachments in_W1_with_P1))"
proof -
  have name: "js_trim (taskNameInput form_two_attachments) \<noteq> []"
    by (simp add: form_two_attachments_def js_trim_def js_space_def js_def)
  have p: "selectedProject in_W1_with_P1 = Some project_P1"
    using in_W1_with_P1_state by simp
  have cf: "customFieldsData answering_env in_W1_with_P1 = Inr []"
    by (simp add: customFieldsData_def in_W1_with_P1_draft)
  have reply: "createTaskReply answering_env td =
      Resolves (Payload \<lparr>gid = js ''T1'', obj_name = td_name td\<rparr>)" for td
    by (simp add: answering_env_def)
  have ok: "primary_call_succeeds answering_env form_two_attachments in_W1_with_P1 (js ''T1'')"
    by (simp add: primary_call_succeeds_def in_W1_with_P1_draft name p cf reply)
  have fails: "fetchResult answering_env 0 (js ''https://mail.google.com/a'') = NetworkError"
    by (simp add: answering_env_def)
  have a: "(js ''https://mail.google.com/a'', js ''a.pdf'')
      \<in> set (checkedAttachments form_two_attachments)"
    and b: "(js ''https://mail.google.com/b'', js ''b.pdf'')
      \<in> set (checkedAttachments form_two_attachments)"
    by (simp_all add: form_two_attachments_def)
  have ne: "fst (js ''https://mail.google.com/a'', js ''a.pdf'') \<noteq> []"
    "fst (js ''https://mail.google.com/b'', js ''b.pdf'') \<noteq> []"
    by (simp_all add: js_def)
  have downloads: "\<forall>n. fetchResult answering_env n (fst (js ''https://mail.google.com/b'', js ''b.pdf'')) =
      Body \<lparr>blob_bytes = [0x41], blob_type = js ''text/plain''\<rparr>"
    "\<forall>n. readerError answering_env n = None"
    by (simp_all add: answering_env_def js_def)
  note t = post_creation_failures_do_not_abort [OF ok stays_open_answering_env in_W1_with_P1_modal]
  from t have "\<exists>message. status (createTask answering_env form_two_attachments in_W1_with_P1) =
      Some (message, StatusSuccess)" by blast
  moreover from t a ne(1) have "Fetched (js ''https://mail.google.com/a'')
     \<in> set (events (createTask answering_env form_two_attachments in_W1_with_P1))"
    by (metis fst_conv)
  moreover from t b ne(2) have "Fetched (js ''https://mail.google.com/b'')
     \<in> set (events (createTask answering_env form_two_attachments in_W1_with_P1))"
    by (metis fst_conv)
  moreover from t have "\<forall>att \<in> set (checkedAttachments form_two_attachments). \<forall>b.
      fst att \<noteq> [] \<and> (\<forall>n. fetchResult answering_env n (fst att) = Body b) \<and>
      (\<forall>n. readerError answering_env n = None) \<longrightarrow>
      Sent (upload_message (js ''T1'') b (snd att))
        \<in> set (events (createTask answering_env form_two_attachments in_W1_with_P1))"
    by blast
  from this [rule_format, OF b, of "\<lparr>blob_bytes = [0x41], blob_type = js ''text/plain''\<rparr>"]
    ne(2) downloads
  have "Sent (upload_message (js ''T1'') \<lparr>blob_bytes = [0x41], blob_type = js ''text/plain''\<rparr>
           (js ''b.pdf''))
     \<in> set (events (createTask answering_env form_two_attachments in_W1_with_P1))"
    by simp
  ultimately show ?thesis
    using ok fails stays_open_answering_env in_W1_with_P1_modal by blast
qed


section \<open>The gateway's answers\<close>

lemma handleTyped_unknown:
  assumes "ty \<notin> set known_types"
  shows "handleTyped env m ty = unknownType (TypeString ty)"
proof -
  from assms have
    "ty \<noteq> js ''CHECK_SESSION''" "ty \<noteq> js ''GET_WORKSPACES''" "ty \<noteq> js ''GET_PROJECTS''"
    "ty \<noteq> js ''GET_USERS''" "ty \<noteq> js ''GET_TAGS''" "ty \<noteq> js ''CREATE_TASK''"
    "ty \<noteq> js ''UPLOAD_ATTACHMENT''" "ty \<noteq> js ''UPLOAD_ATTACHMENT_BASE64''"
    "ty \<noteq> js ''GET_TASK_URL''" "ty \<noteq> js ''SEARCH_TASKS''" "ty \<noteq> js ''ADD_COMMENT''"
    "ty \<noteq> js ''GET_PROJECT_CUSTOM_FIELDS''" "ty \<noteq> js ''GET_TASK''"
    "ty \<noteq> js ''SHOW_NOTIFICATION''" "ty \<noteq> js ''SAVE_PREFERENCES''"
    "ty \<noteq> js ''GET_PREFERENCES''"
    unfolding known_types_def by auto
  then show ?thesis
    unfolding handleTyped_def by (simp only: if_False)
qed

lemma handleMessage_unknown:
  assumes "\<not> accepted (msg_type m)"
  shows "handleMessage env (Message m) = unknownType (msg_type m)"
proof (cases "msg_type m")
  case (TypeString ty)
  with assms have "ty \<notin> set known_types" by (simp add: accepted_def)
  then have "handleTyped env m ty = unknownType (TypeString ty)"
    by (rule handleTyped_unknown)
  with TypeString show ?thesis by (simp add: handleMessage_def)
next
  case (TypeOther x)
  then show ?thesis by (simp add: handleMessage_def)
qed

text \<open>
  Claim C9. For every incoming message the listener passes exactly one value to
  \<open>sendResponse\<close> and lets no exception out: the value is a plain result, or an object
  \<open>{error: message}\<close> with the message of what \<open>handleMessage\<close> threw. A message whose
  type is outside the accepted set is answered with the error
  \<open>Unknown message type: <type>\<close>.
\<close>

theorem gateway_always_answers:
  "((\<exists>r. handleMessage env message = Returns r \<and> onMessage env message = Returns (Plain r)) \<or>
    (\<exists>e. handleMessage env message = Throws e \<and> onMessage env message = Returns (ErrorReply e))) \<and>
   (\<forall>m. message = Message m \<longrightarrow> \<not> accepted (msg_type m) \<longrightarrow>
      onMessage env message =
        Returns (ErrorReply (js ''Unknown message type: '' @ type_text (msg_type m))))"
proof -
  have "(\<exists>r. handleMessage env message = Returns r \<and> onMessage env message = Returns (Plain r)) \<or>
    (\<exists>e. handleMessage env message = Throws e \<and> onMessage env message = Returns (ErrorReply e))"
    by (cases "handleMessage env message") (simp_all add: onMessage_def)
  moreover have "onMessage env (Message m) =
        Returns (ErrorReply (js ''Unknown message type: '' @ type_text (msg_type m)))"
    if "\<not> accepted (msg_type m)" for m
    using handleMessage_unknown [OF that, of env]
    by (simp add: onMessage_def unknownType_def)
  ultimately show ?thesis by blast
qed

theorem gateway_always_answers_witness:
  "\<not> accepted (TypeString (js ''DELETE_TASK'')) \<and>
   onMessage tokenless_gateway delete_request =
     Returns (ErrorReply (js ''Unknown message type: DELETE_TASK''))"
proof -
  have n: "\<not> accepted (TypeString (js ''DELETE_TASK''))"
    by (simp add: accepted_def known_types_def js_def)
  obtain m where m: "delete_request = Message m" and ty: "msg_type m = TypeString (js ''DELETE_TASK'')"
    by (simp add: delete_request_def)
  from gateway_always_answers [of tokenless_gateway delete_request] m n ty
  have "onMessage tokenless_gateway delete_request =
      Returns (ErrorReply (js ''Unknown message type: '' @ type_text (TypeString (js ''DELETE_TASK''))))"
    by metis
  with n show ?thesis by (simp add: type_text_def js_def)
qed

section \<open>The tree under insertion\<close>








text \<open>The three insertions.\<close>

lemma place_before_splits:
  "list_ex (is_element r) ch \<Longrightarrow> \<exists>xs ys. ch = xs @ ys \<and> place_before r new ch = xs @ new # ys"
proof (induction ch)
  case (Cons n ns)
  show ?case
  proof (cases "is_element r n")
    case True
    then have "n # ns = [] @ (n # ns) \<and> place_before r new (n # ns) = [] @ new # (n # ns)"
      by simp
    then show ?thesis by blast
  next
    case False
    with Cons obtain xs ys where "ns = xs @ ys" "place_before r new ns = xs @ new # ys"
      by auto
    with False have "n # ns = (n # xs) @ ys \<and> place_before r new (n # ns) = (n # xs) @ new # ys"
      by simp
    then show ?thesis by blast
  qed
qed simp

lemma inserts_appendChild: "inserts new (appendChild p new)"
  unfolding inserts_def
proof (intro conjI allI)
  fix t ch
  show "appendChild p new (Element t ch) = Element t (map (appendChild p new) ch) \<or>
      (\<exists>xs ys. ch = xs @ ys \<and> appendChild p new (Element t ch) = Element t (xs @ new # ys))"
  proof (cases "tag_id t = p")
    case True
    then have "ch = ch @ [] \<and> appendChild p new (Element t ch) = Element t (ch @ new # [])"
      by simp
    then show ?thesis by blast
  qed simp
qed simp

lemma inserts_insertFirst: "inserts new (insertFirst p new)"
  unfolding inserts_def
proof (intro conjI allI)
  fix t ch
  show "insertFirst p new (Element t ch) = Element t (map (insertFirst p new) ch) \<or>
      (\<exists>xs ys. ch = xs @ ys \<and> insertFirst p new (Element t ch) = Element t (xs @ new # ys))"
  proof (cases "tag_id t = p")
    case True
    then have "ch = [] @ ch \<and> insertFirst p new (Element t ch) = Element t ([] @ new # ch)"
      by simp
    then show ?thesis by blast
  qed simp
qed simp

lemma inserts_insertBefore: "inserts new (insertBefore r new)"
  unfolding inserts_def
proof (intro conjI allI)
  fix t ch
  show "insertBefore r new (Element t ch) = Element t (map (insertBefore r new) ch) \<or>
      (\<exists>xs ys. ch = xs @ ys \<and> insertBefore r new (Element t ch) = Element t (xs @ new # ys))"
  proof (cases "list_ex (is_element r) ch")
    case True
    from place_before_splits [OF this, of new] True show ?thesis by auto
  qed simp
qed simp












section \<open>The triggers the injector makes\<close>









section \<open>Queries do not see triggers\<close>























section \<open>One injection\<close>





lemma moves_distinct:
  "moves label st st' \<Longrightarrow> distinct (injectedButtons st) \<Longrightarrow> distinct (injectedButtons st')"
  by (auto simp: moves_def injection_def)



section \<open>The visits\<close>

lemma addMiniButton_injection:
  "mc \<notin> set (injectedButtons st) \<Longrightarrow> injection label st (addMiniButton label st mc area)"
  unfolding injection_def addMiniButton_def
  using inserts_appendChild by blast

lemma visitToolbar_moves: "moves label st (visitToolbar label st toolbar)"
proof -
  have before: "injection label st
      (st\<lparr>dom := insertBefore r (createAsanaButton label (fresh_id (dom st))) (dom st),
          injectedButtons := injectedButtons st @ [toolbar]\<rparr>)"
    if "toolbar \<notin> set (injectedButtons st)" for r
    using that unfolding injection_def using inserts_insertBefore by blast
  have first: "injection label st
      (st\<lparr>dom := insertFirst toolbar (createAsanaButton label (fresh_id (dom st))) (dom st),
          injectedButtons := injectedButtons st @ [toolbar]\<rparr>)"
    if "toolbar \<notin> set (injectedButtons st)"
    using that unfolding injection_def using inserts_insertFirst by blast
  show ?thesis
    unfolding moves_def visitToolbar_def using before first
    by (auto split: option.splits list.splits)
qed

lemma visitExpanded_moves: "moves label st (visitExpanded label st mc)"
  unfolding moves_def visitExpanded_def using addMiniButton_injection
  by (auto split: option.splits)

lemma visitMessageId_moves: "moves label st (visitMessageId label st mc)"
  unfolding moves_def visitMessageId_def using addMiniButton_injection
  by (auto split: option.splits)

lemma visitSender_moves: "moves label st (visitSender label st senderEl)"
  unfolding moves_def visitSender_def using addMiniButton_injection
  by (auto simp: Let_def split: option.splits)


lemma marked_by_addMiniButton: "has_trigger cls mc (addMiniButton label st mc area)"
  by (simp add: has_trigger_def addMiniButton_def)














section \<open>The pass\<close>









lemma injectButtons_stages:
  "injectButtons label st =
     injectSender label (injectMessageId label (injectExpanded label
       (injectToolbar label (sel_attr_is ''gh'' ''mtb'')
          (injectToolbar label (sel_class ''G-atb'')
             (injectToolbar label (sel_class ''ade'') st)))))"
  by (simp add: injectButtons_def injectMessageButtons_def injectToolbarButtons_def
      toolbarSelectors_def injectSender_def injectMessageId_def injectExpanded_def Let_def)


lemma fold_distinct:
  assumes "\<And>s x. moves label s (v s x)" and "distinct (injectedButtons st)"
  shows "distinct (injectedButtons (foldl v st xs))"
  using assms(2) by (induction xs rule: rev_induct) (auto intro: moves_distinct [OF assms(1)])

text \<open>
  A container is marked at most once, whichever strategies find it: a pass marks only
  containers that were not marked.
\<close>

lemma injectButtons_marks_once:
  assumes "distinct (injectedButtons st)"
  shows "distinct (injectedButtons (injectButtons label st))"
proof -
  have toolbar: "distinct (injectedButtons (injectToolbar label sel s))"
    if "distinct (injectedButtons s)" for sel s
    unfolding injectToolbar_def using visitToolbar_moves that by (rule fold_distinct)
  have expanded: "distinct (injectedButtons (injectExpanded label s))"
    if "distinct (injectedButtons s)" for s
    unfolding injectExpanded_def using visitExpanded_moves that by (rule fold_distinct)
  have message: "distinct (injectedButtons (injectMessageId label s))"
    if "distinct (injectedButtons s)" for s
    unfolding injectMessageId_def using visitMessageId_moves that by (rule fold_distinct)
  have sender: "distinct (injectedButtons (injectSender label s))"
    if "distinct (injectedButtons s)" for s
    unfolding injectSender_def using visitSender_moves that by (rule fold_distinct)
  show ?thesis
    unfolding injectButtons_stages
    by (intro sender message expanded toolbar assms)
qed

text \<open>A visit of a container that carries the marker changes nothing.\<close>

lemma marked_container_skipped:
  assumes "c \<in> set (injectedButtons st)"
  shows "visitToolbar label st c = st" and "visitExpanded label st c = st"
    and "visitMessageId label st c = st"
    and "messageContainerOf senderEl = Some container \<Longrightarrow> tag_id (snd container) = c \<Longrightarrow>
      visitSender label st senderEl = st"
  using assms by (simp_all add: visitToolbar_def visitExpanded_def visitMessageId_def visitSender_def)

text \<open>A visit of a container that holds a trigger of its kind changes nothing.\<close>

lemma container_with_trigger_skipped:
  shows "querySelectorIn c (sel_class ''asana-gmail-btn'') (dom st) \<noteq> None \<Longrightarrow>
      visitToolbar label st c = st"
    and "querySelectorIn c (sel_class ''asana-gmail-btn-mini'') (dom st) \<noteq> None \<Longrightarrow>
      visitExpanded label st c = st"
    and "querySelectorIn c (sel_class ''asana-gmail-btn-mini'') (dom st) \<noteq> None \<Longrightarrow>
      visitMessageId label st c = st"
  by (simp_all add: visitToolbar_def visitExpanded_def visitMessageId_def)

text \<open>A visit of a container in which no place for a trigger is found changes nothing.\<close>

lemma container_without_area_skipped:
  shows "querySelectorIn c (sel_class ''T-I'') (dom st) = None \<Longrightarrow>
      childNodes c (dom st) = Some [] \<or> childNodes c (dom st) = None \<Longrightarrow>
      visitToolbar label st c = st"
    and "headerArea c (dom st) = None \<Longrightarrow> visitExpanded label st c = st"
    and "headerArea c (dom st) = Some header \<Longrightarrow>
      actionsArea c (tag_id (snd header)) (dom st) = None \<Longrightarrow> visitExpanded label st c = st"
    and "messageActionsArea c (dom st) = None \<Longrightarrow> visitMessageId label st c = st"
    and "messageContainerOf senderEl = None \<or> senderRowOf senderEl = None \<Longrightarrow>
      visitSender label st senderEl = st"
  by (auto simp: visitToolbar_def visitExpanded_def visitMessageId_def visitSender_def Let_def
      split: option.splits)




end
